(* ===== verification/Prelude.thy ===== *)
theory Prelude
  imports "HOL-Library.Word" "HOL-Library.AList" "HOL-Library.List_Lexorder" "HOL-Library.Multiset"
begin

text \<open>
  What every component of the development shares: the machine integers of the server, the
  standard library's \<^verbatim>\<open>HashMap\<close> as an association list in iteration order, the effects of a
  handler (state that is kept when the handler returns an error or panics), Rust strings as their
  UTF-8 bytes, and the generic lemmas on lists, sums and words the component proofs rest on.
\<close>

section \<open>Machine integers and bytes\<close>

text \<open>
  The server is deployed from a release build (\<^verbatim>\<open>Dockerfile\<close>, \<^verbatim>\<open>cargo build --release\<close>), where
  integer arithmetic wraps around. Signed integers are words read by \<^const>\<open>sint\<close>, so a cast
  between \<^verbatim>\<open>i32\<close> and \<^verbatim>\<open>u32\<close> is the identity.
\<close>

type_synonym u8 = "8 word"
type_synonym u16 = "16 word"
type_synonym u32 = "32 word"
type_synonym u64 = "64 word"
type_synonym i8 = "8 word"
type_synonym i32 = "32 word"
type_synonym bytes = "u8 list"

text \<open>A \<^verbatim>\<open>Uuid\<close> is its sixteen bytes.\<close>

type_synonym uuid = bytes

named_theorems eff_simps \<open>rewriting of effectful programs\<close>
named_theorems hm_simps \<open>rewriting of hash map operations\<close>

section \<open>Hash maps\<close>

text \<open>
  A \<^verbatim>\<open>HashMap\<close> is an association list with distinct keys; its order is the order in which the
  map is iterated, which the program does not control. Statements about iterated maps hold for
  every such list, or say that the order does not matter.
\<close>

type_synonym ('k, 'v) hashmap = "('k \<times> 'v) list"

abbreviation hm_wf :: "('k, 'v) hashmap \<Rightarrow> bool" where
  "hm_wf m \<equiv> distinct (map fst m)"

abbreviation hm_keys :: "('k, 'v) hashmap \<Rightarrow> 'k set" where
  "hm_keys m \<equiv> fst ` set m"

definition hm_insert :: "'k \<Rightarrow> 'v \<Rightarrow> ('k, 'v) hashmap \<Rightarrow> ('k, 'v) hashmap" where
  "hm_insert k v m = AList.update k v m"

definition hm_remove :: "'k \<Rightarrow> ('k, 'v) hashmap \<Rightarrow> ('k, 'v) hashmap" where
  "hm_remove k m = filter (\<lambda>(k', _). k' \<noteq> k) m"

fun hm_extend :: "('k, 'v) hashmap \<Rightarrow> ('k \<times> 'v) list \<Rightarrow> ('k, 'v) hashmap" where
  "hm_extend m [] = m"
| "hm_extend m ((k, v) # kvs) = hm_extend (hm_insert k v m) kvs"

text \<open>\<^verbatim>\<open>iter.collect::<HashMap<_, _>>()\<close>: later entries replace earlier ones.\<close>

definition hm_collect :: "('k \<times> 'v) list \<Rightarrow> ('k, 'v) hashmap" where
  "hm_collect kvs = hm_extend [] kvs"

text \<open>\<^verbatim>\<open>*map.entry(k).or_default() += 1\<close> on an unsigned counter.\<close>

definition hm_bump :: "'k \<Rightarrow> ('k, u32) hashmap \<Rightarrow> ('k, u32) hashmap" where
  "hm_bump k m = hm_insert k ((case map_of m k of None \<Rightarrow> 0 | Some n \<Rightarrow> n) + 1) m"

text \<open>\<^verbatim>\<open>map.entry(k).or_default().push(v)\<close> on a map of vectors.\<close>

definition hm_push :: "'k \<Rightarrow> 'v \<Rightarrow> ('k, 'v list) hashmap \<Rightarrow> ('k, 'v list) hashmap" where
  "hm_push k v m = hm_insert k ((case map_of m k of None \<Rightarrow> [] | Some vs \<Rightarrow> vs) @ [v]) m"

lemma map_of_hm_insert [simp, hm_simps]: "map_of (hm_insert k v m) = (map_of m)(k \<mapsto> v)"
  by (simp add: hm_insert_def update_conv')

lemma hm_keys_insert [simp, hm_simps]: "hm_keys (hm_insert k v m) = insert k (hm_keys m)"
  by (simp add: hm_insert_def dom_update)

lemma hm_wf_insert [simp, intro]: "hm_wf m \<Longrightarrow> hm_wf (hm_insert k v m)"
  by (simp add: hm_insert_def distinct_update)

lemma hm_insert_fresh: "k \<notin> hm_keys m \<Longrightarrow> hm_insert k v m = m @ [(k, v)]"
  by (induction m) (auto simp: hm_insert_def)

lemma map_of_hm_remove [simp, hm_simps]: "map_of (hm_remove k m) = (map_of m)(k := None)"
  by (induction m) (auto simp: hm_remove_def fun_eq_iff)

lemma hm_keys_remove [simp, hm_simps]: "hm_keys (hm_remove k m) = hm_keys m - {k}"
  by (auto simp: hm_remove_def image_iff)

lemma hm_wf_remove [simp, intro]: "hm_wf m \<Longrightarrow> hm_wf (hm_remove k m)"
  by (induction m) (auto simp: hm_remove_def)

lemma hm_keys_extend [simp, hm_simps]:
  "hm_keys (hm_extend m kvs) = hm_keys m \<union> fst ` set kvs"
  by (induction m kvs rule: hm_extend.induct) auto

lemma hm_wf_extend [simp, intro]: "hm_wf m \<Longrightarrow> hm_wf (hm_extend m kvs)"
  by (induction m kvs rule: hm_extend.induct) auto

lemma hm_extend_fresh:
  "distinct (map fst kvs) \<Longrightarrow> hm_keys m \<inter> fst ` set kvs = {} \<Longrightarrow> hm_extend m kvs = m @ kvs"
  by (induction m kvs rule: hm_extend.induct) (auto simp: hm_insert_fresh)

lemma map_of_hm_extend:
  "distinct (map fst kvs) \<Longrightarrow> map_of (hm_extend m kvs) = map_of m ++ map_of kvs"
proof (induction m kvs rule: hm_extend.induct)
  case (2 m k v kvs)
  then have "map_of kvs k = None"
    by (auto simp: map_of_eq_None_iff)
  with 2 show ?case
    by (auto simp: fun_eq_iff map_add_def split: option.splits)
qed simp

lemma hm_collect_distinct [simp]: "distinct (map fst kvs) \<Longrightarrow> hm_collect kvs = kvs"
  by (simp add: hm_collect_def hm_extend_fresh)

lemma hm_keys_collect [simp, hm_simps]: "hm_keys (hm_collect kvs) = fst ` set kvs"
  by (simp add: hm_collect_def)

lemma hm_wf_collect [simp, intro]: "hm_wf (hm_collect kvs)"
  by (simp add: hm_collect_def)

lemma hm_keys_lookup: "k \<in> hm_keys m \<longleftrightarrow> (\<exists>v. map_of m k = Some v)"
  by (metis dom_map_of_conv_image_fst domD domI)

lemma hm_wf_mem_iff: "hm_wf m \<Longrightarrow> (k, v) \<in> set m \<longleftrightarrow> map_of m k = Some v"
  by (metis map_of_SomeD map_of_is_SomeI)

lemma hm_wf_length: "hm_wf m \<Longrightarrow> length m = card (hm_keys m)"
  by (metis distinct_card length_map list.set_map)

section \<open>Lists\<close>

text \<open>\<^verbatim>\<open>sort\<close> gives one list for all orders of the same elements.\<close>

lemma sort_eqI: "mset xs = mset ys \<Longrightarrow> sort xs = sort ys"
  by (metis mset_sort properties_for_sort sorted_sort)

lemma sum_list_order:
  "mset xs = mset ys \<Longrightarrow> (\<Sum>x\<leftarrow>xs. f x) = (\<Sum>x\<leftarrow>ys. f x :: 'a::comm_monoid_add)"
  by (metis mset_map sum_mset_sum_list)

text \<open>A sum over the values of a map, taken over a list that holds all of its keys.\<close>

lemma sum_list_hm_values:
  fixes f :: "'v \<Rightarrow> nat"
  assumes "hm_wf m" "hm_keys m \<subseteq> set ks" "distinct ks"
  shows "(\<Sum>e\<leftarrow>m. f (snd e)) = (\<Sum>k\<leftarrow>ks. case map_of m k of None \<Rightarrow> 0 | Some v \<Rightarrow> f v)"
proof -
  let ?g = "\<lambda>k. case map_of m k of None \<Rightarrow> 0 | Some v \<Rightarrow> f v"
  have "(\<Sum>e\<leftarrow>m. f (snd e)) = (\<Sum>e\<leftarrow>m. ?g (fst e))"
    using assms(1) by (intro arg_cong[where f = sum_list] map_cong) auto
  also have "\<dots> = sum_list (map ?g (map fst m))"
    by (simp add: comp_def)
  also have "\<dots> = sum ?g (set (map fst m))"
    using assms(1) by (rule sum.distinct_set_conv_list[symmetric])
  also have "\<dots> = sum ?g (hm_keys m)"
    by (simp only: list.set_map)
  also have "\<dots> = sum ?g (set ks)"
    using assms(2) by (intro sum.mono_neutral_left) (auto simp: hm_keys_lookup split: option.splits)
  also have "\<dots> = (\<Sum>k\<leftarrow>ks. ?g k)"
    using assms(3) by (simp add: sum.distinct_set_conv_list)
  finally show ?thesis .
qed

section \<open>Strings\<close>

text \<open>An unsigned integer formatted by \<^verbatim>\<open>{}\<close>.\<close>

fun decimal :: "nat \<Rightarrow> string" where
  "decimal n = (if n < 10 then [char_of (48 + n)] else decimal (n div 10) @ [char_of (48 + n mod 10)])"

declare decimal.simps [simp del]

text \<open>
  A Rust \<^verbatim>\<open>String\<close> is a vector of UTF-8 bytes. \<^verbatim>\<open>len\<close> counts bytes, \<^verbatim>\<open>chars().count()\<close> counts the
  bytes that do not continue a character, and \<^verbatim>\<open>char::is_control\<close> is Unicode's class Cc: U+0000 to
  U+001F and U+007F in one byte, U+0080 to U+009F as C2 followed by 80 to 9F.
\<close>

definition byte :: "char \<Rightarrow> nat" where
  "byte c = of_char c"

definition utf8_continuation :: "char \<Rightarrow> bool" where
  "utf8_continuation c = (128 \<le> byte c \<and> byte c < 192)"

definition chars_count :: "string \<Rightarrow> nat" where
  "chars_count s = length (filter (\<lambda>c. \<not> utf8_continuation c) s)"

definition is_control_byte :: "char \<Rightarrow> bool" where
  "is_control_byte c = (byte c < 32 \<or> byte c = 127)"

fun any_control :: "string \<Rightarrow> bool" where
  "any_control [] = False"
| "any_control [c] = is_control_byte c"
| "any_control (c # d # s) =
     (is_control_byte c \<or> (byte c = 194 \<and> 128 \<le> byte d \<and> byte d < 160) \<or> any_control (d # s))"

definition into_bytes :: "string \<Rightarrow> bytes" where
  "into_bytes s = map of_char s"

lemma chars_count_le_length: "chars_count s \<le> length s"
  by (simp add: chars_count_def)

end
