(* ===== verification/Errors.thy ===== *)
theory Errors
  imports Prelude
begin

text \<open>
  The error types of \<^verbatim>\<open>src/error.rs\<close> and \<^verbatim>\<open>src/persistence/error.rs\<close>, the outcome of a call (a
  value, an error or a panic) and the effects of a handler. An effect returns the state together
  with its outcome: in-memory changes made before a \<^verbatim>\<open>?\<close> or a panic stay, as they do in the server.
\<close>

section \<open>Errors\<close>

text \<open>
  The payloads of foreign error types (\<^verbatim>\<open>VarError\<close>, \<^verbatim>\<open>BuildError\<close>, \<^verbatim>\<open>diesel::result::Error\<close>,
  \<^verbatim>\<open>io::Error\<close>) are their messages. \<^verbatim>\<open>ConnectionError\<close> exists in test builds only.
\<close>

datatype persistence_error =
    VarError string
  | PoolBuildError string
  | InvalidArgumentError string
  | GeneralError string
  | ExecutionError string
  | TryFromIntError
  | DataInconsistencyError string

datatype error =
    PersistenceError persistence_error
  | GeneralProtocolError string
  | IoError string

text \<open>A gRPC status: the codes the server uses, with their message.\<close>

datatype status =
    Internal string
  | FailedPrecondition string
  | Unauthenticated string
  | InvalidArgument string

fun status_of_error :: "error \<Rightarrow> status" where
  "status_of_error (PersistenceError _) = Internal ''Internal error occurred''"
| "status_of_error (IoError _) = Internal ''Internal error occurred''"
| "status_of_error (GeneralProtocolError e) = FailedPrecondition e"

section \<open>Outcomes\<close>

text \<open>A panic (\<^verbatim>\<open>assert!\<close>, \<^verbatim>\<open>unwrap\<close>, \<^verbatim>\<open>unreachable!\<close>, an index out of range) is an outcome of its own.\<close>

datatype failure = Err error | Panic

type_synonym 'a res = "failure + 'a"

text \<open>The conversions \<^verbatim>\<open>?\<close> applies: \<^verbatim>\<open>From<String>\<close> and \<^verbatim>\<open>From<PersistenceError>\<close> for \<^verbatim>\<open>Error\<close>.\<close>

fun res_of_string_result :: "string + 'a \<Rightarrow> 'a res" where
  "res_of_string_result (Inl e) = Inl (Err (GeneralProtocolError e))"
| "res_of_string_result (Inr x) = Inr x"

fun res_of_persistence :: "persistence_error + 'a \<Rightarrow> 'a res" where
  "res_of_persistence (Inl e) = Inl (Err (PersistenceError e))"
| "res_of_persistence (Inr x) = Inr x"

fun res_bind :: "'a res \<Rightarrow> ('a \<Rightarrow> 'b res) \<Rightarrow> 'b res" where
  "res_bind (Inl e) f = Inl e"
| "res_bind (Inr x) f = f x"

lemma res_bind_Inr_iff: "res_bind m f = Inr y \<longleftrightarrow> (\<exists>x. m = Inr x \<and> f x = Inr y)"
  by (cases m) auto

lemma res_bind_Inl_iff:
  "res_bind m f = Inl e \<longleftrightarrow> m = Inl e \<or> (\<exists>x. m = Inr x \<and> f x = Inl e)"
  by (cases m) auto

section \<open>Effects\<close>

type_synonym ('s, 'a) eff = "'s \<Rightarrow> 'a res \<times> 's"

definition eff_return :: "'a \<Rightarrow> ('s, 'a) eff" where
  "eff_return x s = (Inr x, s)"

definition eff_fail :: "failure \<Rightarrow> ('s, 'a) eff" where
  "eff_fail e s = (Inl e, s)"

definition eff_lift :: "'a res \<Rightarrow> ('s, 'a) eff" where
  "eff_lift r s = (r, s)"

definition eff_gets :: "('s \<Rightarrow> 'a) \<Rightarrow> ('s, 'a) eff" where
  "eff_gets f s = (Inr (f s), s)"

definition eff_modify :: "('s \<Rightarrow> 's) \<Rightarrow> ('s, unit) eff" where
  "eff_modify f s = (Inr (), f s)"

definition eff_bind :: "('s, 'a) eff \<Rightarrow> ('a \<Rightarrow> ('s, 'b) eff) \<Rightarrow> ('s, 'b) eff" where
  "eff_bind m f s = (case m s of (r, s') \<Rightarrow> (case r of Inl e \<Rightarrow> (Inl e, s') | Inr x \<Rightarrow> f x s'))"

lemmas eff_defs = eff_return_def eff_fail_def eff_lift_def eff_gets_def eff_modify_def

declare eff_defs [eff_simps]

lemma eff_bind_Inr [eff_simps]: "m s = (Inr x, s') \<Longrightarrow> eff_bind m f s = f x s'"
  by (simp add: eff_bind_def)

lemma eff_bind_Inl [eff_simps]: "m s = (Inl e, s') \<Longrightarrow> eff_bind m f s = (Inl e, s')"
  by (simp add: eff_bind_def)

lemma eff_bind_eq_Inr:
  "eff_bind m f s = (Inr y, t) \<longleftrightarrow> (\<exists>x s'. m s = (Inr x, s') \<and> f x s' = (Inr y, t))"
  by (auto simp: eff_bind_def split: prod.splits sum.splits)

lemma eff_bind_return [simp]: "eff_bind (eff_return x) f = f x"
  by (simp add: eff_bind_def eff_return_def fun_eq_iff)

lemma eff_bind_return_right [simp]: "eff_bind m eff_return = m"
  by (auto simp: eff_bind_def eff_return_def fun_eq_iff split: prod.splits sum.splits)

lemma eff_bind_assoc: "eff_bind (eff_bind m f) g = eff_bind m (\<lambda>x. eff_bind (f x) g)"
  by (auto simp: eff_bind_def fun_eq_iff split: prod.splits sum.splits)

text \<open>
  A relation between the states before and after: every effect built from effects that respect
  a reflexive and transitive relation respects it, whatever the outcome.
\<close>

definition eff_within :: "('s \<Rightarrow> 's \<Rightarrow> bool) \<Rightarrow> ('s, 'a) eff \<Rightarrow> bool" where
  "eff_within R m = (\<forall>s. R s (snd (m s)))"

lemma eff_withinD: "eff_within R m \<Longrightarrow> m s = (r, s') \<Longrightarrow> R s s'"
  by (metis eff_within_def snd_conv)

lemma eff_within_bind:
  assumes "transp R" and "eff_within R m" and "\<And>x. eff_within R (f x)"
  shows "eff_within R (eff_bind m f)"
  unfolding eff_within_def
proof
  fix s
  obtain r s' where m: "m s = (r, s')" by fastforce
  then have "R s s'" using assms(2) by (blast dest: eff_withinD)
  with assms(1,3) m show "R s (snd (eff_bind m f s))"
    by (cases r) (auto simp: eff_bind_def eff_within_def intro: transpE)
qed

lemma eff_within_pure [simp, intro]:
  "reflp R \<Longrightarrow> eff_within R (eff_return x)"
  "reflp R \<Longrightarrow> eff_within R (eff_fail e)"
  "reflp R \<Longrightarrow> eff_within R (eff_lift r)"
  "reflp R \<Longrightarrow> eff_within R (eff_gets g)"
  by (auto simp: eff_within_def eff_defs elim: reflpE)

text \<open>
  Triples: from a state where \<^verbatim>\<open>P\<close> holds, the effect returns a value \<^verbatim>\<open>x\<close> in a state where \<^verbatim>\<open>Q x\<close> holds,
  or fails in a state where \<^verbatim>\<open>F\<close> holds.
\<close>

definition eff_triple ::
    "('s \<Rightarrow> bool) \<Rightarrow> ('s, 'a) eff \<Rightarrow> ('a \<Rightarrow> 's \<Rightarrow> bool) \<Rightarrow> ('s \<Rightarrow> bool) \<Rightarrow> bool" where
  "eff_triple P m Q F =
     (\<forall>s r s'. P s \<longrightarrow> m s = (r, s') \<longrightarrow> (case r of Inl e \<Rightarrow> F s' | Inr x \<Rightarrow> Q x s'))"

named_theorems triple_intros \<open>rules for triples\<close>

lemma eff_tripleI:
  "(\<And>s x s'. P s \<Longrightarrow> m s = (Inr x, s') \<Longrightarrow> Q x s') \<Longrightarrow>
   (\<And>s e s'. P s \<Longrightarrow> m s = (Inl e, s') \<Longrightarrow> F s') \<Longrightarrow> eff_triple P m Q F"
  by (auto simp: eff_triple_def split: sum.splits)

lemma eff_triple_Inr: "eff_triple P m Q F \<Longrightarrow> P s \<Longrightarrow> m s = (Inr x, s') \<Longrightarrow> Q x s'"
  by (fastforce simp: eff_triple_def)

lemma eff_triple_Inl: "eff_triple P m Q F \<Longrightarrow> P s \<Longrightarrow> m s = (Inl e, s') \<Longrightarrow> F s'"
  by (fastforce simp: eff_triple_def)

lemma eff_triple_bind:
  assumes "eff_triple P m Q F" and "\<And>x. eff_triple (Q x) (f x) Q' F"
  shows "eff_triple P (eff_bind m f) Q' F"
proof (rule eff_tripleI)
  fix s y t assume P: "P s" and e: "eff_bind m f s = (Inr y, t)"
  then obtain x s' where "m s = (Inr x, s')" "f x s' = (Inr y, t)"
    by (auto simp: eff_bind_eq_Inr)
  then show "Q' y t" using eff_triple_Inr[OF assms(1) P] eff_triple_Inr[OF assms(2)] by blast
next
  fix s e t assume P: "P s" and b: "eff_bind m f s = (Inl e, t)"
  obtain r s' where m: "m s = (r, s')" by fastforce
  show "F t"
  proof (cases r)
    case (Inl e')
    with b m eff_triple_Inl[OF assms(1) P] show ?thesis by (simp add: eff_bind_def)
  next
    case (Inr x)
    with b m eff_triple_Inr[OF assms(1) P] eff_triple_Inl[OF assms(2)] show ?thesis
      by (simp add: eff_bind_def)
  qed
qed

lemma eff_triple_pre: "eff_triple P m Q F \<Longrightarrow> (\<And>s. P' s \<Longrightarrow> P s) \<Longrightarrow> eff_triple P' m Q F"
  by (auto simp: eff_triple_def)

lemma eff_triple_ex: "(\<And>y. eff_triple (P y) m Q F) \<Longrightarrow> eff_triple (\<lambda>s. \<exists>y. P y s) m Q F"
  by (auto simp: eff_triple_def)

lemma eff_triple_if: "(A \<Longrightarrow> eff_triple P m Q F) \<Longrightarrow> eff_triple (\<lambda>s. A \<and> P s) m Q F"
  by (auto simp: eff_triple_def)

lemma eff_triple_post:
  "eff_triple P m Q F \<Longrightarrow> (\<And>x s. Q x s \<Longrightarrow> Q' x s) \<Longrightarrow> eff_triple P m Q' F"
  by (intro eff_tripleI) (blast dest: eff_triple_Inr eff_triple_Inl)+

lemma eff_triple_snd:
  "eff_triple P m (\<lambda>_. F) F \<Longrightarrow> P s \<Longrightarrow> F (snd (m s))"
  by (cases "m s"; cases "fst (m s)") (auto dest: eff_triple_Inr eff_triple_Inl)

lemma eff_triple_pure:
  "(\<And>s. P s \<Longrightarrow> Q x s) \<Longrightarrow> eff_triple P (eff_return x) Q F"
  "(\<And>s. P s \<Longrightarrow> F s) \<Longrightarrow> eff_triple P (eff_fail e) Q F"
  "(\<And>s y. P s \<Longrightarrow> r = Inr y \<Longrightarrow> Q y s) \<Longrightarrow> (\<And>s. P s \<Longrightarrow> F s) \<Longrightarrow> eff_triple P (eff_lift r) Q F"
  "(\<And>s. P s \<Longrightarrow> Q (g s) s) \<Longrightarrow> eff_triple P (eff_gets g) Q F"
  by (auto simp: eff_triple_def eff_defs split: sum.splits)

lemma eff_triple_modify: "(\<And>s. P s \<Longrightarrow> Q () (h s)) \<Longrightarrow> eff_triple P (eff_modify h) Q F"
  by (auto simp: eff_triple_def eff_defs)

end
