(* ===== verification/Models.thy ===== *)
theory Models
  imports Errors
begin

text \<open>
  The persistent data of the server: the enumerations of \<^verbatim>\<open>src/persistence/enums.rs\<close> with their
  conversions from and to the gRPC enumerations of \<^verbatim>\<open>proto/meesign.proto\<close>, the rows of
  \<^verbatim>\<open>src/persistence/models.rs\<close> and the name validator of \<^verbatim>\<open>src/persistence/utils.rs\<close>.
\<close>

section \<open>Enumerations\<close>

text \<open>The enumerations of the database.\<close>

datatype protocol_type = Gg18 | ElGamal | Frost | Musig2

datatype task_type = TT_Group | TT_SignPdf | TT_SignChallenge | TT_Decrypt

datatype device_kind = User | Bot

datatype task_state = Created | Running_State | Finished_State | Failed_State

datatype key_type = KT_SignPdf | KT_SignChallenge | KT_Decrypt

text \<open>The enumerations of the gRPC interface, generated from \<^verbatim>\<open>proto/meesign.proto\<close>.\<close>

datatype proto_protocol_type = P_Gg18 | P_Elgamal | P_Frost | P_Musig2

datatype proto_key_type = PK_SignPdf | PK_SignChallenge | PK_Decrypt

datatype proto_task_type = PT_Group | PT_SignPdf | PT_SignChallenge | PT_Decrypt

datatype proto_device_kind = PD_User | PD_Bot

fun protocol_type_of_proto :: "proto_protocol_type \<Rightarrow> protocol_type" where
  "protocol_type_of_proto P_Gg18 = Gg18"
| "protocol_type_of_proto P_Elgamal = ElGamal"
| "protocol_type_of_proto P_Frost = Frost"
| "protocol_type_of_proto P_Musig2 = Musig2"

fun proto_of_protocol_type :: "protocol_type \<Rightarrow> proto_protocol_type" where
  "proto_of_protocol_type Gg18 = P_Gg18"
| "proto_of_protocol_type ElGamal = P_Elgamal"
| "proto_of_protocol_type Frost = P_Frost"
| "proto_of_protocol_type Musig2 = P_Musig2"

fun key_type_of_proto :: "proto_key_type \<Rightarrow> key_type" where
  "key_type_of_proto PK_SignPdf = KT_SignPdf"
| "key_type_of_proto PK_SignChallenge = KT_SignChallenge"
| "key_type_of_proto PK_Decrypt = KT_Decrypt"

fun proto_of_key_type :: "key_type \<Rightarrow> proto_key_type" where
  "proto_of_key_type KT_SignPdf = PK_SignPdf"
| "proto_of_key_type KT_SignChallenge = PK_SignChallenge"
| "proto_of_key_type KT_Decrypt = PK_Decrypt"

fun task_type_of_proto :: "proto_task_type \<Rightarrow> task_type" where
  "task_type_of_proto PT_Group = TT_Group"
| "task_type_of_proto PT_SignChallenge = TT_SignChallenge"
| "task_type_of_proto PT_SignPdf = TT_SignPdf"
| "task_type_of_proto PT_Decrypt = TT_Decrypt"

fun proto_of_task_type :: "task_type \<Rightarrow> proto_task_type" where
  "proto_of_task_type TT_Group = PT_Group"
| "proto_of_task_type TT_SignChallenge = PT_SignChallenge"
| "proto_of_task_type TT_SignPdf = PT_SignPdf"
| "proto_of_task_type TT_Decrypt = PT_Decrypt"

fun proto_of_device_kind :: "device_kind \<Rightarrow> proto_device_kind" where
  "proto_of_device_kind User = PD_User"
| "proto_of_device_kind Bot = PD_Bot"

text \<open>The discriminants \<^verbatim>\<open>as i32\<close> and \<^verbatim>\<open>into()\<close> give, from the enumerations of the proto file.\<close>

fun proto_protocol_number :: "proto_protocol_type \<Rightarrow> i32" where
  "proto_protocol_number P_Gg18 = 0"
| "proto_protocol_number P_Elgamal = 1"
| "proto_protocol_number P_Frost = 2"
| "proto_protocol_number P_Musig2 = 3"

fun proto_key_number :: "proto_key_type \<Rightarrow> i32" where
  "proto_key_number PK_SignPdf = 0"
| "proto_key_number PK_SignChallenge = 1"
| "proto_key_number PK_Decrypt = 2"

fun proto_task_type_number :: "proto_task_type \<Rightarrow> i32" where
  "proto_task_type_number PT_Group = 0"
| "proto_task_type_number PT_SignPdf = 1"
| "proto_task_type_number PT_SignChallenge = 2"
| "proto_task_type_number PT_Decrypt = 3"

fun proto_device_kind_number :: "proto_device_kind \<Rightarrow> i32" where
  "proto_device_kind_number PD_User = 0"
| "proto_device_kind_number PD_Bot = 1"

text \<open>\<^verbatim>\<open>protocol_type as i32\<close> on the database enumerations: declaration order.\<close>

fun protocol_type_number :: "protocol_type \<Rightarrow> i32" where
  "protocol_type_number Gg18 = 0"
| "protocol_type_number ElGamal = 1"
| "protocol_type_number Frost = 2"
| "protocol_type_number Musig2 = 3"

fun key_type_number :: "key_type \<Rightarrow> i32" where
  "key_type_number KT_SignPdf = 0"
| "key_type_number KT_SignChallenge = 1"
| "key_type_number KT_Decrypt = 2"

section \<open>Rows\<close>

record device =
  dev_id :: bytes
  dev_name :: string
  dev_kind :: device_kind
  dev_certificate :: bytes

definition device_identifier :: "device \<Rightarrow> bytes" where
  "device_identifier d = dev_id d"

record participant =
  part_device :: device
  part_shares :: u32

abbreviation part_id :: "participant \<Rightarrow> bytes" where
  "part_id p \<equiv> dev_id (part_device p)"

text \<open>A row of the table \<^verbatim>\<open>group\<close> (\<^verbatim>\<open>NewGroup\<close>), and the group the server works with: the row with its participants.\<close>

record group_row =
  grp_id :: bytes
  grp_name :: string
  grp_threshold :: i32
  grp_protocol :: protocol_type
  grp_key_type :: key_type
  grp_certificate :: "bytes option"
  grp_note :: "string option"

record group = group_row +
  grp_participant_ids_shares :: "(bytes \<times> u32) list"

record task_result_row =
  tr_task_id :: uuid
  tr_is_successful :: bool
  tr_data :: "bytes option"
  tr_error_message :: "string option"

text \<open>A row of the table \<^verbatim>\<open>task\<close> (\<^verbatim>\<open>NewTask\<close>), and the task as it is read: the row with its result.\<close>

record task_row =
  tm_id :: uuid
  tm_protocol_round :: i32
  tm_attempt_count :: i32
  tm_threshold :: i32
  tm_name :: string
  tm_task_data :: "bytes option"
  tm_preprocessed :: "bytes option"
  tm_request :: bytes
  tm_group_id :: "bytes option"
  tm_task_type :: task_type
  tm_task_state :: task_state
  tm_key_type :: key_type
  tm_protocol_type :: protocol_type
  tm_note :: "string option"
  tm_group_certificates_sent :: "bool option"

record task_model = task_row +
  tm_result :: "task_result_row option"

text \<open>
  \<^verbatim>\<open>TaskResult::try_into_result\<close>: the stored result as data or as a failure reason. The message of an
  inconsistent row goes on with the row's debug output, which is left out.
\<close>

definition try_into_result :: "task_result_row \<Rightarrow> persistence_error + (string + bytes)" where
  "try_into_result r =
     (if tr_is_successful r \<and> tr_data r \<noteq> None then Inr (Inr (the (tr_data r)))
      else if \<not> tr_is_successful r \<and> tr_error_message r \<noteq> None
        then Inr (Inl (the (tr_error_message r)))
      else Inl (DataInconsistencyError ''Inconsistent task result''))"

text \<open>\<^verbatim>\<open>NewTaskResult::from\<close>: the row written for a result.\<close>

fun new_task_result :: "string + bytes \<Rightarrow> uuid \<Rightarrow> task_result_row" where
  "new_task_result (Inr data) task_id =
     \<lparr>tr_task_id = task_id, tr_is_successful = True, tr_data = Some data, tr_error_message = None\<rparr>"
| "new_task_result (Inl error_message) task_id =
     \<lparr>tr_task_id = task_id, tr_is_successful = False, tr_data = None,
      tr_error_message = Some error_message\<rparr>"

section \<open>Names\<close>

definition MAX_NAME_LENGTH :: nat where
  "MAX_NAME_LENGTH = 256"

definition is_name_valid :: "string \<Rightarrow> bool" where
  "is_name_valid s = (chars_count s \<le> MAX_NAME_LENGTH \<and> \<not> any_control s \<and> s \<noteq> [])"

section \<open>Lemmas\<close>

lemma protocol_type_roundtrip [simp]:
  "protocol_type_of_proto (proto_of_protocol_type p) = p"
  "proto_of_protocol_type (protocol_type_of_proto q) = q"
  by (cases p; simp) (cases q; simp)

lemma key_type_roundtrip [simp]:
  "key_type_of_proto (proto_of_key_type k) = k"
  "proto_of_key_type (key_type_of_proto l) = l"
  by (cases k; simp) (cases l; simp)

lemma task_type_roundtrip [simp]:
  "task_type_of_proto (proto_of_task_type t) = t"
  "proto_of_task_type (task_type_of_proto u) = u"
  by (cases t; simp) (cases u; simp)

lemma try_into_result_new [simp]: "try_into_result (new_task_result r task_id) = Inr r"
  by (cases r) (auto simp: try_into_result_def)

end
