(* ===== verification/External.thy ===== *)
theory External
  imports Models
begin

text \<open>
  The code the server calls and that is not part of its repository: the \<^verbatim>\<open>meesign-crypto\<close> crate
  (its messages, its broadcast verification and the number of rounds of each protocol), the
  protobuf encoding, hexadecimal encoding, the clock, the random generators and the Java helper
  process. Each is a field of \<^verbatim>\<open>env\<close>, an argument of the definitions that use it; a call whose
  answer may differ from one time to the next is given the number of such calls made so far.
\<close>

section \<open>Messages of the crypto crate\<close>

text \<open>The protocol enumeration of \<^verbatim>\<open>meesign_crypto::proto\<close>, whose discriminants are the crate's.\<close>

datatype crypto_protocol_type = C_Gg18 | C_Elgamal | C_Frost | C_Musig2

record client_message =
  cm_protocol_type :: i32
  cm_unicasts :: "(u32, bytes) hashmap"
  cm_broadcast :: "bytes option"

record server_message =
  sm_protocol_type :: i32
  sm_unicasts :: "(u32, bytes) hashmap"
  sm_broadcasts :: "(u32, bytes) hashmap"

record protocol_group_init =
  pgi_protocol_type :: i32
  pgi_index :: u32
  pgi_parties :: u32
  pgi_threshold :: u32

record protocol_init =
  pi_protocol_type :: i32
  pi_indices :: "u32 list"
  pi_index :: u32
  pi_data :: bytes

section \<open>Requests stored with a task\<close>

record group_request =
  gr_name :: string
  gr_device_ids :: "bytes list"
  gr_threshold :: u32
  gr_protocol :: i32
  gr_key_type :: i32
  gr_note :: "string option"

record sign_request =
  sr_name :: string
  sr_group_id :: bytes
  sr_data :: bytes

record decrypt_request =
  dr_name :: string
  dr_group_id :: bytes
  dr_data :: bytes
  dr_data_type :: string

section \<open>The environment\<close>

text \<open>A helper process is known by a number.\<close>

type_synonym child = nat

record env =
  verify_broadcast :: "bytes \<Rightarrow> bytes \<Rightarrow> bytes option"
  crypto_protocol_number :: "crypto_protocol_type \<Rightarrow> i32"
  gg18_KEYGEN_ROUNDS :: u16
  gg18_SIGN_ROUNDS :: u16
  frost_KEYGEN_ROUNDS :: u16
  frost_SIGN_ROUNDS :: u16
  elgamal_KEYGEN_ROUNDS :: u16
  elgamal_DECRYPT_ROUNDS :: u16
  musig2_KEYGEN_ROUNDS :: u16
  musig2_SIGN_ROUNDS :: u16
  encode_server_message :: "server_message \<Rightarrow> bytes"
  encode_protocol_group_init :: "protocol_group_init \<Rightarrow> bytes"
  encode_protocol_init :: "protocol_init \<Rightarrow> bytes"
  encode_group_request :: "group_request \<Rightarrow> bytes"
  encode_sign_request :: "sign_request \<Rightarrow> bytes"
  encode_decrypt_request :: "decrypt_request \<Rightarrow> bytes"
  hex_encode :: "bytes \<Rightarrow> bytes"
  hex_decode :: "bytes \<Rightarrow> bytes option"
  cert_helper :: "nat \<Rightarrow> string \<Rightarrow> bytes \<Rightarrow> string + bytes"
  tempfile_new :: "nat \<Rightarrow> bool"
  tempfile_write :: "nat \<Rightarrow> bytes \<Rightarrow> bool"
  spawn_pdfhelper :: "nat \<Rightarrow> bytes \<Rightarrow> child option"
  helper_write_certificate :: "child \<Rightarrow> bytes \<Rightarrow> bool"
  helper_read_hash :: "child \<Rightarrow> bytes \<Rightarrow> bytes option"
  helper_write_signature :: "child \<Rightarrow> bytes \<Rightarrow> bool"
  helper_read_result :: "child \<Rightarrow> bytes \<Rightarrow> bytes option"
  helper_kill :: "child \<Rightarrow> bool"
  system_time :: "nat \<Rightarrow> u64"
  new_uuid :: "nat \<Rightarrow> uuid"
  uuid_display :: "uuid \<Rightarrow> string"
  choose_multiple :: "nat \<Rightarrow> device list \<Rightarrow> nat \<Rightarrow> device list"

text \<open>
  The part of the world the running tasks change: the number of calls to the environment made so
  far, and the static mutex \<^verbatim>\<open>PDF_HELPERS\<close> of \<^verbatim>\<open>src/tasks/sign_pdf.rs\<close>: its map of helper processes and
  whether a panic while it was held has poisoned it, so that every later \<^verbatim>\<open>lock().unwrap()\<close> panics.
\<close>

record world =
  w_calls :: nat
  w_pdf_helpers :: "uuid \<rightharpoonup> child"
  w_pdf_poisoned :: bool

definition next_call :: "world \<Rightarrow> nat \<times> world" where
  "next_call w = (w_calls w, w\<lparr>w_calls := Suc (w_calls w)\<rparr>)"

text \<open>
  What \<^verbatim>\<open>IteratorRandom::choose_multiple\<close> documents: it returns \<^verbatim>\<open>amount\<close> of the elements, or all
  of them when there are fewer, in an order of its own.
\<close>

definition choose_multiple_ok :: "env \<Rightarrow> bool" where
  "choose_multiple_ok E =
     (\<forall>n ds amount. mset (choose_multiple E n ds amount) \<subseteq># mset ds \<and>
        length (choose_multiple E n ds amount) = min amount (length ds))"

text \<open>
  A concrete environment, to show that what the statements assume of the environment can hold:
  broadcasts carry their content in the clear, every protocol has three rounds, helpers answer.
\<close>

definition sample_env :: env where
  "sample_env = \<lparr>
     verify_broadcast = (\<lambda>broadcast cert. if cert = [] then None else Some broadcast),
     crypto_protocol_number = (\<lambda>p. case p of C_Gg18 \<Rightarrow> 0 | C_Elgamal \<Rightarrow> 1 | C_Frost \<Rightarrow> 2 | C_Musig2 \<Rightarrow> 3),
     gg18_KEYGEN_ROUNDS = 3, gg18_SIGN_ROUNDS = 3, frost_KEYGEN_ROUNDS = 3, frost_SIGN_ROUNDS = 3,
     elgamal_KEYGEN_ROUNDS = 3, elgamal_DECRYPT_ROUNDS = 3, musig2_KEYGEN_ROUNDS = 3,
     musig2_SIGN_ROUNDS = 3,
     encode_server_message = (\<lambda>m. concat (map snd (sm_unicasts m)) @ concat (map snd (sm_broadcasts m))),
     encode_protocol_group_init = (\<lambda>m. [ucast (pgi_index m)]),
     encode_protocol_init = (\<lambda>m. ucast (pi_index m) # pi_data m),
     encode_group_request = (\<lambda>m. concat (gr_device_ids m)),
     encode_sign_request = sr_data,
     encode_decrypt_request = dr_data,
     hex_encode = (\<lambda>b. b @ b),
     hex_decode = Some,
     cert_helper = (\<lambda>n name key. Inr key),
     tempfile_new = (\<lambda>n. True),
     tempfile_write = (\<lambda>n data. True),
     spawn_pdfhelper = (\<lambda>n data. Some n),
     helper_write_certificate = (\<lambda>child cert. True),
     helper_read_hash = (\<lambda>child cert. Some (replicate 65 7)),
     helper_write_signature = (\<lambda>child s. True),
     helper_read_result = (\<lambda>child s. Some s),
     helper_kill = (\<lambda>child. True),
     system_time = (\<lambda>n. 1000),
     new_uuid = (\<lambda>n. replicate 16 (word_of_nat n)),
     uuid_display = map (\<lambda>b. char_of (unat b)),
     choose_multiple = (\<lambda>n ds amount. take amount ds)\<rparr>"

lemma sample_env_choose_ok: "choose_multiple_ok sample_env"
  by (auto simp: choose_multiple_ok_def sample_env_def)
    (metis append_take_drop_id mset_append mset_subset_eq_add_left)

end
