(* ===== verification/Proto.thy ===== *)
theory Proto
  imports External
begin

text \<open>
  The module \<^verbatim>\<open>proto\<close> of \<^verbatim>\<open>src/main.rs\<close>: the gRPC messages a client receives, how each phase of a
  task is presented in one, the conversion of protocol types to the crypto crate's and the offset
  of the protocol indices.
\<close>

section \<open>Protocol types\<close>

fun proto_of_crypto :: "crypto_protocol_type \<Rightarrow> proto_protocol_type" where
  "proto_of_crypto C_Gg18 = P_Gg18"
| "proto_of_crypto C_Elgamal = P_Elgamal"
| "proto_of_crypto C_Frost = P_Frost"
| "proto_of_crypto C_Musig2 = P_Musig2"

fun crypto_of_proto :: "proto_protocol_type \<Rightarrow> crypto_protocol_type" where
  "crypto_of_proto P_Gg18 = C_Gg18"
| "crypto_of_proto P_Elgamal = C_Elgamal"
| "crypto_of_proto P_Frost = C_Frost"
| "crypto_of_proto P_Musig2 = C_Musig2"

fun index_offset :: "proto_protocol_type \<Rightarrow> u32" where
  "index_offset P_Gg18 = 0"
| "index_offset P_Elgamal = 0"
| "index_offset P_Musig2 = 0"
| "index_offset P_Frost = 1"

lemma index_offset_cases: "index_offset p = 0 \<or> index_offset p = 1"
  by (cases p) auto

section \<open>Tasks\<close>

datatype proto_task_state = PS_Created | PS_Running | PS_Finished | PS_Failed

record proto_task =
  pt_id :: bytes
  pt_type :: i32
  pt_state :: proto_task_state
  pt_round :: u32
  pt_attempt :: u32
  pt_accept :: u32
  pt_reject :: u32
  pt_data :: "bytes list"
  pt_request :: "bytes option"

text \<open>\<^verbatim>\<open>u16::MAX as u32\<close> and \<^verbatim>\<open>u32::MAX\<close>.\<close>

abbreviation u16_max :: u32 where
  "u16_max \<equiv> 65535"

abbreviation u32_max :: u32 where
  "u32_max \<equiv> 4294967295"

definition proto_task_created ::
    "bytes \<Rightarrow> i32 \<Rightarrow> u32 \<Rightarrow> u32 \<Rightarrow> bytes option \<Rightarrow> u32 \<Rightarrow> proto_task" where
  "proto_task_created task_id type accept reject request attempt =
     \<lparr>pt_id = task_id, pt_type = type, pt_state = PS_Created, pt_round = 0, pt_attempt = attempt,
      pt_accept = accept, pt_reject = reject, pt_data = [], pt_request = request\<rparr>"

definition proto_task_declined ::
    "bytes \<Rightarrow> i32 \<Rightarrow> u32 \<Rightarrow> u32 \<Rightarrow> bytes option \<Rightarrow> u32 \<Rightarrow> proto_task" where
  "proto_task_declined task_id type accept reject request attempt =
     \<lparr>pt_id = task_id, pt_type = type, pt_state = PS_Failed, pt_round = 0, pt_attempt = attempt,
      pt_accept = accept, pt_reject = reject, pt_data = [into_bytes ''Task declined''],
      pt_request = request\<rparr>"

definition proto_task_running ::
    "bytes \<Rightarrow> i32 \<Rightarrow> u32 \<Rightarrow> bytes list \<Rightarrow> bytes option \<Rightarrow> u32 \<Rightarrow> proto_task" where
  "proto_task_running task_id type round data request attempt =
     \<lparr>pt_id = task_id, pt_type = type, pt_state = PS_Running, pt_round = round, pt_attempt = attempt,
      pt_accept = u16_max, pt_reject = u16_max, pt_data = data, pt_request = request\<rparr>"

definition proto_task_finished ::
    "bytes \<Rightarrow> i32 \<Rightarrow> bytes \<Rightarrow> bytes option \<Rightarrow> u32 \<Rightarrow> proto_task" where
  "proto_task_finished task_id type result request attempt =
     \<lparr>pt_id = task_id, pt_type = type, pt_state = PS_Finished, pt_round = u16_max,
      pt_attempt = attempt, pt_accept = u16_max, pt_reject = u16_max, pt_data = [result],
      pt_request = request\<rparr>"

definition proto_task_failed ::
    "bytes \<Rightarrow> i32 \<Rightarrow> string \<Rightarrow> bytes option \<Rightarrow> u32 \<Rightarrow> proto_task" where
  "proto_task_failed task_id type reason request attempt =
     \<lparr>pt_id = task_id, pt_type = type, pt_state = PS_Failed, pt_round = u32_max, pt_attempt = attempt,
      pt_accept = u32_max, pt_reject = 0, pt_data = [into_bytes reason], pt_request = request\<rparr>"

section \<open>Groups\<close>

record proto_group =
  pg_identifier :: bytes
  pg_name :: string
  pg_threshold :: u32
  pg_protocol :: i32
  pg_key_type :: i32
  pg_device_ids :: "bytes list"
  pg_note :: "string option"

definition proto_group_from_model :: "group \<Rightarrow> proto_group" where
  "proto_group_from_model model =
     (let protocol = proto_of_protocol_type (grp_protocol model);
          key_type = proto_of_key_type (grp_key_type model);
          device_ids = concat (map (\<lambda>(device_id, shares). replicate (unat shares) device_id)
            (grp_participant_ids_shares model))
      in \<lparr>pg_identifier = grp_id model, pg_name = grp_name model,
          pg_threshold = grp_threshold model, pg_protocol = proto_protocol_number protocol,
          pg_key_type = proto_key_number key_type, pg_device_ids = device_ids,
          pg_note = grp_note model\<rparr>)"

lemma crypto_proto_roundtrip [simp]:
  "proto_of_crypto (crypto_of_proto p) = p"
  "crypto_of_proto (proto_of_crypto c) = c"
  by (cases p; simp) (cases c; simp)

end
