(* ===== verification/Communicator.thy ===== *)
theory Communicator
  imports Proto
begin

text \<open>
  The communicator of \<^verbatim>\<open>src/communicator.rs\<close>: which shares take part in a protocol run, the messages
  of the current round and the messages waiting for each share.
\<close>

section \<open>State and operations\<close>

record communicator =
  comm_threshold :: u32
  comm_active_shares :: "(u32, device) hashmap"
  comm_input :: "(u32, client_message) hashmap"
  comm_output :: "(u32, bytes) hashmap"
  comm_protocol_type :: proto_protocol_type

definition communicator_new ::
    "u32 \<Rightarrow> proto_protocol_type \<Rightarrow> (u32, device) hashmap \<Rightarrow> communicator res" where
  "communicator_new threshold protocol_type active_shares =
     (if \<not> length active_shares > 1 then Inl Panic
      else if \<not> threshold \<le> word_of_nat (length active_shares) then Inl Panic
      else Inr \<lparr>comm_threshold = threshold, comm_active_shares = active_shares, comm_input = [],
        comm_output = [], comm_protocol_type = protocol_type\<rparr>)"

definition clear_input :: "communicator \<Rightarrow> communicator" where
  "clear_input c = c\<lparr>comm_input := []\<rparr>"

definition get_protocol_indices :: "communicator \<Rightarrow> u32 list" where
  "get_protocol_indices c =
     sort (map (\<lambda>(idx, _). idx + index_offset (comm_protocol_type c)) (comm_active_shares c))"

definition identifier_to_indices :: "communicator \<Rightarrow> bytes \<Rightarrow> u32 list" where
  "identifier_to_indices c device_id =
     sort (map (\<lambda>(idx, _). idx + index_offset (comm_protocol_type c))
       (filter (\<lambda>(_, device). dev_id device = device_id) (comm_active_shares c)))"

text \<open>
  The assertion of \<^verbatim>\<open>receive_messages\<close>. At threshold 0 the subtraction of the source underflows:
  no number of unicasts equals the wrapped value, so the assertion fails there too.
\<close>

definition message_well_formed :: "communicator \<Rightarrow> client_message \<Rightarrow> bool" where
  "message_well_formed c msg =
     (cm_broadcast msg \<noteq> None \<or> int (length (cm_unicasts msg)) = uint (comm_threshold c) - 1)"

definition receive_messages ::
    "communicator \<Rightarrow> bytes \<Rightarrow> client_message list \<Rightarrow> bool res \<times> communicator" where
  "receive_messages c sender_id messages =
     (let sender_indices = identifier_to_indices c sender_id
      in if messages = [] \<or> length sender_indices \<noteq> length messages then (Inr False, c)
         else if \<not> list_all (message_well_formed c) messages then (Inl Panic, c)
         else (Inr True,
           c\<lparr>comm_input := hm_extend (comm_input c) (zip sender_indices messages)\<rparr>))"

definition waiting_for :: "communicator \<Rightarrow> bytes \<Rightarrow> bool" where
  "waiting_for c device_id =
     list_ex (\<lambda>idx. map_of (comm_input c) idx = None) (identifier_to_indices c device_id)"

text \<open>The loop of \<^verbatim>\<open>relay\<close> over the incoming messages, for the share \<^verbatim>\<open>idx\<close>.\<close>

fun relay_loop :: "u32 \<Rightarrow> (u32 \<times> client_message) list \<Rightarrow> (u32, bytes) hashmap \<Rightarrow>
    (u32, bytes) hashmap \<Rightarrow> (u32, bytes) hashmap \<times> (u32, bytes) hashmap" where
  "relay_loop idx [] unicasts broadcasts = (unicasts, broadcasts)"
| "relay_loop idx ((sender, msg) # rest) unicasts broadcasts =
     (if sender = idx then relay_loop idx rest unicasts broadcasts
      else
        let broadcasts' = (case cm_broadcast msg of None \<Rightarrow> broadcasts
              | Some broadcast \<Rightarrow> hm_insert sender broadcast broadcasts);
            unicasts' = (case map_of (cm_unicasts msg) idx of None \<Rightarrow> unicasts
              | Some unicast \<Rightarrow> hm_insert sender unicast unicasts)
        in relay_loop idx rest unicasts' broadcasts')"

definition relay_message :: "env \<Rightarrow> communicator \<Rightarrow> u32 \<Rightarrow> server_message" where
  "relay_message E c idx =
     (case relay_loop idx (comm_input c) [] [] of (unicasts, broadcasts) \<Rightarrow>
        \<lparr>sm_protocol_type = crypto_protocol_number E (crypto_of_proto (comm_protocol_type c)),
         sm_unicasts = unicasts, sm_broadcasts = broadcasts\<rparr>)"

definition relay :: "env \<Rightarrow> communicator \<Rightarrow> communicator" where
  "relay E c =
     clear_input (c\<lparr>comm_output := hm_collect (map (\<lambda>idx.
       (idx, encode_server_message E (relay_message E c idx))) (get_protocol_indices c))\<rparr>)"

definition send_all :: "communicator \<Rightarrow> (u32 \<Rightarrow> bytes) \<Rightarrow> communicator" where
  "send_all c f =
     clear_input (c\<lparr>comm_output := hm_collect (map (\<lambda>idx. (idx, f idx)) (get_protocol_indices c))\<rparr>)"

definition round_received :: "communicator \<Rightarrow> bool" where
  "round_received c = (length (comm_input c) = length (comm_active_shares c))"

definition get_messages :: "communicator \<Rightarrow> bytes \<Rightarrow> bytes list" where
  "get_messages c device_id =
     map (\<lambda>idx. case map_of (comm_output c) idx of None \<Rightarrow> [] | Some m \<Rightarrow> m)
       (identifier_to_indices c device_id)"

text \<open>
  The loop of \<^verbatim>\<open>get_final_message\<close> over the incoming messages. It panics on a sender with no active
  share, on a message with no broadcast and on two verified messages that differ; a broadcast that
  does not verify ends it with \<^verbatim>\<open>None\<close>.
\<close>

fun final_message_loop :: "env \<Rightarrow> communicator \<Rightarrow> (u32 \<times> client_message) list \<Rightarrow> bytes option \<Rightarrow>
    bytes option res" where
  "final_message_loop E c [] final_message = Inr final_message"
| "final_message_loop E c ((sender, msg) # rest) final_message =
     (case map_of (comm_active_shares c) (sender - index_offset (comm_protocol_type c)) of
        None \<Rightarrow> Inl Panic
      | Some device \<Rightarrow>
          (case cm_broadcast msg of
             None \<Rightarrow> Inl Panic
           | Some broadcast \<Rightarrow>
               (case verify_broadcast E broadcast (dev_certificate device) of
                  None \<Rightarrow> Inr None
                | Some m \<Rightarrow>
                    if final_message \<noteq> None \<and> final_message \<noteq> Some m then Inl Panic
                    else final_message_loop E c rest (Some m))))"

definition get_final_message :: "env \<Rightarrow> communicator \<Rightarrow> bytes option res" where
  "get_final_message E c =
     (if comm_input c = [] then Inr None else final_message_loop E c (comm_input c) None)"

section \<open>Invariant\<close>

text \<open>
  What holds between the fields of a communicator: its maps have distinct keys, messages come from
  and go to active shares only, there are at least two active shares and not more are required
  than there are.
\<close>

definition comm_inv :: "communicator \<Rightarrow> bool" where
  "comm_inv c =
     (hm_wf (comm_active_shares c) \<and> hm_wf (comm_input c) \<and> hm_wf (comm_output c) \<and>
      hm_keys (comm_input c) \<subseteq> set (get_protocol_indices c) \<and>
      hm_keys (comm_output c) \<subseteq> set (get_protocol_indices c) \<and>
      1 < length (comm_active_shares c) \<and>
      unat (comm_threshold c) \<le> length (comm_active_shares c))"

lemma comm_invD:
  assumes "comm_inv c"
  shows "hm_wf (comm_active_shares c)" "hm_wf (comm_input c)" "hm_wf (comm_output c)"
    "hm_keys (comm_input c) \<subseteq> set (get_protocol_indices c)"
    "hm_keys (comm_output c) \<subseteq> set (get_protocol_indices c)"
    "1 < length (comm_active_shares c)"
    "unat (comm_threshold c) \<le> length (comm_active_shares c)"
  using assms by (simp_all add: comm_inv_def)

subsection \<open>Indices\<close>

lemma set_get_protocol_indices:
  "set (get_protocol_indices c) =
     (\<lambda>i. i + index_offset (comm_protocol_type c)) ` hm_keys (comm_active_shares c)"
  by (force simp: get_protocol_indices_def)

lemma length_get_protocol_indices [simp]:
  "length (get_protocol_indices c) = length (comm_active_shares c)"
  by (simp add: get_protocol_indices_def)

lemma distinct_shifted:
  "hm_wf m \<Longrightarrow> distinct (map (\<lambda>(i, _). i + (k :: 'a::len word)) m)"
  by (induction m) (force simp: image_iff)+

lemma distinct_get_protocol_indices [simp]:
  "hm_wf (comm_active_shares c) \<Longrightarrow> distinct (get_protocol_indices c)"
  by (simp add: get_protocol_indices_def distinct_shifted)

lemma hm_wf_filter: "hm_wf m \<Longrightarrow> hm_wf (filter P m)"
  by (induction m) auto

lemma distinct_identifier_to_indices [simp]:
  "hm_wf (comm_active_shares c) \<Longrightarrow> distinct (identifier_to_indices c d)"
  by (simp add: identifier_to_indices_def distinct_shifted hm_wf_filter)

lemma set_identifier_to_indices:
  "set (identifier_to_indices c d) =
     {i + index_offset (comm_protocol_type c) | i dev.
        (i, dev) \<in> set (comm_active_shares c) \<and> dev_id dev = d}"
  by (force simp: identifier_to_indices_def)

lemma identifier_to_indices_subset:
  "set (identifier_to_indices c d) \<subseteq> set (get_protocol_indices c)"
  by (force simp: set_identifier_to_indices set_get_protocol_indices)

lemma get_protocol_indices_covered:
  "i \<in> set (get_protocol_indices c) \<Longrightarrow> \<exists>d. i \<in> set (identifier_to_indices c d)"
  by (force simp: set_identifier_to_indices set_get_protocol_indices)

lemma identifier_to_indices_disjoint:
  assumes "hm_wf (comm_active_shares c)" "d \<noteq> e"
  shows "set (identifier_to_indices c d) \<inter> set (identifier_to_indices c e) = {}"
proof -
  have False if "(i, dev) \<in> set (comm_active_shares c)" "(i, dev') \<in> set (comm_active_shares c)"
    "dev_id dev \<noteq> dev_id dev'" for i dev dev'
    using assms(1) that by (metis eq_key_imp_eq_value)
  then show ?thesis
    using assms(2) by (auto simp: set_identifier_to_indices)
qed

text \<open>Both index lists depend on the active shares only as a map, never on its iteration order.\<close>

lemma get_protocol_indices_order:
  assumes "mset a = mset (comm_active_shares c)"
  shows "get_protocol_indices (c\<lparr>comm_active_shares := a\<rparr>) = get_protocol_indices c"
  using assms by (auto simp: get_protocol_indices_def intro!: sort_eqI)

lemma identifier_to_indices_order:
  assumes "mset a = mset (comm_active_shares c)"
  shows "identifier_to_indices (c\<lparr>comm_active_shares := a\<rparr>) d = identifier_to_indices c d"
  using assms by (auto simp: identifier_to_indices_def intro!: sort_eqI)

lemma get_protocol_indices_frame [simp]:
  "get_protocol_indices (c\<lparr>comm_input := x\<rparr>) = get_protocol_indices c"
  "get_protocol_indices (c\<lparr>comm_output := y\<rparr>) = get_protocol_indices c"
  by (simp_all add: get_protocol_indices_def)

lemma identifier_to_indices_frame [simp]:
  "identifier_to_indices (c\<lparr>comm_input := x\<rparr>) d = identifier_to_indices c d"
  "identifier_to_indices (c\<lparr>comm_output := y\<rparr>) d = identifier_to_indices c d"
  by (simp_all add: identifier_to_indices_def)

subsection \<open>The invariant is kept\<close>

lemma communicator_new_cases:
  "communicator_new threshold protocol_type active_shares = Inr c \<longleftrightarrow>
     1 < length active_shares \<and> threshold \<le> word_of_nat (length active_shares) \<and>
     c = \<lparr>comm_threshold = threshold, comm_active_shares = active_shares, comm_input = [],
       comm_output = [], comm_protocol_type = protocol_type\<rparr>"
  by (auto simp: communicator_new_def)

lemma unat_le_length_of_word:
  "(w :: u32) \<le> word_of_nat n \<Longrightarrow> unat w \<le> n"
  by (metis le_trans mod_less_eq_dividend unat_of_nat word_le_nat_alt)

lemma comm_inv_new:
  assumes "communicator_new threshold protocol_type active_shares = Inr c"
    and "hm_wf active_shares"
  shows "comm_inv c"
  using assms by (auto simp: communicator_new_cases comm_inv_def unat_le_length_of_word)

lemma comm_inv_clear_input [simp]: "comm_inv c \<Longrightarrow> comm_inv (clear_input c)"
  by (simp add: comm_inv_def clear_input_def)

lemma clear_input_fields [simp]:
  "comm_input (clear_input c) = []"
  "comm_output (clear_input c) = comm_output c"
  "comm_active_shares (clear_input c) = comm_active_shares c"
  "comm_threshold (clear_input c) = comm_threshold c"
  "comm_protocol_type (clear_input c) = comm_protocol_type c"
  "get_protocol_indices (clear_input c) = get_protocol_indices c"
  "identifier_to_indices (clear_input c) d = identifier_to_indices c d"
  by (simp_all add: clear_input_def)

lemma send_all_fields [simp]:
  "comm_input (send_all c f) = []"
  "comm_active_shares (send_all c f) = comm_active_shares c"
  "comm_threshold (send_all c f) = comm_threshold c"
  "comm_protocol_type (send_all c f) = comm_protocol_type c"
  "get_protocol_indices (send_all c f) = get_protocol_indices c"
  "identifier_to_indices (send_all c f) d = identifier_to_indices c d"
  by (simp_all add: send_all_def)

lemma map_fst_pairs [simp]: "map fst (map (\<lambda>x. (x, f x)) xs) = xs"
  by (induction xs) auto

lemma send_all_output:
  assumes "hm_wf (comm_active_shares c)"
  shows "comm_output (send_all c f) = map (\<lambda>idx. (idx, f idx)) (get_protocol_indices c)"
  using assms by (simp add: send_all_def del: map_map)

lemma relay_is_send_all:
  "relay E c = send_all c (\<lambda>idx. encode_server_message E (relay_message E c idx))"
  by (simp add: relay_def send_all_def)

lemma comm_inv_send_all [simp]: "comm_inv c \<Longrightarrow> comm_inv (send_all c f)"
  unfolding comm_inv_def by (simp add: send_all_output image_image del: map_map)

lemma comm_inv_relay [simp]: "comm_inv c \<Longrightarrow> comm_inv (relay E c)"
  by (simp add: relay_is_send_all)

lemma relay_fields [simp]:
  "comm_input (relay E c) = []"
  "comm_active_shares (relay E c) = comm_active_shares c"
  "comm_threshold (relay E c) = comm_threshold c"
  "comm_protocol_type (relay E c) = comm_protocol_type c"
  "get_protocol_indices (relay E c) = get_protocol_indices c"
  "identifier_to_indices (relay E c) d = identifier_to_indices c d"
  by (simp_all add: relay_is_send_all)

lemma receive_messages_fields:
  assumes "receive_messages c d ms = (r, c')"
  shows "comm_active_shares c' = comm_active_shares c" "comm_output c' = comm_output c"
    "comm_threshold c' = comm_threshold c" "comm_protocol_type c' = comm_protocol_type c"
    "get_protocol_indices c' = get_protocol_indices c"
    "identifier_to_indices c' e = identifier_to_indices c e"
  using assms by (auto simp: receive_messages_def Let_def split: if_splits)

lemma receive_messages_TrueD:
  assumes "receive_messages c d ms = (Inr True, c')"
  shows "ms \<noteq> []" "length (identifier_to_indices c d) = length ms"
    "list_all (message_well_formed c) ms"
    "c' = c\<lparr>comm_input := hm_extend (comm_input c) (zip (identifier_to_indices c d) ms)\<rparr>"
  using assms by (auto simp: receive_messages_def Let_def split: if_splits)

lemma receive_messages_not_TrueD:
  "receive_messages c d ms = (r, c') \<Longrightarrow> r \<noteq> Inr True \<Longrightarrow> c' = c"
  by (auto simp: receive_messages_def Let_def split: if_splits)

lemma set_zip_fst: "fst ` set (zip xs ys) \<subseteq> set xs"
  by (auto dest: set_zip_leftD)

lemma comm_inv_receive:
  assumes "comm_inv c" and "receive_messages c d ms = (r, c')"
  shows "comm_inv c'"
proof (cases "r = Inr True")
  case True
  with assms(2) have c': "c' = c\<lparr>comm_input :=
      hm_extend (comm_input c) (zip (identifier_to_indices c d) ms)\<rparr>"
    by (auto dest: receive_messages_TrueD)
  have "fst ` set (zip (identifier_to_indices c d) ms) \<subseteq> set (get_protocol_indices c)"
    using set_zip_fst identifier_to_indices_subset by (rule subset_trans)
  then show ?thesis
    using assms(1) by (simp add: c' comm_inv_def)
next
  case False
  with assms show ?thesis
    using receive_messages_not_TrueD by blast
qed

section \<open>Receiving a round\<close>

lemma waiting_for_iff:
  "waiting_for c d \<longleftrightarrow> \<not> set (identifier_to_indices c d) \<subseteq> hm_keys (comm_input c)"
  by (auto simp: waiting_for_def list_ex_iff map_of_eq_None_iff)

lemma round_received_iff_keys:
  assumes "comm_inv c"
  shows "round_received c \<longleftrightarrow> hm_keys (comm_input c) = set (get_protocol_indices c)"
proof -
  have "length (comm_input c) = card (hm_keys (comm_input c))"
    using assms by (auto dest: comm_invD intro: hm_wf_length)
  moreover have "length (comm_active_shares c) = card (set (get_protocol_indices c))"
    using assms by (simp add: comm_invD distinct_card)
  ultimately show ?thesis
    using assms by (auto simp: round_received_def dest: comm_invD card_subset_eq[rotated])
qed

lemma round_received_iff_not_waiting:
  assumes "comm_inv c"
  shows "round_received c \<longleftrightarrow> (\<forall>d. \<not> waiting_for c d)"
proof -
  have "set (get_protocol_indices c) = (\<Union>d. set (identifier_to_indices c d))"
    using identifier_to_indices_subset get_protocol_indices_covered by fast
  then show ?thesis
    using comm_invD(4)[OF assms] unfolding round_received_iff_keys[OF assms] waiting_for_iff by auto
qed

lemma keys_receive:
  assumes "receive_messages c d ms = (Inr True, c')"
  shows "hm_keys (comm_input c') = hm_keys (comm_input c) \<union> set (identifier_to_indices c d)"
proof -
  note r = receive_messages_TrueD[OF assms]
  have "map fst (zip (identifier_to_indices c d) ms) = identifier_to_indices c d"
    using r(2) by (rule map_fst_zip)
  then have "fst ` set (zip (identifier_to_indices c d) ms) = set (identifier_to_indices c d)"
    by (metis list.set_map)
  then show ?thesis by (simp add: r(4))
qed

lemma waiting_for_receive:
  assumes "comm_inv c" and "receive_messages c d ms = (Inr True, c')"
  shows "waiting_for c' e \<longleftrightarrow> e \<noteq> d \<and> waiting_for c e"
proof (cases "e = d")
  case False
  then have "set (identifier_to_indices c e) \<inter> set (identifier_to_indices c d) = {}"
    using assms(1) by (blast dest: comm_invD(1) identifier_to_indices_disjoint)
  with False show ?thesis
    by (auto simp: waiting_for_iff keys_receive[OF assms(2)] receive_messages_fields(6)[OF assms(2)])
qed (simp add: waiting_for_iff keys_receive[OF assms(2)] receive_messages_fields(6)[OF assms(2)])

lemma receive_messages_stored:
  assumes "comm_inv c" and "receive_messages c d ms = (Inr True, c')" and "i < length ms"
  shows "map_of (comm_input c') (identifier_to_indices c d ! i) = Some (ms ! i)"
proof -
  note r = receive_messages_TrueD[OF assms(2)]
  let ?kvs = "zip (identifier_to_indices c d) ms"
  have d: "distinct (map fst ?kvs)"
    using assms(1) r(2) by (simp add: comm_invD)
  have "(identifier_to_indices c d ! i, ms ! i) \<in> set ?kvs"
    using assms(3) r(2) by (metis length_zip min.idem nth_mem nth_zip)
  with d have "map_of ?kvs (identifier_to_indices c d ! i) = Some (ms ! i)"
    by (rule map_of_is_SomeI)
  then show ?thesis
    by (simp add: r(4) map_of_hm_extend[OF d])
qed

section \<open>Relaying a round\<close>

lemma relay_loop_unicasts:
  assumes "hm_wf input" and "hm_keys input \<inter> hm_keys u = {}"
  shows "map_of (fst (relay_loop idx input u b)) s =
    (case map_of u s of Some x \<Rightarrow> Some x
     | None \<Rightarrow> if s = idx then None
         else Option.bind (map_of input s) (\<lambda>msg. map_of (cm_unicasts msg) idx))"
  using assms
proof (induction idx input u b rule: relay_loop.induct)
  case (2 idx sender msg rest u b)
  let ?u = "case map_of (cm_unicasts msg) idx of None \<Rightarrow> u | Some x \<Rightarrow> hm_insert sender x u"
  have fresh: "sender \<notin> hm_keys rest" "sender \<notin> hm_keys u" "hm_keys rest \<inter> hm_keys u = {}"
    using 2(3,4) by auto
  then have none: "map_of rest sender = None" "map_of u sender = None"
    by (simp_all add: map_of_eq_None_iff)
  show ?case
  proof (cases "sender = idx")
    case True
    then have "map_of (fst (relay_loop idx rest u b)) s =
      (case map_of u s of Some x \<Rightarrow> Some x
       | None \<Rightarrow> if s = idx then None
         else Option.bind (map_of rest s) (\<lambda>msg. map_of (cm_unicasts msg) idx))"
      using 2(1)[OF True] 2(3) fresh by simp
    with True show ?thesis
      by (simp split: option.splits)
  next
    case False
    have "hm_keys rest \<inter> hm_keys ?u = {}"
      using fresh by (auto split: option.splits)
    then have IH: "map_of (fst (relay_loop idx rest ?u b')) s =
      (case map_of ?u s of Some x \<Rightarrow> Some x
       | None \<Rightarrow> if s = idx then None
         else Option.bind (map_of rest s) (\<lambda>msg. map_of (cm_unicasts msg) idx))"
      if "b' = (case cm_broadcast msg of None \<Rightarrow> b | Some x \<Rightarrow> hm_insert sender x b)" for b'
      using 2(2)[OF False that refl] 2(3) by simp
    show ?thesis
      using False none by (auto simp: IH Let_def split: option.splits)
  qed
qed (simp split: option.splits)

lemma relay_loop_broadcasts:
  assumes "hm_wf input" and "hm_keys input \<inter> hm_keys b = {}"
  shows "map_of (snd (relay_loop idx input u b)) s =
    (case map_of b s of Some x \<Rightarrow> Some x
     | None \<Rightarrow> if s = idx then None else Option.bind (map_of input s) cm_broadcast)"
  using assms
proof (induction idx input u b rule: relay_loop.induct)
  case (2 idx sender msg rest u b)
  let ?b = "case cm_broadcast msg of None \<Rightarrow> b | Some x \<Rightarrow> hm_insert sender x b"
  have fresh: "sender \<notin> hm_keys rest" "sender \<notin> hm_keys b" "hm_keys rest \<inter> hm_keys b = {}"
    using 2(3,4) by auto
  then have none: "map_of rest sender = None" "map_of b sender = None"
    by (simp_all add: map_of_eq_None_iff)
  show ?case
  proof (cases "sender = idx")
    case True
    then have "map_of (snd (relay_loop idx rest u b)) s =
      (case map_of b s of Some x \<Rightarrow> Some x
       | None \<Rightarrow> if s = idx then None else Option.bind (map_of rest s) cm_broadcast)"
      using 2(1)[OF True] 2(3) fresh by simp
    with True show ?thesis
      by (simp split: option.splits)
  next
    case False
    have "hm_keys rest \<inter> hm_keys ?b = {}"
      using fresh by (auto split: option.splits)
    then have IH: "map_of (snd (relay_loop idx rest u' ?b)) s =
      (case map_of ?b s of Some x \<Rightarrow> Some x
       | None \<Rightarrow> if s = idx then None else Option.bind (map_of rest s) cm_broadcast)"
      if "u' = (case map_of (cm_unicasts msg) idx of None \<Rightarrow> u | Some x \<Rightarrow> hm_insert sender x u)" for u'
      using 2(2)[OF False refl that] 2(3) by simp
    show ?thesis
      using False none by (auto simp: IH Let_def split: option.splits)
  qed
qed (simp split: option.splits)

lemma relay_message_unicasts:
  assumes "comm_inv c"
  shows "map_of (sm_unicasts (relay_message E c idx)) s =
    (if s = idx then None
     else Option.bind (map_of (comm_input c) s) (\<lambda>msg. map_of (cm_unicasts msg) idx))"
  using relay_loop_unicasts[OF comm_invD(2)[OF assms], of "[]" idx "[]" s]
  by (cases "relay_loop idx (comm_input c) [] []") (simp add: relay_message_def)

lemma relay_message_broadcasts:
  assumes "comm_inv c"
  shows "map_of (sm_broadcasts (relay_message E c idx)) s =
    (if s = idx then None else Option.bind (map_of (comm_input c) s) cm_broadcast)"
  using relay_loop_broadcasts[OF comm_invD(2)[OF assms], of "[]" idx "[]" s]
  by (cases "relay_loop idx (comm_input c) [] []") (simp add: relay_message_def)

lemma map_of_pairs: "map_of (map (\<lambda>x. (x, f x)) xs) x = (if x \<in> set xs then Some (f x) else None)"
  by (induction xs) auto

lemma get_messages_send_all:
  assumes "hm_wf (comm_active_shares c)"
  shows "get_messages (send_all c f) d = map f (identifier_to_indices c d)"
  using identifier_to_indices_subset[of c d]
  by (auto simp: get_messages_def send_all_output[OF assms] map_of_pairs subset_iff)

section \<open>The final message\<close>

text \<open>What a share's final message says once its broadcast is verified against its device.\<close>

definition verified :: "env \<Rightarrow> communicator \<Rightarrow> u32 \<Rightarrow> client_message \<Rightarrow> bytes option" where
  "verified E c sender msg =
     Option.bind (map_of (comm_active_shares c) (sender - index_offset (comm_protocol_type c)))
       (\<lambda>device. Option.bind (cm_broadcast msg)
         (\<lambda>broadcast. verify_broadcast E broadcast (dev_certificate device)))"

lemma final_message_loop_Some_iff:
  "final_message_loop E c msgs prev = Inr (Some m) \<longleftrightarrow>
     (\<forall>(s, msg) \<in> set msgs. verified E c s msg = Some m) \<and>
     (prev = Some m \<or> prev = None \<and> msgs \<noteq> [])"
proof (induction E c msgs prev rule: final_message_loop.induct)
  case (2 E c sender msg rest prev)
  then show ?case
    by (auto simp: verified_def split: option.splits)
qed auto

lemma final_message_loop_not_panic:
  assumes "\<And>s msg. (s, msg) \<in> set msgs \<Longrightarrow>
      s - index_offset (comm_protocol_type c) \<in> hm_keys (comm_active_shares c) \<and> cm_broadcast msg \<noteq> None"
    and "\<And>s msg m. (s, msg) \<in> set msgs \<Longrightarrow> verified E c s msg = Some m \<Longrightarrow> m = a"
    and "prev = None \<or> prev = Some a"
  shows "\<exists>r. final_message_loop E c msgs prev = Inr r"
  using assms
proof (induction E c msgs prev rule: final_message_loop.induct)
  case (2 E c sender msg rest prev)
  obtain device where dev: "map_of (comm_active_shares c)
      (sender - index_offset (comm_protocol_type c)) = Some device"
    using 2(2)[of sender msg] by (auto simp: hm_keys_lookup)
  obtain broadcast where b: "cm_broadcast msg = Some broadcast"
    using 2(2)[of sender msg] by auto
  show ?case
  proof (cases "verify_broadcast E broadcast (dev_certificate device)")
    case None
    with dev b show ?thesis by simp
  next
    case (Some m)
    with dev b have "m = a"
      using 2(3)[of sender msg m] by (simp add: verified_def)
    have "\<exists>r. final_message_loop E c rest (Some m) = Inr r"
    proof (rule 2(1)[OF dev b Some])
      show "\<not> (prev \<noteq> None \<and> prev \<noteq> Some m)" using 2(4) \<open>m = a\<close> by auto
      show "m' = a" if "(s, msg') \<in> set rest" "verified E c s msg' = Some m'" for s msg' m'
        using that 2(3) by (metis list.set_intros(2))
    qed (use 2(2) \<open>m = a\<close> in auto)
    with Some dev b \<open>m = a\<close> 2(4) show ?thesis by auto
  qed
qed auto

lemma comm_inv_sender:
  assumes "comm_inv c" and "(s, msg) \<in> set (comm_input c)"
  shows "s - index_offset (comm_protocol_type c) \<in> hm_keys (comm_active_shares c)"
proof -
  have "s \<in> set (get_protocol_indices c)"
    using assms comm_invD(4) by force
  then show ?thesis by (force simp: set_get_protocol_indices)
qed

lemma get_final_message_Some_iff:
  assumes "comm_inv c"
  shows "get_final_message E c = Inr (Some m) \<longleftrightarrow>
    comm_input c \<noteq> [] \<and>
    (\<forall>s msg. map_of (comm_input c) s = Some msg \<longrightarrow> verified E c s msg = Some m)"
proof -
  have "(\<forall>(s, msg) \<in> set (comm_input c). verified E c s msg = Some m) \<longleftrightarrow>
    (\<forall>s msg. map_of (comm_input c) s = Some msg \<longrightarrow> verified E c s msg = Some m)"
    using hm_wf_mem_iff[OF comm_invD(2)[OF assms]] by blast
  then show ?thesis
    by (simp add: get_final_message_def final_message_loop_Some_iff)
qed

section \<open>Properties\<close>

text \<open>A communicator used to show that the hypotheses below can hold: two shares of one device and
  one of another, in a FROST run, with one message received.\<close>

definition sample_device :: "u8 \<Rightarrow> device" where
  "sample_device n = \<lparr>dev_id = [n], dev_name = ''d'', dev_kind = User, dev_certificate = [n + 1]\<rparr>"

definition sample_message :: "u8 \<Rightarrow> client_message" where
  "sample_message b = \<lparr>cm_protocol_type = 2, cm_unicasts = [], cm_broadcast = Some [b]\<rparr>"

definition sample_comm :: communicator where
  "sample_comm = \<lparr>comm_threshold = 2, comm_active_shares = [(1, sample_device 7), (0, sample_device 5),
     (2, sample_device 7)], comm_input = [(1, sample_message 9)], comm_output = [],
     comm_protocol_type = P_Frost\<rparr>"

lemmas sample_comm_defs = sample_comm_def sample_message_def sample_device_def

text \<open>C29. Every operation of the communicator keeps its invariant: a message is only ever held for
  an active share, whatever the outcome of the operation, panics included.\<close>

theorem communicator_operations_keep_inv:
  assumes "comm_inv c"
  shows "comm_inv (snd (receive_messages c sender_id messages)) \<and> comm_inv (relay E c) \<and>
    comm_inv (send_all c f) \<and> comm_inv (clear_input c)"
  using assms comm_inv_receive[OF assms] by (metis comm_inv_clear_input comm_inv_relay
      comm_inv_send_all prod.exhaust_sel)

lemma sample_comm_inv: "comm_inv sample_comm"
  by (simp add: comm_inv_def sample_comm_defs get_protocol_indices_def)

theorem communicator_operations_keep_inv_witness:
  "comm_inv sample_comm \<and>
   comm_inv (snd (receive_messages sample_comm [7] [sample_message 1, sample_message 2]))"
  using communicator_operations_keep_inv[OF sample_comm_inv] sample_comm_inv by blast

text \<open>What a delivery does, on every branch: it is refused without a change when no message is
  given or their number is not that of the sender's active shares; it panics without a change when a
  message has no broadcast and not one unicast for each other required share; otherwise the i-th
  message is stored for the i-th share of the sender in index order and nothing else changes.\<close>

lemma receive_messages_behaviour:
  assumes "comm_inv c"
  shows "(messages = [] \<or> length messages \<noteq> length (identifier_to_indices c sender_id) \<longrightarrow>
       receive_messages c sender_id messages = (Inr False, c)) \<and>
    (messages \<noteq> [] \<and> length messages = length (identifier_to_indices c sender_id) \<and>
       \<not> list_all (message_well_formed c) messages \<longrightarrow>
       receive_messages c sender_id messages = (Inl Panic, c)) \<and>
    (messages \<noteq> [] \<and> length messages = length (identifier_to_indices c sender_id) \<and>
       list_all (message_well_formed c) messages \<longrightarrow>
       (\<exists>input. receive_messages c sender_id messages = (Inr True, c\<lparr>comm_input := input\<rparr>) \<and>
         (\<forall>i < length messages.
            map_of input (identifier_to_indices c sender_id ! i) = Some (messages ! i)) \<and>
         (\<forall>k. k \<notin> set (identifier_to_indices c sender_id) \<longrightarrow>
            map_of input k = map_of (comm_input c) k)))"
proof (intro conjI impI)
  let ?idx = "identifier_to_indices c sender_id"
  assume ok: "messages \<noteq> [] \<and> length messages = length ?idx \<and> list_all (message_well_formed c) messages"
  let ?input = "hm_extend (comm_input c) (zip ?idx messages)"
  have r: "receive_messages c sender_id messages = (Inr True, c\<lparr>comm_input := ?input\<rparr>)"
    using ok by (simp add: receive_messages_def)
  have d: "distinct (map fst (zip ?idx messages))"
    using assms ok by (simp add: comm_invD)
  have "map_of ?input k = map_of (comm_input c) k" if "k \<notin> set ?idx" for k
    using that set_zip_fst[of ?idx messages]
    by (auto simp: map_of_hm_extend[OF d] map_add_def map_of_eq_None_iff split: option.splits
        dest: map_of_SomeD set_zip_leftD)
  with r show "\<exists>input. receive_messages c sender_id messages = (Inr True, c\<lparr>comm_input := input\<rparr>) \<and>
      (\<forall>i < length messages. map_of input (?idx ! i) = Some (messages ! i)) \<and>
      (\<forall>k. k \<notin> set ?idx \<longrightarrow> map_of input k = map_of (comm_input c) k)"
    using receive_messages_stored[OF assms r] by (intro exI[of _ ?input]) auto
qed (auto simp: receive_messages_def)

lemma receive_messages_behaviour_witness:
  "receive_messages sample_comm [5] [] = (Inr False, sample_comm) \<and>
   (\<exists>input. receive_messages sample_comm [5] [sample_message 1] =
      (Inr True, sample_comm\<lparr>comm_input := input\<rparr>))"
proof -
  have "[sample_message 1] \<noteq> [] \<and>
    length [sample_message 1] = length (identifier_to_indices sample_comm [5]) \<and>
    list_all (message_well_formed sample_comm) [sample_message 1]"
    by (simp add: sample_comm_defs identifier_to_indices_def message_well_formed_def)
  then show ?thesis
    using receive_messages_behaviour[OF sample_comm_inv, of "[sample_message 1]" "[5]"]
      receive_messages_behaviour[OF sample_comm_inv, of "[]" "[5]"] by blast
qed

text \<open>C11. Relaying a round: each device is handed, for each of its active shares in index order, one
  encoded message that holds exactly the broadcasts of the other shares and exactly the unicasts the
  other shares addressed to that share, never the share's own, and the round's messages are
  cleared.\<close>

theorem relay_delivers_each_share_its_messages:
  assumes "comm_inv c"
  shows "get_messages (relay E c) device_id =
      map (\<lambda>idx. encode_server_message E (relay_message E c idx)) (identifier_to_indices c device_id) \<and>
    (\<forall>idx sender.
      map_of (sm_broadcasts (relay_message E c idx)) sender =
        (if sender = idx then None else Option.bind (map_of (comm_input c) sender) cm_broadcast) \<and>
      map_of (sm_unicasts (relay_message E c idx)) sender =
        (if sender = idx then None
         else Option.bind (map_of (comm_input c) sender) (\<lambda>msg. map_of (cm_unicasts msg) idx))) \<and>
    comm_input (relay E c) = []"
  using assms
  by (simp add: relay_message_broadcasts relay_message_unicasts relay_is_send_all
      get_messages_send_all comm_invD)

theorem relay_delivers_each_share_its_messages_witness:
  "get_messages (relay sample_env sample_comm) [7] =
     map (\<lambda>idx. encode_server_message sample_env (relay_message sample_env sample_comm idx)) [2, 3] \<and>
   map_of (sm_broadcasts (relay_message sample_env sample_comm 3)) 1 = Some [9]"
proof -
  have "identifier_to_indices sample_comm [7] = [2, 3]"
    by (simp add: sample_comm_defs identifier_to_indices_def)
  moreover have "Option.bind (map_of (comm_input sample_comm) 1) cm_broadcast = Some [9]"
    by (simp add: sample_comm_defs)
  ultimately show ?thesis
    using relay_delivers_each_share_its_messages[OF sample_comm_inv, of sample_env "[7]"] by simp
qed

text \<open>C12. The final message is an agreement: it is returned exactly when at least one message was
  received and every received message is a broadcast that verifies against its sender's certificate
  to that same value. When every message has a broadcast, the call can only panic because two
  verified values differ.\<close>

theorem final_message_is_unanimous:
  assumes "comm_inv c"
  shows "(get_final_message E c = Inr (Some m) \<longleftrightarrow>
      comm_input c \<noteq> [] \<and>
      (\<forall>s msg. map_of (comm_input c) s = Some msg \<longrightarrow> verified E c s msg = Some m)) \<and>
    ((\<forall>s msg. map_of (comm_input c) s = Some msg \<longrightarrow> cm_broadcast msg \<noteq> None) \<and>
      get_final_message E c = Inl Panic \<longrightarrow>
      (\<exists>s t msg msg' a b. map_of (comm_input c) s = Some msg \<and> map_of (comm_input c) t = Some msg' \<and>
        verified E c s msg = Some a \<and> verified E c t msg' = Some b \<and> a \<noteq> b))"
proof (intro conjI impI get_final_message_Some_iff[OF assms])
  assume b: "(\<forall>s msg. map_of (comm_input c) s = Some msg \<longrightarrow> cm_broadcast msg \<noteq> None) \<and>
      get_final_message E c = Inl Panic"
  note mem = hm_wf_mem_iff[OF comm_invD(2)[OF assms]]
  show "\<exists>s t msg msg' a b. map_of (comm_input c) s = Some msg \<and> map_of (comm_input c) t = Some msg' \<and>
        verified E c s msg = Some a \<and> verified E c t msg' = Some b \<and> a \<noteq> b"
  proof (rule ccontr)
    assume "\<not> ?thesis"
    then obtain a where "\<And>s msg m. (s, msg) \<in> set (comm_input c) \<Longrightarrow> verified E c s msg = Some m \<Longrightarrow> m = a"
      unfolding mem by metis
    then have "\<exists>r. final_message_loop E c (comm_input c) None = Inr r"
      using b comm_inv_sender[OF assms] by (intro final_message_loop_not_panic) (auto simp: mem)
    with b show False by (auto simp: get_final_message_def split: if_splits)
  qed
qed

theorem final_message_is_unanimous_witness:
  "get_final_message sample_env sample_comm = Inr (Some [9])"
proof -
  have "comm_input sample_comm \<noteq> [] \<and> (\<forall>s msg. map_of (comm_input sample_comm) s = Some msg \<longrightarrow>
      verified sample_env sample_comm s msg = Some [9])"
    by (simp add: sample_comm_defs verified_def sample_env_def)
  then show ?thesis
    using final_message_is_unanimous[OF sample_comm_inv, of sample_env "[9]"] by blast
qed

end
