(* ===== verification/Protocols.thy ===== *)
theory Protocols
  imports Communicator
begin

text \<open>
  The interface \<^verbatim>\<open>Protocol\<close> of \<^verbatim>\<open>src/protocols/mod.rs\<close> as a locale, with what the tasks rely on:
  initialising sends every active share its first message and starts round 1, advancing relays a
  round and counts it, finalising counts the last round and reads the final message; advancing too
  late and finalising too early or too late panic. The round-counting argument is done once here.
\<close>

section \<open>Thresholds\<close>

fun check_threshold :: "proto_protocol_type \<Rightarrow> u32 \<Rightarrow> u32 \<Rightarrow> bool" where
  "check_threshold P_Gg18 threshold group_size = (threshold \<ge> 2 \<and> threshold \<le> group_size)"
| "check_threshold P_Elgamal threshold group_size = (threshold \<ge> 2 \<and> threshold \<le> group_size)"
| "check_threshold P_Frost threshold group_size = (threshold \<ge> 2 \<and> threshold \<le> group_size)"
| "check_threshold P_Musig2 threshold group_size = (threshold \<ge> 2 \<and> threshold = group_size)"

lemma check_threshold_bounds:
  "check_threshold p threshold group_size \<Longrightarrow> 2 \<le> threshold \<and> threshold \<le> group_size"
  by (cases p) auto

section \<open>The interface\<close>

text \<open>
  A run of rounds: between two calls of \<^verbatim>\<open>advance\<close> the clients deliver messages, so each round starts
  with an arbitrary change of the communicator.
\<close>

fun run_rounds :: "('p \<Rightarrow> communicator \<Rightarrow> unit res \<times> 'p \<times> communicator) \<Rightarrow>
    (communicator \<Rightarrow> communicator) list \<Rightarrow> 'p \<times> communicator \<Rightarrow> unit res \<times> 'p \<times> communicator" where
  "run_rounds adv [] (p, c) = (Inr (), p, c)"
| "run_rounds adv (g # gs) (p, c) =
     (case adv p (g c) of (Inl e, pc) \<Rightarrow> (Inl e, pc) | (Inr _, pc) \<Rightarrow> run_rounds adv gs pc)"

lemma unat_Suc_lt:
  assumes "(a :: 'a::len word) < b"
  shows "unat (a + 1) = Suc (unat a)"
proof -
  have "unat a < unat b" using assms by (simp add: word_less_nat_alt)
  also have "unat b < 2 ^ LENGTH('a)" by simp
  finally have "Suc (unat a) < 2 ^ LENGTH('a) \<or> Suc (unat a) = 2 ^ LENGTH('a)" by linarith
  moreover have "Suc (unat a) \<noteq> 2 ^ LENGTH('a)"
    using \<open>unat a < unat b\<close> \<open>unat b < 2 ^ LENGTH('a)\<close> by linarith
  ultimately show ?thesis
    by (simp add: unat_word_ariths)
qed

locale protocol_impl =
  fixes initialize :: "env \<Rightarrow> 'p \<Rightarrow> communicator \<Rightarrow> bytes \<Rightarrow> 'p \<times> communicator"
    and advance :: "env \<Rightarrow> 'p \<Rightarrow> communicator \<Rightarrow> unit res \<times> 'p \<times> communicator"
    and finalize :: "env \<Rightarrow> 'p \<Rightarrow> communicator \<Rightarrow> bytes option res \<times> 'p \<times> communicator"
    and current :: "'p \<Rightarrow> u16"
    and last :: "env \<Rightarrow> 'p \<Rightarrow> u16"
    and kind :: "'p \<Rightarrow> proto_protocol_type"
  assumes initialize_starts: "initialize E p c data = (p', c') \<Longrightarrow>
      current p' = 1 \<and> last E' p' = last E' p \<and> kind p' = kind p \<and> (\<exists>f. c' = send_all c f)"
    and advance_counts: "current p < last E p \<Longrightarrow>
      \<exists>p'. advance E p c = (Inr (), p', relay E c) \<and> current p' = current p + 1 \<and>
        last E p' = last E p \<and> kind p' = kind p"
    and advance_late: "\<not> current p < last E p \<Longrightarrow> advance E p c = (Inl Panic, p, c)"
    and finalize_counts: "current p = last E p \<Longrightarrow>
      \<exists>p'. finalize E p c = (get_final_message E c, p', c) \<and> current p' = current p + 1 \<and>
        last E p' = last E p \<and> kind p' = kind p"
    and finalize_off: "current p \<noteq> last E p \<Longrightarrow> finalize E p c = (Inl Panic, p, c)"
begin

lemma run_rounds_counts:
  assumes "unat (current p) + length gs \<le> unat (last E p)"
  shows "\<exists>p' c'. run_rounds (advance E) gs (p, c) = (Inr (), p', c') \<and>
    unat (current p') = unat (current p) + length gs \<and> last E p' = last E p \<and> kind p' = kind p"
  using assms
proof (induction gs arbitrary: p c)
  case (Cons g gs)
  then have lt: "current p < last E p"
    by (simp add: word_less_nat_alt)
  then obtain p' where p': "advance E p (g c) = (Inr (), p', relay E (g c))"
    "current p' = current p + 1" "last E p' = last E p" "kind p' = kind p"
    using advance_counts by blast
  then have "unat (current p') = Suc (unat (current p))"
    using lt by (simp add: unat_Suc_lt)
  with p' Cons.prems Cons.IH[of p' "relay E (g c)"] show ?case by auto
qed simp

lemma run_rounds_late:
  assumes "unat (last E p) < unat (current p) + length gs" "current p \<le> last E p"
  shows "\<exists>pc. run_rounds (advance E) gs (p, c) = (Inl Panic, pc)"
  using assms
proof (induction gs arbitrary: p c)
  case Nil
  then show ?case by (simp add: word_le_nat_alt)
next
  case (Cons g gs)
  show ?case
  proof (cases "current p < last E p")
    case True
    then obtain p' where p': "advance E p (g c) = (Inr (), p', relay E (g c))"
      "current p' = current p + 1" "last E p' = last E p"
      using advance_counts by blast
    have s: "unat (current p') = Suc (unat (current p))"
      using True p'(2) by (simp add: unat_Suc_lt)
    then have "current p' \<le> last E p'"
      using True p'(3) by (simp add: word_le_nat_alt word_less_nat_alt)
    with s p' Cons.prems Cons.IH[of p' "relay E (g c)"] show ?thesis by auto
  next
    case False
    then show ?thesis by (simp add: advance_late)
  qed
qed

text \<open>A whole run: initialise, advance through the rounds, finalise.\<close>

lemma full_run:
  assumes "initialize E p c data = (p1, c1)" "Suc (length gs) = unat (last E p)"
  shows "\<exists>p2 c2 p3. run_rounds (advance E) gs (p1, c1) = (Inr (), p2, c2) \<and> current p2 = last E p \<and>
    finalize E p2 c' = (get_final_message E c', p3, c')"
proof -
  have i: "current p1 = 1" "last E p1 = last E p"
    using initialize_starts[OF assms(1)] by auto
  then obtain p2 c2 where r: "run_rounds (advance E) gs (p1, c1) = (Inr (), p2, c2)"
    "unat (current p2) = unat (last E p)" "last E p2 = last E p"
    using run_rounds_counts[of p1 gs E c1] assms(2) by auto
  then have "current p2 = last E p2" by (simp add: word_unat_eq_iff)
  with r finalize_counts[of p2 E c'] show ?thesis by metis
qed

lemma short_run_not_final:
  assumes "initialize E p c data = (p1, c1)" "Suc (length gs) < unat (last E p)"
  shows "\<exists>p2 c2. run_rounds (advance E) gs (p1, c1) = (Inr (), p2, c2) \<and>
    finalize E p2 c' = (Inl Panic, p2, c')"
proof -
  have i: "current p1 = 1" "last E p1 = last E p"
    using initialize_starts[OF assms(1)] by auto
  then obtain p2 c2 where r: "run_rounds (advance E) gs (p1, c1) = (Inr (), p2, c2)"
    "unat (current p2) = Suc (length gs)" "last E p2 = last E p"
    using run_rounds_counts[of p1 gs E c1] assms(2) by auto
  then have "current p2 \<noteq> last E p2" using assms(2) by auto
  with r finalize_off show ?thesis by metis
qed

lemma comm_inv_initialize:
  "initialize E p c data = (p', c') \<Longrightarrow> comm_inv c \<Longrightarrow> comm_inv c'"
  using initialize_starts comm_inv_send_all by metis

lemma comm_inv_advance:
  "advance E p c = (r, p', c') \<Longrightarrow> comm_inv c \<Longrightarrow> comm_inv c'"
  using advance_counts[of p E c] advance_late[of p E c] comm_inv_relay
  by (cases "current p < last E p") auto

end

end
