(* ===== verification/Protocol_GG18.thy ===== *)
theory Protocol_GG18
  imports Protocols
begin

text \<open>The GG18 key generation and signing protocols of \<^verbatim>\<open>src/protocols/gg18.rs\<close>.\<close>

section \<open>\<^verbatim>\<open>GG18Group\<close>\<close>

record gg18_group =
  gg18_group_parties :: u32
  gg18_group_threshold :: u32
  gg18_group_round :: u16

definition gg18_group_from_model :: "u32 \<Rightarrow> u32 \<Rightarrow> u16 \<Rightarrow> gg18_group" where
  "gg18_group_from_model parties threshold round = \<lparr>gg18_group_parties = parties, gg18_group_threshold = threshold, gg18_group_round = round\<rparr>"

definition gg18_group_set_round :: "gg18_group \<Rightarrow> u16 \<Rightarrow> gg18_group" where
  "gg18_group_set_round p round = p\<lparr>gg18_group_round := round\<rparr>"

definition gg18_group_increment_round :: "gg18_group \<Rightarrow> gg18_group" where
  "gg18_group_increment_round p = p\<lparr>gg18_group_round := gg18_group_round p + 1\<rparr>"

definition gg18_group_last_round :: "env \<Rightarrow> gg18_group \<Rightarrow> u16" where
  "gg18_group_last_round E p = gg18_KEYGEN_ROUNDS E"

definition gg18_group_get_type :: "gg18_group \<Rightarrow> proto_protocol_type" where
  "gg18_group_get_type p = P_Gg18"

definition gg18_group_initialize ::
    "env \<Rightarrow> gg18_group \<Rightarrow> communicator \<Rightarrow> bytes \<Rightarrow> gg18_group \<times> communicator" where
  "gg18_group_initialize E p communicator data =
     (gg18_group_set_round p 1,
      send_all communicator (\<lambda>idx. encode_protocol_group_init E
        \<lparr>pgi_protocol_type = proto_protocol_number P_Gg18,
         pgi_index = idx, pgi_parties = gg18_group_parties p, pgi_threshold = gg18_group_threshold p\<rparr>))"

definition gg18_group_advance ::
    "env \<Rightarrow> gg18_group \<Rightarrow> communicator \<Rightarrow> unit res \<times> gg18_group \<times> communicator" where
  "gg18_group_advance E p communicator =
     (if \<not> (0 \<le> gg18_group_round p \<and> gg18_group_round p < gg18_group_last_round E p) then (Inl Panic, p, communicator)
      else (Inr (), gg18_group_increment_round p, relay E communicator))"

definition gg18_group_finalize ::
    "env \<Rightarrow> gg18_group \<Rightarrow> communicator \<Rightarrow> bytes option res \<times> gg18_group \<times> communicator" where
  "gg18_group_finalize E p communicator =
     (if gg18_group_last_round E p \<noteq> gg18_group_round p then (Inl Panic, p, communicator)
      else (get_final_message E communicator, gg18_group_increment_round p, communicator))"

lemmas gg18_group_defs = gg18_group_initialize_def gg18_group_advance_def gg18_group_finalize_def
  gg18_group_set_round_def gg18_group_increment_round_def gg18_group_last_round_def gg18_group_get_type_def

interpretation gg18_group: protocol_impl gg18_group_initialize gg18_group_advance gg18_group_finalize
  gg18_group_round gg18_group_last_round gg18_group_get_type
  by unfold_locales (auto simp: gg18_group_defs Let_def)

section \<open>\<^verbatim>\<open>GG18Sign\<close>\<close>

record gg18_sign =
  gg18_sign_round :: u16

definition gg18_sign_new :: gg18_sign where
  "gg18_sign_new = \<lparr>gg18_sign_round = 0\<rparr>"

definition gg18_sign_from_model :: "u16 \<Rightarrow> gg18_sign" where
  "gg18_sign_from_model round = \<lparr>gg18_sign_round = round\<rparr>"

definition gg18_sign_set_round :: "gg18_sign \<Rightarrow> u16 \<Rightarrow> gg18_sign" where
  "gg18_sign_set_round p round = p\<lparr>gg18_sign_round := round\<rparr>"

definition gg18_sign_increment_round :: "gg18_sign \<Rightarrow> gg18_sign" where
  "gg18_sign_increment_round p = p\<lparr>gg18_sign_round := gg18_sign_round p + 1\<rparr>"

definition gg18_sign_last_round :: "env \<Rightarrow> gg18_sign \<Rightarrow> u16" where
  "gg18_sign_last_round E p = gg18_SIGN_ROUNDS E"

definition gg18_sign_get_type :: "gg18_sign \<Rightarrow> proto_protocol_type" where
  "gg18_sign_get_type p = P_Gg18"

definition gg18_sign_initialize ::
    "env \<Rightarrow> gg18_sign \<Rightarrow> communicator \<Rightarrow> bytes \<Rightarrow> gg18_sign \<times> communicator" where
  "gg18_sign_initialize E p communicator data =
     (let participant_indices = get_protocol_indices communicator
      in (gg18_sign_set_round p 1,
          send_all communicator (\<lambda>idx. encode_protocol_init E
            \<lparr>pi_protocol_type = proto_protocol_number P_Gg18,
             pi_indices = participant_indices, pi_index = idx, pi_data = data\<rparr>)))"

definition gg18_sign_advance ::
    "env \<Rightarrow> gg18_sign \<Rightarrow> communicator \<Rightarrow> unit res \<times> gg18_sign \<times> communicator" where
  "gg18_sign_advance E p communicator =
     (if \<not> (0 \<le> gg18_sign_round p \<and> gg18_sign_round p < gg18_sign_last_round E p) then (Inl Panic, p, communicator)
      else (Inr (), gg18_sign_increment_round p, relay E communicator))"

definition gg18_sign_finalize ::
    "env \<Rightarrow> gg18_sign \<Rightarrow> communicator \<Rightarrow> bytes option res \<times> gg18_sign \<times> communicator" where
  "gg18_sign_finalize E p communicator =
     (if gg18_sign_last_round E p \<noteq> gg18_sign_round p then (Inl Panic, p, communicator)
      else (get_final_message E communicator, gg18_sign_increment_round p, communicator))"

lemmas gg18_sign_defs = gg18_sign_initialize_def gg18_sign_advance_def gg18_sign_finalize_def
  gg18_sign_set_round_def gg18_sign_increment_round_def gg18_sign_last_round_def gg18_sign_get_type_def

interpretation gg18_sign: protocol_impl gg18_sign_initialize gg18_sign_advance gg18_sign_finalize
  gg18_sign_round gg18_sign_last_round gg18_sign_get_type
  by unfold_locales (auto simp: gg18_sign_defs Let_def)

end
