(* ===== verification/Protocol_FROST.thy ===== *)
theory Protocol_FROST
  imports Protocols
begin

text \<open>The FROST key generation and signing protocols of \<^verbatim>\<open>src/protocols/frost.rs\<close>. Their messages
  carry the crypto crate's number of the protocol.\<close>

section \<open>\<^verbatim>\<open>FROSTGroup\<close>\<close>

record frost_group =
  frost_group_parties :: u32
  frost_group_threshold :: u32
  frost_group_round :: u16

definition frost_group_from_model :: "u32 \<Rightarrow> u32 \<Rightarrow> u16 \<Rightarrow> frost_group" where
  "frost_group_from_model parties threshold round = \<lparr>frost_group_parties = parties, frost_group_threshold = threshold, frost_group_round = round\<rparr>"

definition frost_group_set_round :: "frost_group \<Rightarrow> u16 \<Rightarrow> frost_group" where
  "frost_group_set_round p round = p\<lparr>frost_group_round := round\<rparr>"

definition frost_group_increment_round :: "frost_group \<Rightarrow> frost_group" where
  "frost_group_increment_round p = p\<lparr>frost_group_round := frost_group_round p + 1\<rparr>"

definition frost_group_last_round :: "env \<Rightarrow> frost_group \<Rightarrow> u16" where
  "frost_group_last_round E p = frost_KEYGEN_ROUNDS E"

definition frost_group_get_type :: "frost_group \<Rightarrow> proto_protocol_type" where
  "frost_group_get_type p = P_Frost"

definition frost_group_initialize ::
    "env \<Rightarrow> frost_group \<Rightarrow> communicator \<Rightarrow> bytes \<Rightarrow> frost_group \<times> communicator" where
  "frost_group_initialize E p communicator data =
     (frost_group_set_round p 1,
      send_all communicator (\<lambda>idx. encode_protocol_group_init E
        \<lparr>pgi_protocol_type = crypto_protocol_number E C_Frost,
         pgi_index = idx, pgi_parties = frost_group_parties p, pgi_threshold = frost_group_threshold p\<rparr>))"

definition frost_group_advance ::
    "env \<Rightarrow> frost_group \<Rightarrow> communicator \<Rightarrow> unit res \<times> frost_group \<times> communicator" where
  "frost_group_advance E p communicator =
     (if \<not> (0 \<le> frost_group_round p \<and> frost_group_round p < frost_group_last_round E p) then (Inl Panic, p, communicator)
      else (Inr (), frost_group_increment_round p, relay E communicator))"

definition frost_group_finalize ::
    "env \<Rightarrow> frost_group \<Rightarrow> communicator \<Rightarrow> bytes option res \<times> frost_group \<times> communicator" where
  "frost_group_finalize E p communicator =
     (if frost_group_last_round E p \<noteq> frost_group_round p then (Inl Panic, p, communicator)
      else (get_final_message E communicator, frost_group_increment_round p, communicator))"

lemmas frost_group_defs = frost_group_initialize_def frost_group_advance_def frost_group_finalize_def
  frost_group_set_round_def frost_group_increment_round_def frost_group_last_round_def frost_group_get_type_def

interpretation frost_group: protocol_impl frost_group_initialize frost_group_advance frost_group_finalize
  frost_group_round frost_group_last_round frost_group_get_type
  by unfold_locales (auto simp: frost_group_defs Let_def)

section \<open>\<^verbatim>\<open>FROSTSign\<close>\<close>

record frost_sign =
  frost_sign_round :: u16

definition frost_sign_new :: frost_sign where
  "frost_sign_new = \<lparr>frost_sign_round = 0\<rparr>"

definition frost_sign_from_model :: "u16 \<Rightarrow> frost_sign" where
  "frost_sign_from_model round = \<lparr>frost_sign_round = round\<rparr>"

definition frost_sign_set_round :: "frost_sign \<Rightarrow> u16 \<Rightarrow> frost_sign" where
  "frost_sign_set_round p round = p\<lparr>frost_sign_round := round\<rparr>"

definition frost_sign_increment_round :: "frost_sign \<Rightarrow> frost_sign" where
  "frost_sign_increment_round p = p\<lparr>frost_sign_round := frost_sign_round p + 1\<rparr>"

definition frost_sign_last_round :: "env \<Rightarrow> frost_sign \<Rightarrow> u16" where
  "frost_sign_last_round E p = frost_SIGN_ROUNDS E"

definition frost_sign_get_type :: "frost_sign \<Rightarrow> proto_protocol_type" where
  "frost_sign_get_type p = P_Frost"

definition frost_sign_initialize ::
    "env \<Rightarrow> frost_sign \<Rightarrow> communicator \<Rightarrow> bytes \<Rightarrow> frost_sign \<times> communicator" where
  "frost_sign_initialize E p communicator data =
     (let participant_indices = get_protocol_indices communicator
      in (frost_sign_set_round p 1,
          send_all communicator (\<lambda>idx. encode_protocol_init E
            \<lparr>pi_protocol_type = crypto_protocol_number E C_Frost,
             pi_indices = participant_indices, pi_index = idx, pi_data = data\<rparr>)))"

definition frost_sign_advance ::
    "env \<Rightarrow> frost_sign \<Rightarrow> communicator \<Rightarrow> unit res \<times> frost_sign \<times> communicator" where
  "frost_sign_advance E p communicator =
     (if \<not> (0 \<le> frost_sign_round p \<and> frost_sign_round p < frost_sign_last_round E p) then (Inl Panic, p, communicator)
      else (Inr (), frost_sign_increment_round p, relay E communicator))"

definition frost_sign_finalize ::
    "env \<Rightarrow> frost_sign \<Rightarrow> communicator \<Rightarrow> bytes option res \<times> frost_sign \<times> communicator" where
  "frost_sign_finalize E p communicator =
     (if frost_sign_last_round E p \<noteq> frost_sign_round p then (Inl Panic, p, communicator)
      else (get_final_message E communicator, frost_sign_increment_round p, communicator))"

lemmas frost_sign_defs = frost_sign_initialize_def frost_sign_advance_def frost_sign_finalize_def
  frost_sign_set_round_def frost_sign_increment_round_def frost_sign_last_round_def frost_sign_get_type_def

interpretation frost_sign: protocol_impl frost_sign_initialize frost_sign_advance frost_sign_finalize
  frost_sign_round frost_sign_last_round frost_sign_get_type
  by unfold_locales (auto simp: frost_sign_defs Let_def)

end
