(* ===== verification/Protocol_ElGamal.thy ===== *)
theory Protocol_ElGamal
  imports Protocols
begin

text \<open>The ElGamal key generation and decryption protocols of \<^verbatim>\<open>src/protocols/elgamal.rs\<close>.\<close>

section \<open>\<^verbatim>\<open>ElgamalGroup\<close>\<close>

record elgamal_group =
  elgamal_group_parties :: u32
  elgamal_group_threshold :: u32
  elgamal_group_round :: u16

definition elgamal_group_from_model :: "u32 \<Rightarrow> u32 \<Rightarrow> u16 \<Rightarrow> elgamal_group" where
  "elgamal_group_from_model parties threshold round = \<lparr>elgamal_group_parties = parties, elgamal_group_threshold = threshold, elgamal_group_round = round\<rparr>"

definition elgamal_group_set_round :: "elgamal_group \<Rightarrow> u16 \<Rightarrow> elgamal_group" where
  "elgamal_group_set_round p round = p\<lparr>elgamal_group_round := round\<rparr>"

definition elgamal_group_increment_round :: "elgamal_group \<Rightarrow> elgamal_group" where
  "elgamal_group_increment_round p = p\<lparr>elgamal_group_round := elgamal_group_round p + 1\<rparr>"

definition elgamal_group_last_round :: "env \<Rightarrow> elgamal_group \<Rightarrow> u16" where
  "elgamal_group_last_round E p = elgamal_KEYGEN_ROUNDS E"

definition elgamal_group_get_type :: "elgamal_group \<Rightarrow> proto_protocol_type" where
  "elgamal_group_get_type p = P_Elgamal"

definition elgamal_group_initialize ::
    "env \<Rightarrow> elgamal_group \<Rightarrow> communicator \<Rightarrow> bytes \<Rightarrow> elgamal_group \<times> communicator" where
  "elgamal_group_initialize E p communicator data =
     (elgamal_group_set_round p 1,
      send_all communicator (\<lambda>idx. encode_protocol_group_init E
        \<lparr>pgi_protocol_type = proto_protocol_number P_Elgamal,
         pgi_index = idx, pgi_parties = elgamal_group_parties p, pgi_threshold = elgamal_group_threshold p\<rparr>))"

definition elgamal_group_advance ::
    "env \<Rightarrow> elgamal_group \<Rightarrow> communicator \<Rightarrow> unit res \<times> elgamal_group \<times> communicator" where
  "elgamal_group_advance E p communicator =
     (if \<not> (0 \<le> elgamal_group_round p \<and> elgamal_group_round p < elgamal_group_last_round E p) then (Inl Panic, p, communicator)
      else (Inr (), elgamal_group_increment_round p, relay E communicator))"

definition elgamal_group_finalize ::
    "env \<Rightarrow> elgamal_group \<Rightarrow> communicator \<Rightarrow> bytes option res \<times> elgamal_group \<times> communicator" where
  "elgamal_group_finalize E p communicator =
     (if elgamal_group_last_round E p \<noteq> elgamal_group_round p then (Inl Panic, p, communicator)
      else (get_final_message E communicator, elgamal_group_increment_round p, communicator))"

lemmas elgamal_group_defs = elgamal_group_initialize_def elgamal_group_advance_def elgamal_group_finalize_def
  elgamal_group_set_round_def elgamal_group_increment_round_def elgamal_group_last_round_def elgamal_group_get_type_def

interpretation elgamal_group: protocol_impl elgamal_group_initialize elgamal_group_advance elgamal_group_finalize
  elgamal_group_round elgamal_group_last_round elgamal_group_get_type
  by unfold_locales (auto simp: elgamal_group_defs Let_def)

section \<open>\<^verbatim>\<open>ElgamalDecrypt\<close>\<close>

record elgamal_decrypt =
  elgamal_decrypt_round :: u16

definition elgamal_decrypt_new :: elgamal_decrypt where
  "elgamal_decrypt_new = \<lparr>elgamal_decrypt_round = 0\<rparr>"

definition elgamal_decrypt_from_model :: "u16 \<Rightarrow> elgamal_decrypt" where
  "elgamal_decrypt_from_model round = \<lparr>elgamal_decrypt_round = round\<rparr>"

definition elgamal_decrypt_set_round :: "elgamal_decrypt \<Rightarrow> u16 \<Rightarrow> elgamal_decrypt" where
  "elgamal_decrypt_set_round p round = p\<lparr>elgamal_decrypt_round := round\<rparr>"

definition elgamal_decrypt_increment_round :: "elgamal_decrypt \<Rightarrow> elgamal_decrypt" where
  "elgamal_decrypt_increment_round p = p\<lparr>elgamal_decrypt_round := elgamal_decrypt_round p + 1\<rparr>"

definition elgamal_decrypt_last_round :: "env \<Rightarrow> elgamal_decrypt \<Rightarrow> u16" where
  "elgamal_decrypt_last_round E p = elgamal_DECRYPT_ROUNDS E"

definition elgamal_decrypt_get_type :: "elgamal_decrypt \<Rightarrow> proto_protocol_type" where
  "elgamal_decrypt_get_type p = P_Elgamal"

definition elgamal_decrypt_initialize ::
    "env \<Rightarrow> elgamal_decrypt \<Rightarrow> communicator \<Rightarrow> bytes \<Rightarrow> elgamal_decrypt \<times> communicator" where
  "elgamal_decrypt_initialize E p communicator data =
     (let participant_indices = get_protocol_indices communicator
      in (elgamal_decrypt_set_round p 1,
          send_all communicator (\<lambda>idx. encode_protocol_init E
            \<lparr>pi_protocol_type = proto_protocol_number P_Elgamal,
             pi_indices = participant_indices, pi_index = idx, pi_data = data\<rparr>)))"

definition elgamal_decrypt_advance ::
    "env \<Rightarrow> elgamal_decrypt \<Rightarrow> communicator \<Rightarrow> unit res \<times> elgamal_decrypt \<times> communicator" where
  "elgamal_decrypt_advance E p communicator =
     (if \<not> (0 \<le> elgamal_decrypt_round p \<and> elgamal_decrypt_round p < elgamal_decrypt_last_round E p) then (Inl Panic, p, communicator)
      else (Inr (), elgamal_decrypt_increment_round p, relay E communicator))"

definition elgamal_decrypt_finalize ::
    "env \<Rightarrow> elgamal_decrypt \<Rightarrow> communicator \<Rightarrow> bytes option res \<times> elgamal_decrypt \<times> communicator" where
  "elgamal_decrypt_finalize E p communicator =
     (if elgamal_decrypt_last_round E p \<noteq> elgamal_decrypt_round p then (Inl Panic, p, communicator)
      else (get_final_message E communicator, elgamal_decrypt_increment_round p, communicator))"

lemmas elgamal_decrypt_defs = elgamal_decrypt_initialize_def elgamal_decrypt_advance_def elgamal_decrypt_finalize_def
  elgamal_decrypt_set_round_def elgamal_decrypt_increment_round_def elgamal_decrypt_last_round_def elgamal_decrypt_get_type_def

interpretation elgamal_decrypt: protocol_impl elgamal_decrypt_initialize elgamal_decrypt_advance elgamal_decrypt_finalize
  elgamal_decrypt_round elgamal_decrypt_last_round elgamal_decrypt_get_type
  by unfold_locales (auto simp: elgamal_decrypt_defs Let_def)

end
