(* ===== verification/Protocol_MuSig2.thy ===== *)
theory Protocol_MuSig2
  imports Protocols
begin

text \<open>The MuSig2 key generation and signing protocols of \<^verbatim>\<open>src/protocols/musig2.rs\<close>: no threshold of
  its own, all parties sign.\<close>

section \<open>\<^verbatim>\<open>MuSig2Group\<close>\<close>

record musig2_group =
  musig2_group_parties :: u32
  musig2_group_round :: u16

definition musig2_group_from_model :: "u32 \<Rightarrow> u16 \<Rightarrow> musig2_group" where
  "musig2_group_from_model parties round = \<lparr>musig2_group_parties = parties, musig2_group_round = round\<rparr>"

definition musig2_group_set_round :: "musig2_group \<Rightarrow> u16 \<Rightarrow> musig2_group" where
  "musig2_group_set_round p round = p\<lparr>musig2_group_round := round\<rparr>"

definition musig2_group_increment_round :: "musig2_group \<Rightarrow> musig2_group" where
  "musig2_group_increment_round p = p\<lparr>musig2_group_round := musig2_group_round p + 1\<rparr>"

definition musig2_group_last_round :: "env \<Rightarrow> musig2_group \<Rightarrow> u16" where
  "musig2_group_last_round E p = musig2_KEYGEN_ROUNDS E"

definition musig2_group_get_type :: "musig2_group \<Rightarrow> proto_protocol_type" where
  "musig2_group_get_type p = P_Musig2"

definition musig2_group_initialize ::
    "env \<Rightarrow> musig2_group \<Rightarrow> communicator \<Rightarrow> bytes \<Rightarrow> musig2_group \<times> communicator" where
  "musig2_group_initialize E p communicator data =
     (musig2_group_set_round p 1,
      send_all communicator (\<lambda>idx. encode_protocol_group_init E
        \<lparr>pgi_protocol_type = crypto_protocol_number E C_Musig2,
         pgi_index = idx, pgi_parties = musig2_group_parties p, pgi_threshold = musig2_group_parties p\<rparr>))"

definition musig2_group_advance ::
    "env \<Rightarrow> musig2_group \<Rightarrow> communicator \<Rightarrow> unit res \<times> musig2_group \<times> communicator" where
  "musig2_group_advance E p communicator =
     (if \<not> (0 \<le> musig2_group_round p \<and> musig2_group_round p < musig2_group_last_round E p) then (Inl Panic, p, communicator)
      else (Inr (), musig2_group_increment_round p, relay E communicator))"

definition musig2_group_finalize ::
    "env \<Rightarrow> musig2_group \<Rightarrow> communicator \<Rightarrow> bytes option res \<times> musig2_group \<times> communicator" where
  "musig2_group_finalize E p communicator =
     (if musig2_group_last_round E p \<noteq> musig2_group_round p then (Inl Panic, p, communicator)
      else (get_final_message E communicator, musig2_group_increment_round p, communicator))"

lemmas musig2_group_defs = musig2_group_initialize_def musig2_group_advance_def musig2_group_finalize_def
  musig2_group_set_round_def musig2_group_increment_round_def musig2_group_last_round_def musig2_group_get_type_def

interpretation musig2_group: protocol_impl musig2_group_initialize musig2_group_advance musig2_group_finalize
  musig2_group_round musig2_group_last_round musig2_group_get_type
  by unfold_locales (auto simp: musig2_group_defs Let_def)

section \<open>\<^verbatim>\<open>MuSig2Sign\<close>\<close>

record musig2_sign =
  musig2_sign_round :: u16

definition musig2_sign_new :: musig2_sign where
  "musig2_sign_new = \<lparr>musig2_sign_round = 0\<rparr>"

definition musig2_sign_from_model :: "u16 \<Rightarrow> musig2_sign" where
  "musig2_sign_from_model round = \<lparr>musig2_sign_round = round\<rparr>"

definition musig2_sign_set_round :: "musig2_sign \<Rightarrow> u16 \<Rightarrow> musig2_sign" where
  "musig2_sign_set_round p round = p\<lparr>musig2_sign_round := round\<rparr>"

definition musig2_sign_increment_round :: "musig2_sign \<Rightarrow> musig2_sign" where
  "musig2_sign_increment_round p = p\<lparr>musig2_sign_round := musig2_sign_round p + 1\<rparr>"

definition musig2_sign_last_round :: "env \<Rightarrow> musig2_sign \<Rightarrow> u16" where
  "musig2_sign_last_round E p = musig2_SIGN_ROUNDS E"

definition musig2_sign_get_type :: "musig2_sign \<Rightarrow> proto_protocol_type" where
  "musig2_sign_get_type p = P_Musig2"

definition musig2_sign_initialize ::
    "env \<Rightarrow> musig2_sign \<Rightarrow> communicator \<Rightarrow> bytes \<Rightarrow> musig2_sign \<times> communicator" where
  "musig2_sign_initialize E p communicator data =
     (let participant_indices = get_protocol_indices communicator
      in (musig2_sign_set_round p 1,
          send_all communicator (\<lambda>idx. encode_protocol_init E
            \<lparr>pi_protocol_type = crypto_protocol_number E C_Musig2,
             pi_indices = participant_indices, pi_index = idx, pi_data = data\<rparr>)))"

definition musig2_sign_advance ::
    "env \<Rightarrow> musig2_sign \<Rightarrow> communicator \<Rightarrow> unit res \<times> musig2_sign \<times> communicator" where
  "musig2_sign_advance E p communicator =
     (if \<not> (0 \<le> musig2_sign_round p \<and> musig2_sign_round p < musig2_sign_last_round E p) then (Inl Panic, p, communicator)
      else (Inr (), musig2_sign_increment_round p, relay E communicator))"

definition musig2_sign_finalize ::
    "env \<Rightarrow> musig2_sign \<Rightarrow> communicator \<Rightarrow> bytes option res \<times> musig2_sign \<times> communicator" where
  "musig2_sign_finalize E p communicator =
     (if musig2_sign_last_round E p \<noteq> musig2_sign_round p then (Inl Panic, p, communicator)
      else (get_final_message E communicator, musig2_sign_increment_round p, communicator))"

lemmas musig2_sign_defs = musig2_sign_initialize_def musig2_sign_advance_def musig2_sign_finalize_def
  musig2_sign_set_round_def musig2_sign_increment_round_def musig2_sign_last_round_def musig2_sign_get_type_def

interpretation musig2_sign: protocol_impl musig2_sign_initialize musig2_sign_advance musig2_sign_finalize
  musig2_sign_round musig2_sign_last_round musig2_sign_get_type
  by unfold_locales (auto simp: musig2_sign_defs Let_def)

end
