(* ===== verification/Protocol_Dispatch.thy ===== *)
theory Protocol_Dispatch
  imports Protocol_GG18 Protocol_FROST Protocol_ElGamal Protocol_MuSig2
begin

text \<open>
  The trait objects \<^verbatim>\<open>Box<dyn Protocol>\<close> the tasks hold, the dispatch of the trait's methods, and
  the functions of \<^verbatim>\<open>src/protocols/mod.rs\<close> that choose a protocol.
\<close>

section \<open>Trait objects\<close>

datatype protocol =
    GG18_Group gg18_group
  | FROST_Group frost_group
  | Elgamal_Group elgamal_group
  | MuSig2_Group musig2_group
  | GG18_Sign gg18_sign
  | FROST_Sign frost_sign
  | MuSig2_Sign musig2_sign
  | Elgamal_Decrypt elgamal_decrypt

fun protocol_initialize :: "env \<Rightarrow> protocol \<Rightarrow> communicator \<Rightarrow> bytes \<Rightarrow> protocol \<times> communicator" where
  "protocol_initialize E (GG18_Group p) c data =
     map_prod GG18_Group (\<lambda>c. c) (gg18_group_initialize E p c data)"
| "protocol_initialize E (FROST_Group p) c data =
     map_prod FROST_Group (\<lambda>c. c) (frost_group_initialize E p c data)"
| "protocol_initialize E (Elgamal_Group p) c data =
     map_prod Elgamal_Group (\<lambda>c. c) (elgamal_group_initialize E p c data)"
| "protocol_initialize E (MuSig2_Group p) c data =
     map_prod MuSig2_Group (\<lambda>c. c) (musig2_group_initialize E p c data)"
| "protocol_initialize E (GG18_Sign p) c data =
     map_prod GG18_Sign (\<lambda>c. c) (gg18_sign_initialize E p c data)"
| "protocol_initialize E (FROST_Sign p) c data =
     map_prod FROST_Sign (\<lambda>c. c) (frost_sign_initialize E p c data)"
| "protocol_initialize E (MuSig2_Sign p) c data =
     map_prod MuSig2_Sign (\<lambda>c. c) (musig2_sign_initialize E p c data)"
| "protocol_initialize E (Elgamal_Decrypt p) c data =
     map_prod Elgamal_Decrypt (\<lambda>c. c) (elgamal_decrypt_initialize E p c data)"

fun protocol_advance :: "env \<Rightarrow> protocol \<Rightarrow> communicator \<Rightarrow> unit res \<times> protocol \<times> communicator" where
  "protocol_advance E (GG18_Group p) c = apsnd (apfst GG18_Group) (gg18_group_advance E p c)"
| "protocol_advance E (FROST_Group p) c = apsnd (apfst FROST_Group) (frost_group_advance E p c)"
| "protocol_advance E (Elgamal_Group p) c = apsnd (apfst Elgamal_Group) (elgamal_group_advance E p c)"
| "protocol_advance E (MuSig2_Group p) c = apsnd (apfst MuSig2_Group) (musig2_group_advance E p c)"
| "protocol_advance E (GG18_Sign p) c = apsnd (apfst GG18_Sign) (gg18_sign_advance E p c)"
| "protocol_advance E (FROST_Sign p) c = apsnd (apfst FROST_Sign) (frost_sign_advance E p c)"
| "protocol_advance E (MuSig2_Sign p) c = apsnd (apfst MuSig2_Sign) (musig2_sign_advance E p c)"
| "protocol_advance E (Elgamal_Decrypt p) c = apsnd (apfst Elgamal_Decrypt) (elgamal_decrypt_advance E p c)"

fun protocol_finalize ::
    "env \<Rightarrow> protocol \<Rightarrow> communicator \<Rightarrow> bytes option res \<times> protocol \<times> communicator" where
  "protocol_finalize E (GG18_Group p) c = apsnd (apfst GG18_Group) (gg18_group_finalize E p c)"
| "protocol_finalize E (FROST_Group p) c = apsnd (apfst FROST_Group) (frost_group_finalize E p c)"
| "protocol_finalize E (Elgamal_Group p) c = apsnd (apfst Elgamal_Group) (elgamal_group_finalize E p c)"
| "protocol_finalize E (MuSig2_Group p) c = apsnd (apfst MuSig2_Group) (musig2_group_finalize E p c)"
| "protocol_finalize E (GG18_Sign p) c = apsnd (apfst GG18_Sign) (gg18_sign_finalize E p c)"
| "protocol_finalize E (FROST_Sign p) c = apsnd (apfst FROST_Sign) (frost_sign_finalize E p c)"
| "protocol_finalize E (MuSig2_Sign p) c = apsnd (apfst MuSig2_Sign) (musig2_sign_finalize E p c)"
| "protocol_finalize E (Elgamal_Decrypt p) c = apsnd (apfst Elgamal_Decrypt) (elgamal_decrypt_finalize E p c)"

fun protocol_round :: "protocol \<Rightarrow> u16" where
  "protocol_round (GG18_Group p) = gg18_group_round p"
| "protocol_round (FROST_Group p) = frost_group_round p"
| "protocol_round (Elgamal_Group p) = elgamal_group_round p"
| "protocol_round (MuSig2_Group p) = musig2_group_round p"
| "protocol_round (GG18_Sign p) = gg18_sign_round p"
| "protocol_round (FROST_Sign p) = frost_sign_round p"
| "protocol_round (MuSig2_Sign p) = musig2_sign_round p"
| "protocol_round (Elgamal_Decrypt p) = elgamal_decrypt_round p"

fun protocol_last_round :: "env \<Rightarrow> protocol \<Rightarrow> u16" where
  "protocol_last_round E (GG18_Group p) = gg18_group_last_round E p"
| "protocol_last_round E (FROST_Group p) = frost_group_last_round E p"
| "protocol_last_round E (Elgamal_Group p) = elgamal_group_last_round E p"
| "protocol_last_round E (MuSig2_Group p) = musig2_group_last_round E p"
| "protocol_last_round E (GG18_Sign p) = gg18_sign_last_round E p"
| "protocol_last_round E (FROST_Sign p) = frost_sign_last_round E p"
| "protocol_last_round E (MuSig2_Sign p) = musig2_sign_last_round E p"
| "protocol_last_round E (Elgamal_Decrypt p) = elgamal_decrypt_last_round E p"

fun protocol_get_type :: "protocol \<Rightarrow> proto_protocol_type" where
  "protocol_get_type (GG18_Group p) = gg18_group_get_type p"
| "protocol_get_type (FROST_Group p) = frost_group_get_type p"
| "protocol_get_type (Elgamal_Group p) = elgamal_group_get_type p"
| "protocol_get_type (MuSig2_Group p) = musig2_group_get_type p"
| "protocol_get_type (GG18_Sign p) = gg18_sign_get_type p"
| "protocol_get_type (FROST_Sign p) = frost_sign_get_type p"
| "protocol_get_type (MuSig2_Sign p) = musig2_sign_get_type p"
| "protocol_get_type (Elgamal_Decrypt p) = elgamal_decrypt_get_type p"

section \<open>Choosing a protocol\<close>

fun create_keygen_protocol ::
    "proto_protocol_type \<Rightarrow> proto_key_type \<Rightarrow> u32 \<Rightarrow> u32 \<Rightarrow> u16 \<Rightarrow> string + protocol" where
  "create_keygen_protocol P_Gg18 PK_SignPdf total_shares threshold round =
     Inr (GG18_Group (gg18_group_from_model total_shares threshold round))"
| "create_keygen_protocol P_Gg18 PK_SignChallenge total_shares threshold round =
     Inr (GG18_Group (gg18_group_from_model total_shares threshold round))"
| "create_keygen_protocol P_Frost PK_SignChallenge total_shares threshold round =
     Inr (FROST_Group (frost_group_from_model total_shares threshold round))"
| "create_keygen_protocol P_Musig2 PK_SignChallenge total_shares threshold round =
     Inr (MuSig2_Group (musig2_group_from_model total_shares round))"
| "create_keygen_protocol P_Elgamal PK_Decrypt total_shares threshold round =
     Inr (Elgamal_Group (elgamal_group_from_model total_shares threshold round))"
| "create_keygen_protocol _ _ _ _ _ = Inl ''Unsupported protocol type and key type combination''"

fun create_threshold_protocol ::
    "proto_protocol_type \<Rightarrow> proto_key_type \<Rightarrow> u16 \<Rightarrow> string + protocol" where
  "create_threshold_protocol P_Gg18 PK_SignPdf round = Inr (GG18_Sign (gg18_sign_from_model round))"
| "create_threshold_protocol P_Gg18 PK_SignChallenge round =
     Inr (GG18_Sign (gg18_sign_from_model round))"
| "create_threshold_protocol P_Frost PK_SignChallenge round =
     Inr (FROST_Sign (frost_sign_from_model round))"
| "create_threshold_protocol P_Musig2 PK_SignChallenge round =
     Inr (MuSig2_Sign (musig2_sign_from_model round))"
| "create_threshold_protocol P_Elgamal PK_Decrypt round =
     Inr (Elgamal_Decrypt (elgamal_decrypt_from_model round))"
| "create_threshold_protocol _ _ _ = Inl ''Unsupported protocol type and key type combination''"

section \<open>The trait objects implement the interface\<close>

lemmas all_initialize_starts = 
  gg18_group.initialize_starts frost_group.initialize_starts elgamal_group.initialize_starts
  musig2_group.initialize_starts gg18_sign.initialize_starts frost_sign.initialize_starts
  musig2_sign.initialize_starts elgamal_decrypt.initialize_starts
lemmas all_advance_counts = 
  gg18_group.advance_counts frost_group.advance_counts elgamal_group.advance_counts
  musig2_group.advance_counts gg18_sign.advance_counts frost_sign.advance_counts
  musig2_sign.advance_counts elgamal_decrypt.advance_counts
lemmas all_advance_late = 
  gg18_group.advance_late frost_group.advance_late elgamal_group.advance_late
  musig2_group.advance_late gg18_sign.advance_late frost_sign.advance_late
  musig2_sign.advance_late elgamal_decrypt.advance_late
lemmas all_finalize_counts = 
  gg18_group.finalize_counts frost_group.finalize_counts elgamal_group.finalize_counts
  musig2_group.finalize_counts gg18_sign.finalize_counts frost_sign.finalize_counts
  musig2_sign.finalize_counts elgamal_decrypt.finalize_counts
lemmas all_finalize_off = 
  gg18_group.finalize_off frost_group.finalize_off elgamal_group.finalize_off
  musig2_group.finalize_off gg18_sign.finalize_off frost_sign.finalize_off
  musig2_sign.finalize_off elgamal_decrypt.finalize_off

interpretation dyn: protocol_impl protocol_initialize protocol_advance protocol_finalize
  protocol_round protocol_last_round protocol_get_type
proof unfold_locales
  fix E E' :: env and p p' :: protocol and c c' :: communicator and data :: bytes
  show "protocol_initialize E p c data = (p', c') \<Longrightarrow>
    protocol_round p' = 1 \<and> protocol_last_round E' p' = protocol_last_round E' p \<and>
    protocol_get_type p' = protocol_get_type p \<and> (\<exists>f. c' = send_all c f)"
    by (cases p) (auto simp: map_prod_def split: prod.splits dest!: all_initialize_starts)
  show "protocol_round p < protocol_last_round E p \<Longrightarrow>
    \<exists>p'. protocol_advance E p c = (Inr (), p', relay E c) \<and>
      protocol_round p' = protocol_round p + 1 \<and>
      protocol_last_round E p' = protocol_last_round E p \<and> protocol_get_type p' = protocol_get_type p"
    by (cases p) (auto dest!: all_advance_counts[where c = c])
  show "\<not> protocol_round p < protocol_last_round E p \<Longrightarrow> protocol_advance E p c = (Inl Panic, p, c)"
    by (cases p) (auto simp: all_advance_late)
  show "protocol_round p = protocol_last_round E p \<Longrightarrow>
    \<exists>p'. protocol_finalize E p c = (get_final_message E c, p', c) \<and>
      protocol_round p' = protocol_round p + 1 \<and>
      protocol_last_round E p' = protocol_last_round E p \<and> protocol_get_type p' = protocol_get_type p"
    by (cases p; simp; frule all_finalize_counts[where c = c]; auto)
  show "protocol_round p \<noteq> protocol_last_round E p \<Longrightarrow> protocol_finalize E p c = (Inl Panic, p, c)"
    by (cases p) (auto simp: all_finalize_off)
qed

section \<open>Properties\<close>

text \<open>C30. A run of any protocol takes exactly its number of rounds. After initialising, the protocol
  can be advanced as often as leaves the last round to finalising, whatever the clients send in
  between, and finalising then passes its assertion and reads the final message; with fewer
  advances finalising panics, with more advancing panics.\<close>

theorem protocol_run_takes_last_round_rounds:
  assumes "protocol_initialize E p c data = (p1, c1)" and "1 \<le> protocol_last_round E p"
  shows "(Suc (length gs) = unat (protocol_last_round E p) \<longrightarrow>
      (\<exists>p2 c2 p3. run_rounds (protocol_advance E) gs (p1, c1) = (Inr (), p2, c2) \<and>
        protocol_finalize E p2 c' = (get_final_message E c', p3, c'))) \<and>
    (Suc (length gs) < unat (protocol_last_round E p) \<longrightarrow>
      (\<exists>p2 c2. run_rounds (protocol_advance E) gs (p1, c1) = (Inr (), p2, c2) \<and>
        protocol_finalize E p2 c' = (Inl Panic, p2, c'))) \<and>
    (Suc (length gs) > unat (protocol_last_round E p) \<longrightarrow>
      (\<exists>pc. run_rounds (protocol_advance E) gs (p1, c1) = (Inl Panic, pc)))"
proof (intro conjI impI)
  have i: "protocol_round p1 = 1" "protocol_last_round E p1 = protocol_last_round E p"
    using dyn.initialize_starts[OF assms(1)] by auto
  show "\<exists>pc. run_rounds (protocol_advance E) gs (p1, c1) = (Inl Panic, pc)"
    if "Suc (length gs) > unat (protocol_last_round E p)"
    using that i assms(2) by (intro dyn.run_rounds_late) auto
qed (use dyn.full_run[OF assms(1)] dyn.short_run_not_final[OF assms(1)] in blast)+

theorem protocol_run_takes_last_round_rounds_witness:
  "\<exists>p2 c2 p3. run_rounds (protocol_advance sample_env) [id, id]
       (protocol_initialize sample_env (GG18_Sign gg18_sign_new) sample_comm []) = (Inr (), p2, c2) \<and>
     protocol_finalize sample_env p2 sample_comm =
       (get_final_message sample_env sample_comm, p3, sample_comm)"
proof -
  let ?p = "GG18_Sign gg18_sign_new"
  obtain p1 c1 where i: "protocol_initialize sample_env ?p sample_comm [] = (p1, c1)"
    by fastforce
  have l: "1 \<le> protocol_last_round sample_env ?p"
    "Suc (length [id, id]) = unat (protocol_last_round sample_env ?p)"
    by (simp_all add: gg18_sign_last_round_def sample_env_def)
  show ?thesis
    unfolding i using protocol_run_takes_last_round_rounds[OF i l(1), of "[id, id]"] l(2) by blast
qed

lemmas from_model_defs = gg18_group_from_model_def frost_group_from_model_def
  elgamal_group_from_model_def musig2_group_from_model_def gg18_sign_from_model_def
  frost_sign_from_model_def musig2_sign_from_model_def elgamal_decrypt_from_model_def

lemmas get_type_defs = gg18_group_get_type_def frost_group_get_type_def
  elgamal_group_get_type_def musig2_group_get_type_def gg18_sign_get_type_def
  frost_sign_get_type_def musig2_sign_get_type_def elgamal_decrypt_get_type_def

lemma create_keygen_protocolD:
  "create_keygen_protocol pt kt shares threshold round = Inr g \<Longrightarrow>
     protocol_get_type g = pt \<and> protocol_round g = round"
  by (cases pt; cases kt; auto simp: from_model_defs get_type_defs)

lemma create_threshold_protocolD:
  "create_threshold_protocol pt kt round = Inr t \<Longrightarrow>
     protocol_get_type t = pt \<and> protocol_round t = round"
  by (cases pt; cases kt; auto simp: from_model_defs get_type_defs)

lemma create_protocol_supported:
  "(\<exists>g. create_keygen_protocol pt kt shares threshold round = Inr g) \<longleftrightarrow>
     (\<exists>t. create_threshold_protocol pt kt round' = Inr t)"
  by (cases pt; cases kt; simp)

text \<open>A key type can be generated with a protocol exactly when the server can later run that
  protocol with the key, so no group is established that no task could use; both constructors give
  a protocol of the requested type at the requested round.\<close>

lemma keygen_and_threshold_protocols_agree:
  "((\<exists>g. create_keygen_protocol pt kt shares threshold round = Inr g) \<longleftrightarrow>
     (\<exists>t. create_threshold_protocol pt kt round' = Inr t)) \<and>
   (\<forall>g. create_keygen_protocol pt kt shares threshold round = Inr g \<longrightarrow>
     protocol_get_type g = pt \<and> protocol_round g = round) \<and>
   (\<forall>t. create_threshold_protocol pt kt round' = Inr t \<longrightarrow>
     protocol_get_type t = pt \<and> protocol_round t = round')"
  by (intro conjI allI impI create_protocol_supported)
    (auto dest: create_keygen_protocolD create_threshold_protocolD)

end
