(* ===== verification/Tasks.thy ===== *)
theory Tasks
  imports Protocol_Dispatch
begin

text \<open>
  The data every task shares, from \<^verbatim>\<open>src/tasks/mod.rs\<close>: what a task is about, its results, the
  phases other than voting and running, and the updates the operations of a task report.
\<close>

section \<open>Task information\<close>

record task_info =
  ti_id :: uuid
  ti_name :: string
  ti_task_type :: task_type
  ti_protocol_type :: protocol_type
  ti_key_type :: key_type
  ti_participants :: "participant list"
  ti_observers :: "bytes list"
  ti_attempts :: u32
  ti_request :: bytes

text \<open>The sum wraps at 32 bits.\<close>

definition total_shares :: "task_info \<Rightarrow> u32" where
  "total_shares ti = sum_list (map part_shares (ti_participants ti))"

section \<open>Results and phases\<close>

datatype task_result =
    GroupEstablished group
  | Signed bytes
  | SignedPdf bytes
  | Decrypted bytes

fun as_bytes :: "task_result \<Rightarrow> bytes" where
  "as_bytes (GroupEstablished g) = grp_id g"
| "as_bytes (Signed data) = data"
| "as_bytes (SignedPdf data) = data"
| "as_bytes (Decrypted data) = data"

record declined_task =
  dt_task_info :: task_info
  dt_accepts :: u32
  dt_rejects :: u32

record finished_task =
  ft_task_info :: task_info
  ft_result :: task_result
  ft_acknowledgements :: "bytes set"

definition finished_task_new :: "task_info \<Rightarrow> task_result \<Rightarrow> finished_task" where
  "finished_task_new task_info result =
     \<lparr>ft_task_info = task_info, ft_result = result, ft_acknowledgements = {}\<rparr>"

definition acknowledge :: "finished_task \<Rightarrow> bytes \<Rightarrow> finished_task" where
  "acknowledge t device_id =
     t\<lparr>ft_acknowledgements := insert device_id (ft_acknowledgements t)\<rparr>"

record failed_task =
  xt_task_info :: task_info
  xt_reason :: string

section \<open>Updates\<close>

datatype round_update =
    Listen
  | GroupCertificatesSent
  | NextRound u16
  | Round_Finished u16 finished_task
  | Round_Failed failed_task

datatype decision_update =
    Undecided
  | Accepted
  | Decision_Declined declined_task

section \<open>What a task becomes once accepted\<close>

datatype running_task_context =
    Ctx_Group u32 "string option"
  | Ctx_SignChallenge group bytes
  | Ctx_SignPdf group bytes
  | Ctx_Decrypt group bytes

end
