(* ===== verification/Running_Tasks.thy ===== *)
theory Running_Tasks
  imports Tasks
begin

text \<open>
  The interface \<^verbatim>\<open>RunningTask\<close> of \<^verbatim>\<open>src/tasks/mod.rs\<close> and what follows from it for every kind of
  task: how a complete round of deliveries drives a task, and how a whole run ends.
\<close>

section \<open>Runs of deliveries\<close>

text \<open>A delivery is a device with its messages; a round holds one delivery of each active device.\<close>

type_synonym delivery = "bytes \<times> client_message list"

fun run_updates ::
    "(bytes \<Rightarrow> client_message list \<Rightarrow> ('s, round_update) eff) \<Rightarrow> delivery list \<Rightarrow>
     ('s, round_update list) eff" where
  "run_updates update [] s = (Inr [], s)"
| "run_updates update ((device_id, messages) # ds) s =
     (case update device_id messages s of
        (Inl e, s') \<Rightarrow> (Inl e, s')
      | (Inr u, s') \<Rightarrow>
          (case run_updates update ds s' of
             (Inl e, s'') \<Rightarrow> (Inl e, s'')
           | (Inr us, s'') \<Rightarrow> (Inr (u # us), s'')))"

definition delivery_ok :: "communicator \<Rightarrow> delivery \<Rightarrow> bool" where
  "delivery_ok c = (\<lambda>(device_id, messages).
     messages \<noteq> [] \<and> length messages = length (identifier_to_indices c device_id) \<and>
     list_all (message_well_formed c) messages)"

definition round_ok :: "communicator \<Rightarrow> delivery list \<Rightarrow> bool" where
  "round_ok c ds =
     (distinct (map fst ds) \<and> fst ` set ds = (\<lambda>e. dev_id (snd e)) ` set (comm_active_shares c) \<and>
      list_all (delivery_ok c) ds)"

lemma run_updates_append:
  "run_updates up (ds @ es) s =
     (case run_updates up ds s of
        (Inl e, s') \<Rightarrow> (Inl e, s')
      | (Inr us, s') \<Rightarrow>
          (case run_updates up es s' of
             (Inl e, s'') \<Rightarrow> (Inl e, s'') | (Inr vs, s'') \<Rightarrow> (Inr (us @ vs), s'')))"
  by (induction up ds s rule: run_updates.induct) (auto split: prod.splits sum.splits)

text \<open>Two communicators with the same shares, threshold and protocol accept the same deliveries.\<close>

definition same_parties :: "communicator \<Rightarrow> communicator \<Rightarrow> bool" where
  "same_parties c c' =
     (comm_active_shares c' = comm_active_shares c \<and> comm_threshold c' = comm_threshold c \<and>
      comm_protocol_type c' = comm_protocol_type c)"

lemma same_parties_refl [simp]: "same_parties c c"
  by (simp add: same_parties_def)

lemma same_parties_trans: "same_parties a b \<Longrightarrow> same_parties b c \<Longrightarrow> same_parties a c"
  by (simp add: same_parties_def)

lemma same_parties_ops [simp]:
  "same_parties c (send_all c f)" "same_parties c (relay E c)" "same_parties c (clear_input c)"
  by (simp_all add: same_parties_def)

lemma same_parties_receive: "receive_messages c d ms = (r, c') \<Longrightarrow> same_parties c c'"
  by (auto simp: same_parties_def dest: receive_messages_fields)

lemma same_parties_indices:
  "same_parties c c' \<Longrightarrow> identifier_to_indices c' d = identifier_to_indices c d"
  by (simp add: same_parties_def identifier_to_indices_def)

lemma same_parties_ok:
  assumes "same_parties c c'"
  shows "delivery_ok c' = delivery_ok c" "round_ok c' = round_ok c"
proof -
  have "message_well_formed c' = message_well_formed c"
    using assms by (simp add: same_parties_def message_well_formed_def fun_eq_iff)
  then show "delivery_ok c' = delivery_ok c"
    unfolding delivery_ok_def same_parties_indices[OF assms] by simp
  then show "round_ok c' = round_ok c"
    using assms by (intro ext) (simp add: round_ok_def same_parties_def)
qed

lemma delivery_ok_received:
  "delivery_ok c (d, ms) \<Longrightarrow> \<exists>c'. receive_messages c d ms = (Inr True, c')"
  by (simp add: delivery_ok_def receive_messages_def)

text \<open>The communicator once the deliveries are received.\<close>

fun received :: "communicator \<Rightarrow> delivery list \<Rightarrow> communicator" where
  "received c [] = c"
| "received c ((d, ms) # ds) = received (snd (receive_messages c d ms)) ds"

lemma received_parties: "same_parties c (received c ds)"
proof (induction c ds rule: received.induct)
  case (2 c d ms ds)
  then show ?case
    by (simp, metis same_parties_receive same_parties_trans prod.collapse)
qed simp

lemma received_inv: "comm_inv c \<Longrightarrow> comm_inv (received c ds)"
proof (induction c ds rule: received.induct)
  case (2 c d ms ds)
  then show ?case
    by (metis comm_inv_receive received.simps(2) prod.collapse)
qed simp

lemma received_snoc: "received c (es @ [(d, ms)]) = snd (receive_messages (received c es) d ms)"
  by (induction c es rule: received.induct) auto

lemma waiting_for_received:
  assumes "comm_inv c" "list_all (delivery_ok c) ds"
  shows "waiting_for (received c ds) f \<longleftrightarrow> f \<notin> fst ` set ds \<and> waiting_for c f"
  using assms
proof (induction c ds rule: received.induct)
  case (2 c e ms es)
  obtain c2 where rc: "receive_messages c e ms = (Inr True, c2)"
    using 2(3) by (auto dest: delivery_ok_received)
  then show ?case
    using 2 comm_inv_receive[OF 2(2) rc] waiting_for_receive[OF 2(2) rc]
      same_parties_ok(1)[OF same_parties_receive[OF rc]] by auto
qed simp

lemma active_waited:
  assumes "comm_inv c" "comm_input c = []"
  shows "waiting_for c d \<longleftrightarrow> d \<in> (\<lambda>e. dev_id (snd e)) ` set (comm_active_shares c)"
proof -
  have "waiting_for c d \<longleftrightarrow> set (identifier_to_indices c d) \<noteq> {}"
    using assms(2) by (simp add: waiting_for_iff)
  then show ?thesis by (force simp: set_identifier_to_indices)
qed

section \<open>The final round\<close>

text \<open>The deliveries of a round agree on a value: each message is a broadcast that verifies to it.\<close>

definition agrees :: "env \<Rightarrow> communicator \<Rightarrow> delivery list \<Rightarrow> bytes \<Rightarrow> bool" where
  "agrees E c ds m =
     (\<forall>(d, ms) \<in> set ds. \<forall>(idx, msg) \<in> set (zip (identifier_to_indices c d) ms).
        verified E c idx msg = Some m)"

lemma same_parties_agrees:
  assumes "same_parties c c'"
  shows "verified E c' = verified E c" "agrees E c' = agrees E c"
proof -
  show "verified E c' = verified E c"
    using assms by (intro ext) (simp add: verified_def same_parties_def)
  then show "agrees E c' = agrees E c"
    by (intro ext) (simp add: agrees_def same_parties_indices[OF assms])
qed

lemma received_input:
  assumes "map_of (comm_input (received c ds)) s = Some msg" "comm_inv c"
  shows "map_of (comm_input c) s = Some msg \<or>
    (\<exists>(d, ms) \<in> set ds. (s, msg) \<in> set (zip (identifier_to_indices c d) ms))"
  using assms
proof (induction c ds rule: received.induct)
  case (2 c d ms ds)
  obtain r c' where rc: "receive_messages c d ms = (r, c')" by fastforce
  have sp: "same_parties c c'" using rc by (rule same_parties_receive)
  have IH: "map_of (comm_input c') s = Some msg \<or>
      (\<exists>(d, ms) \<in> set ds. (s, msg) \<in> set (zip (identifier_to_indices c d) ms))"
    using 2 rc comm_inv_receive[OF 2(3) rc] by (simp add: same_parties_indices[OF sp])
  moreover have "map_of (comm_input c) s = Some msg \<or> (s, msg) \<in> set (zip (identifier_to_indices c d) ms)"
    if "map_of (comm_input c') s = Some msg"
  proof (cases "r = Inr True")
    case True
    note t = receive_messages_TrueD[OF rc[unfolded True]]
    have "distinct (map fst (zip (identifier_to_indices c d) ms))"
      using 2(3) t(2) by (simp add: comm_invD)
    with that t(4) show ?thesis
      by (auto simp: map_of_hm_extend map_add_Some_iff dest: map_of_SomeD)
  qed (use that receive_messages_not_TrueD[OF rc] in auto)
  ultimately show ?case by auto
qed simp

lemma get_final_message_received:
  assumes "comm_inv c" "comm_input c = []" "round_ok c ds" "agrees E c ds m"
  shows "get_final_message E (received c ds) = Inr (Some m)"
proof -
  note inv = received_inv[OF assms(1), of ds]
  have "\<not> waiting_for (received c ds) d" for d
    using waiting_for_received[OF assms(1)] active_waited[OF assms(1,2)] assms(3)
    by (auto simp: round_ok_def)
  then have "round_received (received c ds)"
    using inv by (simp add: round_received_iff_not_waiting)
  then have "comm_input (received c ds) \<noteq> []"
    using comm_invD(6)[OF inv] by (auto simp: round_received_def)
  moreover have "verified E (received c ds) s msg = Some m"
    if "map_of (comm_input (received c ds)) s = Some msg" for s msg
    using received_input[OF that assms(1)] assms(2,4)
    by (auto simp: agrees_def same_parties_agrees[OF received_parties])
  ultimately show ?thesis
    using inv by (simp add: get_final_message_Some_iff)
qed

section \<open>The interface\<close>

text \<open>The error of a delivery from a device that is not waited for.\<close>

definition not_waiting_error :: error where
  "not_waiting_error = GeneralProtocolError ''Wasn't waiting for a message from this ID.''"

text \<open>How a call that (re)starts the protocol may end: the protocol is at round 1 and every share has
  an initial message, or the task has failed, or the call panicked.\<close>

definition started ::
    "task_info \<Rightarrow> communicator \<Rightarrow> communicator \<Rightarrow> u16 \<Rightarrow> round_update res \<Rightarrow> bool" where
  "started ti c c' round r =
     ((\<exists>f. c' = send_all c f \<and> round = 1 \<and> r = Inr (NextRound 1)) \<or>
      c' = c \<and> ((\<exists>x. r = Inr (Round_Failed x) \<and> xt_task_info x = ti) \<or> r = Inl Panic))"

text \<open>How the call that finalises the protocol may end, \<^verbatim>\<open>fm\<close> being the final message.\<close>

definition finalized :: "task_info \<Rightarrow> u16 \<Rightarrow> bytes option res \<Rightarrow> round_update res \<Rightarrow> bool" where
  "finalized ti round fm r =
     (case r of
        Inr (Round_Finished n f) \<Rightarrow> n = round + 1 \<and> ft_task_info f = ti \<and>
          ft_acknowledgements f = {} \<and> (\<exists>m. fm = Inr (Some m))
      | Inr (Round_Failed x) \<Rightarrow> xt_task_info x = ti \<and> fm = Inr None
      | Inr _ \<Rightarrow> False
      | Inl e \<Rightarrow> fm \<noteq> Inr None \<and> (\<forall>e'. fm = Inl e' \<longrightarrow> e = e'))"

text \<open>What an update says of the task it is about.\<close>

definition reports :: "task_info \<Rightarrow> round_update res \<Rightarrow> bool" where
  "reports ti r =
     (case r of
        Inr (Round_Failed x) \<Rightarrow> xt_task_info x = ti
      | Inr (Round_Finished n f) \<Rightarrow> ft_task_info f = ti \<and> ft_acknowledgements f = {}
      | Inr GroupCertificatesSent \<Rightarrow> False
      | _ \<Rightarrow> True)"

lemma reports_finalized: "finalized ti round fm r \<Longrightarrow> reports ti r"
  by (auto simp: finalized_def reports_def split: sum.splits round_update.splits)

text \<open>
  A task kind gives its information, communicator and protocol. It is \<^verbatim>\<open>ready\<close> once it accepts
  deliveries, and \<^verbatim>\<open>direct\<close> when its result is the final message itself, with no helper involved.
\<close>

locale running_task_impl =
  fixes info :: "'t \<Rightarrow> task_info"
    and comm :: "'t \<Rightarrow> communicator"
    and prot :: "'t \<Rightarrow> protocol"
    and ready :: "'t \<Rightarrow> bool"
    and direct :: "'t \<Rightarrow> bool"
    and set_comm :: "communicator \<Rightarrow> 't \<Rightarrow> 't"
    and update :: "env \<Rightarrow> bytes \<Rightarrow> client_message list \<Rightarrow> ('t \<times> world, round_update) eff"
    and next_round :: "env \<Rightarrow> ('t \<times> world, round_update) eff"
    and restart :: "env \<Rightarrow> ('t \<times> world, round_update) eff"
  assumes set_comm: "comm (set_comm c t) = c" "info (set_comm c t) = info t"
      "prot (set_comm c t) = prot t" "ready (set_comm c t) = ready t"
      "direct (set_comm c t) = direct t"
      "set_comm c (set_comm c' t) = set_comm c t" "set_comm (comm t) t = t"
    and update_refused: "\<not> waiting_for (comm t) d \<Longrightarrow>
      update E d ms (t, w) = (Inl (Err not_waiting_error), t, w)"
    and update_receives: "ready t \<Longrightarrow> waiting_for (comm t) d \<Longrightarrow>
      receive_messages (comm t) d ms = (Inr b, c) \<Longrightarrow>
      update E d ms (t, w) =
        (if round_received c \<and> protocol_round (prot t) \<le> protocol_last_round E (prot t)
         then next_round E (set_comm c t, w) else (Inr Listen, set_comm c t, w))"
    and update_panics: "ready t \<Longrightarrow> waiting_for (comm t) d \<Longrightarrow>
      receive_messages (comm t) d ms = (Inl e, c) \<Longrightarrow>
      update E d ms (t, w) = (Inl e, set_comm c t, w)"
    and update_unready: "\<not> ready t \<Longrightarrow> waiting_for (comm t) d \<Longrightarrow>
      update E d ms (t, w) = (Inl Panic, t, w)"
    and next_starts: "ready t \<Longrightarrow> protocol_round (prot t) = 0 \<Longrightarrow>
      next_round E (t, w) = (r, t', w') \<Longrightarrow>
      info t' = info t \<and> ready t' \<and> protocol_last_round E (prot t') = protocol_last_round E (prot t) \<and>
      started (info t) (comm t) (comm t') (protocol_round (prot t')) r"
    and next_advances: "ready t \<Longrightarrow> 0 < protocol_round (prot t) \<Longrightarrow>
      protocol_round (prot t) < protocol_last_round E (prot t) \<Longrightarrow>
      \<exists>t'. next_round E (t, w) = (Inr (NextRound (protocol_round (prot t) + 1)), t', w) \<and>
        comm t' = relay E (comm t) \<and> protocol_round (prot t') = protocol_round (prot t) + 1 \<and>
        protocol_last_round E (prot t') = protocol_last_round E (prot t) \<and> info t' = info t \<and>
        ready t' \<and> direct t' = direct t"
    and next_starts_direct: "ready t \<Longrightarrow> direct t \<Longrightarrow> protocol_round (prot t) = 0 \<Longrightarrow>
      \<exists>t' f. next_round E (t, w) = (Inr (NextRound 1), t', w) \<and> comm t' = send_all (comm t) f \<and>
        protocol_round (prot t') = 1 \<and>
        protocol_last_round E (prot t') = protocol_last_round E (prot t) \<and> info t' = info t \<and>
        ready t' \<and> direct t'"
    and next_finalizes: "ready t \<Longrightarrow> 0 < protocol_last_round E (prot t) \<Longrightarrow>
      protocol_round (prot t) = protocol_last_round E (prot t) \<Longrightarrow>
      next_round E (t, w) = (r, t', w') \<Longrightarrow>
      info t' = info t \<and> ready t' \<and> comm t' \<in> {comm t, clear_input (comm t)} \<and>
      finalized (info t) (protocol_round (prot t)) (get_final_message E (comm t)) r"
    and next_delivers: "ready t \<Longrightarrow> direct t \<Longrightarrow> 0 < protocol_last_round E (prot t) \<Longrightarrow>
      protocol_round (prot t) = protocol_last_round E (prot t) \<Longrightarrow>
      get_final_message E (comm t) = Inr (Some m) \<Longrightarrow>
      \<exists>f t'. next_round E (t, w) = (Inr (Round_Finished (protocol_round (prot t) + 1) f), t', w) \<and>
        as_bytes (ft_result f) = m"
    and restart_starts: "restart E (t, w) = (r, t', w') \<Longrightarrow>
      (r = Inl Panic \<and> t' = t \<or>
       info t' = (info t)\<lparr>ti_attempts := ti_attempts (info t) + 1\<rparr> \<and>
       started (info t') (comm t) (comm t') (protocol_round (prot t')) r)"
begin

lemma next_round_keeps:
  assumes "ready t" "protocol_round (prot t) \<le> protocol_last_round E (prot t)"
    and "next_round E (t, w) = (r, t', w')"
  shows "info t' = info t \<and> ready t' \<and> same_parties (comm t) (comm t') \<and>
    (comm_inv (comm t) \<longrightarrow> comm_inv (comm t')) \<and> reports (info t) r"
proof -
  consider "protocol_round (prot t) = 0"
    | "0 < protocol_round (prot t)" "protocol_round (prot t) < protocol_last_round E (prot t)"
    | "0 < protocol_last_round E (prot t)" "protocol_round (prot t) = protocol_last_round E (prot t)"
    using assms(2) word_gt_0 by fastforce
  then show ?thesis
  proof cases
    case 1
    then show ?thesis
      using next_starts[OF assms(1) 1 assms(3)] by (auto simp: started_def reports_def)
  next
    case 2
    then show ?thesis
      using next_advances[OF assms(1) 2, of w] assms(3) by (auto simp: reports_def)
  next
    case 3
    then show ?thesis
      using next_finalizes[OF assms(1) 3 assms(3)] reports_finalized by auto
  qed
qed

lemma update_keeps:
  assumes "update E d ms (t, w) = (r, t', w')"
  shows "info t' = info t \<and> (ready t \<longrightarrow> ready t') \<and> same_parties (comm t) (comm t') \<and>
    (comm_inv (comm t) \<longrightarrow> comm_inv (comm t')) \<and> reports (info t) r"
  supply set_comm [simp] reports_def [simp]
proof (cases "waiting_for (comm t) d \<and> ready t")
  case wr: True
  obtain rb c where rc: "receive_messages (comm t) d ms = (rb, c)" by fastforce
  have c: "comm_inv (comm t) \<longrightarrow> comm_inv c" "same_parties (comm t) c"
    using comm_inv_receive[OF _ rc] same_parties_receive[OF rc] by simp_all
  show ?thesis
  proof (cases rb)
    case (Inl e)
    then show ?thesis
      using update_panics[of t d ms e c E w] wr rc c assms by auto
  next
    case (Inr b)
    note u = update_receives[of t d ms b c E w]
    show ?thesis
    proof (cases "round_received c \<and> protocol_round (prot t) \<le> protocol_last_round E (prot t)")
      case True
      then have "next_round E (set_comm c t, w) = (r, t', w')"
        using u wr rc Inr assms by simp
      from next_round_keeps[OF _ _ this] True wr c show ?thesis
        using same_parties_trans by fastforce
    qed (use u wr rc Inr assms c in auto)
  qed
next
  case False
  then have "r = Inl (Err not_waiting_error) \<and> t' = t \<or> r = Inl Panic \<and> t' = t"
    using assms update_refused[of t d E ms w] update_unready[of t d E ms w] by auto
  then show ?thesis by auto
qed

text \<open>Deliveries that leave some device awaited only fill the communicator.\<close>

lemma deliveries_listen:
  assumes "ready t" "comm_inv (comm t)" "distinct (map fst ds)" "list_all (delivery_ok (comm t)) ds"
    and "\<And>d. d \<in> fst ` set ds \<Longrightarrow> waiting_for (comm t) d"
    and "waiting_for (comm t) e" "e \<notin> fst ` set ds"
  shows "run_updates (update E) ds (t, w) =
    (Inr (replicate (length ds) Listen), set_comm (received (comm t) ds) t, w)"
  supply set_comm [simp]
  using assms
proof (induction ds arbitrary: t)
  case (Cons x ds)
  obtain d ms where x: "x = (d, ms)" by fastforce
  obtain c where rc: "receive_messages (comm t) d ms = (Inr True, c)"
    using Cons.prems(4) by (auto simp: x dest: delivery_ok_received)
  have c: "comm_inv c" "same_parties (comm t) c"
    using comm_inv_receive[OF Cons.prems(2) rc] same_parties_receive[OF rc] by simp_all
  have w: "waiting_for c f \<longleftrightarrow> f \<noteq> d \<and> waiting_for (comm t) f" for f
    using waiting_for_receive[OF Cons.prems(2) rc] .
  then have "\<not> round_received c"
    using Cons.prems(6,7) c(1) by (auto simp: round_received_iff_not_waiting x)
  then have u: "update E d ms (t, w) = (Inr Listen, set_comm c t, w)"
    using update_receives[OF Cons.prems(1) _ rc] Cons.prems(5) by (simp add: x)
  have "run_updates (update E) ds (set_comm c t, w) =
      (Inr (replicate (length ds) Listen), set_comm (received c ds) (set_comm c t), w)"
    using Cons.prems c w by (intro Cons.IH[THEN trans]) (auto simp: x same_parties_ok)
  with u rc show ?case by (simp add: x)
qed simp

lemma full_round:
  assumes "ready t" "comm_inv (comm t)" "comm_input (comm t) = []" "round_ok (comm t) ds"
    and "protocol_round (prot t) \<le> protocol_last_round E (prot t)"
  shows "run_updates (update E) ds (t, w) =
    (case next_round E (set_comm (received (comm t) ds) t, w) of
       (Inl e, s) \<Rightarrow> (Inl e, s)
     | (Inr u, s) \<Rightarrow> (Inr (replicate (length ds - 1) Listen @ [u]), s))"
  supply set_comm [simp]
proof -
  have act: "waiting_for (comm t) d \<longleftrightarrow> d \<in> fst ` set ds" for d
    using active_waited[OF assms(2,3)] assms(4) by (simp add: round_ok_def)
  have "comm_active_shares (comm t) \<noteq> []" using comm_invD(6)[OF assms(2)] by auto
  then have "ds \<noteq> []" using assms(4) by (auto simp: round_ok_def)
  then obtain es d ms where ds: "ds = es @ [(d, ms)]"
    by (metis prod.exhaust rev_exhaust)
  let ?c = "received (comm t) es" and ?t = "set_comm (received (comm t) es) t"
  have ok: "distinct (map fst es)" "list_all (delivery_ok (comm t)) es" "d \<notin> fst ` set es"
    "delivery_ok (comm t) (d, ms)"
    using assms(4) by (auto simp: round_ok_def ds)
  have l: "run_updates (update E) es (t, w) = (Inr (replicate (length es) Listen), ?t, w)"
    using act ok by (intro deliveries_listen[OF assms(1,2), where e = d]) (auto simp: ds)
  have wt: "waiting_for ?c f \<longleftrightarrow> f = d" for f
    using waiting_for_received[OF assms(2) ok(2)] act ok(3) by (auto simp: ds)
  obtain c' where rc: "receive_messages ?c d ms = (Inr True, c')"
    using ok(4) delivery_ok_received same_parties_ok(1)[OF received_parties] by metis
  have "comm_inv c'"
    using comm_inv_receive[OF received_inv[OF assms(2)] rc] .
  then have "round_received c'"
    using waiting_for_receive[OF received_inv[OF assms(2)] rc] wt
    by (simp add: round_received_iff_not_waiting)
  then have u: "update E d ms (?t, w) = next_round E (set_comm c' t, w)"
    using update_receives[of ?t d ms True c' E w] assms(1,5) rc wt by simp
  have "received (comm t) ds = c'"
    using rc by (simp add: ds received_snoc)
  with l u show ?thesis
    by (simp add: ds run_updates_append split: prod.splits sum.splits)
qed

lemma next_counts:
  assumes "ready t" "direct t \<or> 0 < protocol_round (prot t)"
    and "protocol_round (prot t) < protocol_last_round E (prot t)"
  shows "\<exists>t' f. next_round E (t, w) = (Inr (NextRound (protocol_round (prot t) + 1)), t', w) \<and>
    comm t' = send_all (comm t) f \<and> protocol_round (prot t') = protocol_round (prot t) + 1 \<and>
    protocol_last_round E (prot t') = protocol_last_round E (prot t) \<and> info t' = info t \<and>
    ready t' \<and> direct t' = direct t"
proof (cases "protocol_round (prot t) = 0")
  case True
  then show ?thesis
    using next_starts_direct[of t E w] assms(1,2) by auto
next
  case False
  then show ?thesis
    using next_advances[of t E w] assms(1,3) relay_is_send_all[of E "comm t"]
    by (metis word_gt_0)
qed

text \<open>Rounds of deliveries up to the last round: each is announced once, in order.\<close>

lemma rounds_advance:
  assumes "ready t" "comm_inv (comm t)" "comm_input (comm t) = []"
    and "direct t \<or> 0 < protocol_round (prot t)"
    and "unat (protocol_round (prot t)) + length rounds \<le> unat (protocol_last_round E (prot t))"
    and "list_all (round_ok (comm t)) rounds"
  shows "\<exists>us t'. run_updates (update E) (concat rounds) (t, w) = (Inr us, t', w) \<and>
    filter (\<lambda>u. u \<noteq> Listen) us = map (\<lambda>i. NextRound (word_of_nat i))
      [Suc (unat (protocol_round (prot t)))..<Suc (unat (protocol_round (prot t)) + length rounds)] \<and>
    unat (protocol_round (prot t')) = unat (protocol_round (prot t)) + length rounds \<and>
    protocol_last_round E (prot t') = protocol_last_round E (prot t) \<and>
    info t' = info t \<and> ready t' \<and> comm_inv (comm t') \<and> comm_input (comm t') = [] \<and>
    same_parties (comm t) (comm t') \<and> direct t' = direct t"
  supply set_comm [simp]
  using assms
proof (induction rounds arbitrary: t)
  case (Cons ds rounds)
  let ?t = "set_comm (received (comm t) ds) t"
  let ?k = "unat (protocol_round (prot t))"
  have lt: "protocol_round (prot t) < protocol_last_round E (prot t)"
    using Cons.prems(5) by (simp add: word_less_nat_alt)
  obtain t' f where t': "next_round E (?t, w) = (Inr (NextRound (protocol_round (prot t) + 1)), t', w)"
    "comm t' = send_all (received (comm t) ds) f" "protocol_round (prot t') = protocol_round (prot t) + 1"
    "protocol_last_round E (prot t') = protocol_last_round E (prot t)" "info t' = info t" "ready t'"
    "direct t' = direct t"
    using next_counts[of ?t E w] lt Cons.prems(1,4) by auto
  have k: "unat (protocol_round (prot t')) = Suc ?k"
    using lt t'(3) by (simp add: unat_Suc_lt)
  then have n: "NextRound (protocol_round (prot t) + 1) = NextRound (word_of_nat (Suc ?k))"
    using t'(3) by (metis of_nat_unat ucast_id)
  have run: "run_updates (update E) ds (t, w) =
      (Inr (replicate (length ds - 1) Listen @ [NextRound (word_of_nat (Suc ?k))]), t', w)"
    using full_round[OF Cons.prems(1-3), of ds E w] Cons.prems(6) lt t'(1) n by simp
  have sp: "same_parties (comm t) (comm t')"
    using received_parties same_parties_ops(1) same_parties_trans t'(2) by metis
  have pos: "direct t' \<or> 0 < protocol_round (prot t')" using k by (simp add: word_gt_0_no word_less_nat_alt)
  have inv: "comm_inv (comm t')" "comm_input (comm t') = []"
    using Cons.prems(2) by (simp_all add: t'(2) received_inv)
  obtain us t'' where IH: "run_updates (update E) (concat rounds) (t', w) = (Inr us, t'', w)"
    "filter (\<lambda>u. u \<noteq> Listen) us = map (\<lambda>i. NextRound (word_of_nat i))
      [Suc (Suc ?k)..<Suc (Suc ?k + length rounds)]"
    "unat (protocol_round (prot t'')) = Suc ?k + length rounds"
    "protocol_last_round E (prot t'') = protocol_last_round E (prot t)"
    "info t'' = info t" "ready t''" "comm_inv (comm t'')" "comm_input (comm t'') = []"
    "same_parties (comm t') (comm t'')" "direct t'' = direct t"
    using Cons.IH[OF t'(6) inv pos] Cons.prems(5,6) k t'(4,5,7) same_parties_ok(2)[OF sp] by auto
  have "[Suc ?k..<Suc (?k + length (ds # rounds))] =
      Suc ?k # [Suc (Suc ?k)..<Suc (Suc ?k + length rounds)]"
    by (subst upt_conv_Cons) (simp_all del: upt_Suc)
  with run IH same_parties_trans[OF sp IH(9)] show ?case
    by (simp add: run_updates_append del: upt_Suc)
qed simp

text \<open>A whole run: every round complete, the last one in agreement.\<close>

lemma whole_run:
  assumes "ready t" "direct t" "comm_inv (comm t)" "comm_input (comm t) = []"
    and "0 < protocol_last_round E (prot t)"
    and "unat (protocol_round (prot t)) + length rounds = unat (protocol_last_round E (prot t))"
    and "list_all (round_ok (comm t)) rounds" "round_ok (comm t) final" "agrees E (comm t) final m"
  shows "\<exists>us f s. run_updates (update E) (concat rounds @ final) (t, w) =
      (Inr (us @ [Round_Finished (protocol_last_round E (prot t) + 1) f]), s) \<and>
    filter (\<lambda>u. u \<noteq> Listen) us = map (\<lambda>i. NextRound (word_of_nat i))
      [Suc (unat (protocol_round (prot t)))..<Suc (unat (protocol_last_round E (prot t)))] \<and>
    as_bytes (ft_result f) = m \<and> ft_task_info f = info t"
proof -
  obtain us t' where r: "run_updates (update E) (concat rounds) (t, w) = (Inr us, t', w)"
    "filter (\<lambda>u. u \<noteq> Listen) us = map (\<lambda>i. NextRound (word_of_nat i))
      [Suc (unat (protocol_round (prot t)))..<Suc (unat (protocol_round (prot t)) + length rounds)]"
    "unat (protocol_round (prot t')) = unat (protocol_round (prot t)) + length rounds"
    "protocol_last_round E (prot t') = protocol_last_round E (prot t)" "info t' = info t" "ready t'"
    "comm_inv (comm t')" "comm_input (comm t') = []" "same_parties (comm t) (comm t')"
    "direct t' = direct t"
    using rounds_advance[OF assms(1,3,4) disjI1[OF assms(2)] _ assms(7), of E w] assms(6) by auto
  let ?c = "received (comm t') final" and ?t = "set_comm (received (comm t') final) t'"
  have ok: "round_ok (comm t') final" "agrees E (comm t') final m"
    using assms(8,9) r(9) by (simp_all add: same_parties_ok same_parties_agrees)
  have last: "protocol_round (prot t') = protocol_last_round E (prot t')"
    using r(3,4) assms(6) by (simp add: word_unat_eq_iff)
  have pos: "0 < protocol_last_round E (prot t')"
    using r(4) assms(5) by simp
  have fm: "get_final_message E ?c = Inr (Some m)"
    using get_final_message_received[OF r(7,8) ok] .
  obtain f s where n: "next_round E (?t, w) =
      (Inr (Round_Finished (protocol_last_round E (prot t) + 1) f), s, w)" "as_bytes (ft_result f) = m"
    using next_delivers[of ?t E m w] r(4,6,10) assms(2) pos last fm by (auto simp: set_comm)
  have "ft_task_info f = info t"
    using next_finalizes[OF _ _ _ n(1)] r(5,6) pos last by (simp add: set_comm finalized_def)
  then show ?thesis
    using full_round[OF r(6-8) ok(1), of E w] last r(1,2) n assms(6)
    by (intro exI[of _ "us @ replicate (length final - 1) Listen"] exI[of _ f] exI[of _ "(s, w)"])
      (simp add: run_updates_append del: upt_Suc)
qed

end

end
