(* ===== verification/Group_Task.thy ===== *)
theory Group_Task
  imports Running_Tasks
begin

text \<open>The task that generates a group key, \<^verbatim>\<open>GroupTask\<close> of \<^verbatim>\<open>src/tasks/group.rs\<close>.\<close>

section \<open>State and operations\<close>

record group_task =
  gt_task_info :: task_info
  gt_threshold :: u32
  gt_communicator :: communicator
  gt_protocol :: protocol
  gt_note :: "string option"
  gt_certificates_sent :: bool

text \<open>The participants are sorted by the identifier of their device.\<close>

definition group_task_try_new ::
    "task_info \<Rightarrow> u32 \<Rightarrow> string option \<Rightarrow> communicator \<Rightarrow> string + group_task" where
  "group_task_try_new task_info threshold note communicator =
     (let shares = total_shares task_info
      in case create_keygen_protocol (proto_of_protocol_type (ti_protocol_type task_info))
             (proto_of_key_type (ti_key_type task_info)) shares threshold 0 of
           Inl e \<Rightarrow> Inl e
         | Inr protocol \<Rightarrow>
             if shares < 1 then Inl ''Invalid input''
             else if \<not> check_threshold (protocol_get_type protocol) threshold shares then Inl ''Invalid input''
             else Inr \<lparr>gt_task_info = task_info\<lparr>ti_participants :=
                     sort_key (\<lambda>p. device_identifier (part_device p)) (ti_participants task_info)\<rparr>,
                   gt_threshold = threshold, gt_communicator = communicator, gt_protocol = protocol,
                   gt_note = note, gt_certificates_sent = False\<rparr>)"

definition group_task_from_model ::
    "task_info \<Rightarrow> task_model \<Rightarrow> communicator \<Rightarrow> group_task res" where
  "group_task_from_model task_info model communicator =
     res_bind (res_of_string_result (create_keygen_protocol
         (proto_of_protocol_type (tm_protocol_type model)) (proto_of_key_type (tm_key_type model))
         (total_shares task_info) (tm_threshold model) (ucast (tm_protocol_round model))))
       (\<lambda>protocol.
          case tm_group_certificates_sent model of
            None \<Rightarrow> Inl (Err (PersistenceError (DataInconsistencyError
              ''certificates_sent flag missing in group task'')))
          | Some certificates_sent \<Rightarrow>
              Inr \<lparr>gt_task_info = task_info, gt_threshold = tm_threshold model,
                gt_communicator = communicator, gt_protocol = protocol, gt_note = tm_note model,
                gt_certificates_sent = certificates_sent\<rparr>)"

definition group_task_increment_attempt_count :: "group_task \<Rightarrow> group_task" where
  "group_task_increment_attempt_count t =
     t\<lparr>gt_task_info := (gt_task_info t)\<lparr>ti_attempts := ti_attempts (gt_task_info t) + 1\<rparr>\<rparr>"

definition group_task_start_task :: "env \<Rightarrow> (group_task \<times> world, round_update) eff" where
  "group_task_start_task E = (\<lambda>(t, w).
     case protocol_initialize E (gt_protocol t) (gt_communicator t) [] of (p, c) \<Rightarrow>
       (Inr (NextRound (protocol_round p)), t\<lparr>gt_protocol := p, gt_communicator := c\<rparr>, w))"

definition group_task_advance_task :: "env \<Rightarrow> (group_task \<times> world, round_update) eff" where
  "group_task_advance_task E = (\<lambda>(t, w).
     case protocol_advance E (gt_protocol t) (gt_communicator t) of (r, p, c) \<Rightarrow>
       (case r of Inl e \<Rightarrow> Inl e | Inr _ \<Rightarrow> Inr (NextRound (protocol_round p)),
        t\<lparr>gt_protocol := p, gt_communicator := c\<rparr>, w))"

definition issue_certificate :: "env \<Rightarrow> string \<Rightarrow> bytes \<Rightarrow> (world, bytes) eff" where
  "issue_certificate E name public_key w =
     (if length public_key \<noteq> 65 then (Inl Panic, w)
      else case next_call w of (n, w') \<Rightarrow>
        (case cert_helper E n name (hex_encode E public_key) of
           Inl e \<Rightarrow> (Inl (Err (IoError e)), w')
         | Inr certificate \<Rightarrow> (Inr certificate, w')))"

definition established_group :: "group_task \<Rightarrow> bytes \<Rightarrow> bytes option \<Rightarrow> group" where
  "established_group t key certificate =
     \<lparr>grp_id = key, grp_name = ti_name (gt_task_info t), grp_threshold = gt_threshold t,
      grp_protocol = protocol_type_of_proto (protocol_get_type (gt_protocol t)),
      grp_key_type = ti_key_type (gt_task_info t), grp_certificate = certificate,
      grp_note = gt_note t,
      grp_participant_ids_shares =
        map (\<lambda>p. (part_id p, part_shares p)) (ti_participants (gt_task_info t))\<rparr>"

definition group_task_finalize_task :: "env \<Rightarrow> (group_task \<times> world, round_update) eff" where
  "group_task_finalize_task E = (\<lambda>(t, w).
     case protocol_finalize E (gt_protocol t) (gt_communicator t) of (r, p, c) \<Rightarrow>
       let t = t\<lparr>gt_protocol := p, gt_communicator := c\<rparr>
       in case r of
            Inl e \<Rightarrow> (Inl e, t, w)
          | Inr None \<Rightarrow>
              (Inr (Round_Failed \<lparr>xt_task_info = gt_task_info t,
                 xt_reason = ''Task failed (group key not output)''\<rparr>), t, w)
          | Inr (Some key) \<Rightarrow>
              (case (if protocol_get_type (gt_protocol t) = P_Gg18
                     then apfst (map_sum (\<lambda>e. e) Some) (issue_certificate E (ti_name (gt_task_info t)) key w)
                     else (Inr None, w)) of
                 (Inl e, w') \<Rightarrow> (Inl e, t, w')
               | (Inr certificate, w') \<Rightarrow>
                   (Inr (Round_Finished (protocol_round (gt_protocol t)) (finished_task_new (gt_task_info t)
                      (GroupEstablished (established_group t key certificate)))),
                    t\<lparr>gt_communicator := clear_input (gt_communicator t)\<rparr>, w')))"

definition certificate_message :: "group_task \<Rightarrow> server_message" where
  "certificate_message t =
     \<lparr>sm_protocol_type = proto_protocol_number (protocol_get_type (gt_protocol t)), sm_unicasts = [],
      sm_broadcasts = hm_collect (concat (map (\<lambda>p.
        map (\<lambda>idx. (idx, dev_certificate (part_device p)))
          (identifier_to_indices (gt_communicator t) (device_identifier (part_device p))))
        (ti_participants (gt_task_info t))))\<rparr>"

definition send_certificates :: "env \<Rightarrow> (group_task \<times> world, round_update) eff" where
  "send_certificates E = (\<lambda>(t, w).
     (Inr GroupCertificatesSent,
      t\<lparr>gt_communicator := send_all (gt_communicator t)
           (\<lambda>_. encode_server_message E (certificate_message t)),
        gt_certificates_sent := True\<rparr>, w))"

definition group_task_next_round :: "env \<Rightarrow> (group_task \<times> world, round_update) eff" where
  "group_task_next_round E = (\<lambda>(t, w).
     if \<not> gt_certificates_sent t then send_certificates E (t, w)
     else if protocol_round (gt_protocol t) = 0 then group_task_start_task E (t, w)
     else if protocol_round (gt_protocol t) < protocol_last_round E (gt_protocol t)
     then group_task_advance_task E (t, w)
     else group_task_finalize_task E (t, w))"

definition group_task_waiting_for :: "group_task \<Rightarrow> bytes \<Rightarrow> bool" where
  "group_task_waiting_for t device = waiting_for (gt_communicator t) device"

definition group_task_get_work :: "group_task \<Rightarrow> bytes \<Rightarrow> bytes list" where
  "group_task_get_work t device_id =
     (if \<not> group_task_waiting_for t device_id then []
      else get_messages (gt_communicator t) device_id)"

definition group_task_get_round :: "group_task \<Rightarrow> u16" where
  "group_task_get_round t =
     (if \<not> gt_certificates_sent t then 0 else protocol_round (gt_protocol t) + 1)"

definition group_task_initialize :: "env \<Rightarrow> (group_task \<times> world, round_update) eff" where
  "group_task_initialize E = send_certificates E"

definition group_task_update ::
    "env \<Rightarrow> bytes \<Rightarrow> client_message list \<Rightarrow> (group_task \<times> world, round_update) eff" where
  "group_task_update E device_id messages = (\<lambda>(t, w).
     if \<not> group_task_waiting_for t device_id then
       (Inl (Err (GeneralProtocolError ''Wasn't waiting for a message from this ID.'')), t, w)
     else if \<not> gt_certificates_sent t then (Inl Panic, t, w)
     else case receive_messages (gt_communicator t) device_id messages of (r, c) \<Rightarrow>
       let t = t\<lparr>gt_communicator := c\<rparr>
       in case r of
            Inl e \<Rightarrow> (Inl e, t, w)
          | Inr _ \<Rightarrow>
              if round_received (gt_communicator t) \<and>
                 protocol_round (gt_protocol t) \<le> protocol_last_round E (gt_protocol t)
              then group_task_next_round E (t, w)
              else (Inr Listen, t, w))"

definition group_task_restart :: "env \<Rightarrow> (group_task \<times> world, round_update) eff" where
  "group_task_restart E = (\<lambda>(t, w). group_task_start_task E (group_task_increment_attempt_count t, w))"

section \<open>The task implements the interface\<close>

lemmas group_task_steps = group_task_next_round_def group_task_start_task_def
  group_task_advance_task_def group_task_finalize_task_def

lemma group_task_started:
  assumes "group_task_start_task E (t, w) = (r, t', w')"
  shows "gt_task_info t' = gt_task_info t \<and> gt_certificates_sent t' = gt_certificates_sent t \<and>
    protocol_last_round E (gt_protocol t') = protocol_last_round E (gt_protocol t) \<and>
    started (gt_task_info t) (gt_communicator t) (gt_communicator t')
      (protocol_round (gt_protocol t')) r"
  using assms
  by (auto simp: group_task_start_task_def started_def split: prod.splits dest: dyn.initialize_starts)

lemma group_task_finalized:
  assumes "protocol_round (gt_protocol t) = protocol_last_round E (gt_protocol t)"
    and "group_task_finalize_task E (t, w) = (r, t', w')"
  shows "gt_task_info t' = gt_task_info t \<and> gt_certificates_sent t' = gt_certificates_sent t \<and>
    gt_communicator t' \<in> {gt_communicator t, clear_input (gt_communicator t)} \<and>
    finalized (gt_task_info t) (protocol_round (gt_protocol t))
      (get_final_message E (gt_communicator t)) r"
proof -
  obtain p' where p': "protocol_finalize E (gt_protocol t) (gt_communicator t) =
      (get_final_message E (gt_communicator t), p', gt_communicator t)"
    "protocol_round p' = protocol_round (gt_protocol t) + 1"
    using dyn.finalize_counts[OF assms(1)] by blast
  show ?thesis
    using assms(2) p'
    by (auto simp: group_task_finalize_task_def Let_def finalized_def finished_task_new_def
        split: sum.splits option.splits prod.splits if_splits)
qed

lemma group_task_next_final:
  "gt_certificates_sent t \<Longrightarrow> 0 < protocol_last_round E (gt_protocol t) \<Longrightarrow>
     protocol_round (gt_protocol t) = protocol_last_round E (gt_protocol t) \<Longrightarrow>
     group_task_next_round E (t, w) = group_task_finalize_task E (t, w)"
  by (auto simp: group_task_next_round_def)

lemma group_task_advanced:
  assumes "gt_certificates_sent t" "0 < protocol_round (gt_protocol t)"
    and "protocol_round (gt_protocol t) < protocol_last_round E (gt_protocol t)"
  shows "\<exists>t'. group_task_next_round E (t, w) =
      (Inr (NextRound (protocol_round (gt_protocol t) + 1)), t', w) \<and>
    gt_communicator t' = relay E (gt_communicator t) \<and>
    protocol_round (gt_protocol t') = protocol_round (gt_protocol t) + 1 \<and>
    protocol_last_round E (gt_protocol t') = protocol_last_round E (gt_protocol t) \<and>
    gt_task_info t' = gt_task_info t \<and> gt_certificates_sent t' \<and>
    (protocol_get_type (gt_protocol t') \<noteq> P_Gg18) = (protocol_get_type (gt_protocol t) \<noteq> P_Gg18)"
proof -
  have "group_task_next_round E (t, w) = group_task_advance_task E (t, w)"
    using assms by (auto simp: group_task_next_round_def)
  moreover obtain p' where "protocol_advance E (gt_protocol t) (gt_communicator t) =
      (Inr (), p', relay E (gt_communicator t))"
    "protocol_round p' = protocol_round (gt_protocol t) + 1"
    "protocol_last_round E p' = protocol_last_round E (gt_protocol t)"
    "protocol_get_type p' = protocol_get_type (gt_protocol t)"
    using dyn.advance_counts[OF assms(3)] by blast
  ultimately show ?thesis
    using assms(1) by (simp add: group_task_advance_task_def)
qed

lemma group_task_delivers:
  assumes "gt_certificates_sent t" "protocol_get_type (gt_protocol t) \<noteq> P_Gg18"
    and "0 < protocol_last_round E (gt_protocol t)"
    and "protocol_round (gt_protocol t) = protocol_last_round E (gt_protocol t)"
    and "get_final_message E (gt_communicator t) = Inr (Some m)"
  shows "\<exists>f t'. group_task_next_round E (t, w) =
      (Inr (Round_Finished (protocol_round (gt_protocol t) + 1) f), t', w) \<and>
    as_bytes (ft_result f) = m"
proof -
  obtain p' where "protocol_finalize E (gt_protocol t) (gt_communicator t) =
      (get_final_message E (gt_communicator t), p', gt_communicator t)"
    "protocol_round p' = protocol_round (gt_protocol t) + 1"
    "protocol_get_type p' = protocol_get_type (gt_protocol t)"
    using dyn.finalize_counts[OF assms(4)] by blast
  then show ?thesis
    using assms(2,5) unfolding group_task_next_final[OF assms(1,3,4)]
    by (simp add: group_task_finalize_task_def finished_task_new_def established_group_def)
qed

lemma group_task_starts:
  assumes "gt_certificates_sent t" "protocol_get_type (gt_protocol t) \<noteq> P_Gg18"
    and "protocol_round (gt_protocol t) = 0"
  shows "\<exists>t' f. group_task_next_round E (t, w) = (Inr (NextRound 1), t', w) \<and>
    gt_communicator t' = send_all (gt_communicator t) f \<and> protocol_round (gt_protocol t') = 1 \<and>
    protocol_last_round E (gt_protocol t') = protocol_last_round E (gt_protocol t) \<and>
    gt_task_info t' = gt_task_info t \<and> gt_certificates_sent t' \<and>
    protocol_get_type (gt_protocol t') \<noteq> P_Gg18"
proof -
  obtain p' c' where i: "protocol_initialize E (gt_protocol t) (gt_communicator t) [] = (p', c')"
    by fastforce
  show ?thesis
    using dyn.initialize_starts[OF i] i assms
    by (auto simp: group_task_next_round_def group_task_start_task_def)
qed

interpretation group_task: running_task_impl gt_task_info gt_communicator gt_protocol
  gt_certificates_sent "\<lambda>t. protocol_get_type (gt_protocol t) \<noteq> P_Gg18" "\<lambda>c. gt_communicator_update (\<lambda>_. c)" group_task_update group_task_next_round
  group_task_restart
proof unfold_locales
  fix E :: env and t t' :: group_task and w w' :: world and r :: "round_update res"
  show "gt_certificates_sent t \<Longrightarrow> 0 < protocol_last_round E (gt_protocol t) \<Longrightarrow>
      protocol_round (gt_protocol t) = protocol_last_round E (gt_protocol t) \<Longrightarrow>
      group_task_next_round E (t, w) = (r, t', w') \<Longrightarrow>
    gt_task_info t' = gt_task_info t \<and> gt_certificates_sent t' \<and>
    gt_communicator t' \<in> {gt_communicator t, clear_input (gt_communicator t)} \<and>
    finalized (gt_task_info t) (protocol_round (gt_protocol t))
      (get_final_message E (gt_communicator t)) r"
    using group_task_finalized[of t E w r t' w'] group_task_next_final[of t E w] by simp
  show "gt_certificates_sent t \<Longrightarrow> protocol_round (gt_protocol t) = 0 \<Longrightarrow>
      group_task_next_round E (t, w) = (r, t', w') \<Longrightarrow>
    gt_task_info t' = gt_task_info t \<and> gt_certificates_sent t' \<and>
    protocol_last_round E (gt_protocol t') = protocol_last_round E (gt_protocol t) \<and>
    started (gt_task_info t) (gt_communicator t) (gt_communicator t')
      (protocol_round (gt_protocol t')) r"
    using group_task_started[of E t w r t' w'] by (auto simp: group_task_next_round_def)
  show "group_task_restart E (t, w) = (r, t', w') \<Longrightarrow>
    r = Inl Panic \<and> t' = t \<or>
    gt_task_info t' = (gt_task_info t)\<lparr>ti_attempts := ti_attempts (gt_task_info t) + 1\<rparr> \<and>
    started (gt_task_info t') (gt_communicator t) (gt_communicator t')
      (protocol_round (gt_protocol t')) r"
    using group_task_started[of E "group_task_increment_attempt_count t" w r t' w']
    by (auto simp: group_task_restart_def group_task_increment_attempt_count_def)
qed (use group_task_advanced group_task_delivers group_task_starts in \<open>auto simp: group_task_update_def group_task_waiting_for_def not_waiting_error_def Let_def\<close>)

end
