(* ===== verification/Sign_Task.thy ===== *)
theory Sign_Task
  imports Running_Tasks
begin

text \<open>The task that signs data with a group key, \<^verbatim>\<open>SignTask\<close> of \<^verbatim>\<open>src/tasks/sign.rs\<close>.\<close>

section \<open>State and operations\<close>

record sign_task =
  st_task_info :: task_info
  st_group :: group
  st_communicator :: communicator
  st_data :: bytes
  st_preprocessed :: "bytes option"
  st_protocol :: protocol

definition sign_task_try_new ::
    "task_info \<Rightarrow> group \<Rightarrow> bytes \<Rightarrow> communicator \<Rightarrow> string + sign_task" where
  "sign_task_try_new task_info grp data communicator =
     (case (case grp_protocol grp of
              Gg18 \<Rightarrow> Some (GG18_Sign gg18_sign_new)
            | Frost \<Rightarrow> Some (FROST_Sign frost_sign_new)
            | Musig2 \<Rightarrow> Some (MuSig2_Sign musig2_sign_new)
            | _ \<Rightarrow> None) of
        None \<Rightarrow> Inl ''Unsupported protocol type for signing''
      | Some protocol \<Rightarrow>
          Inr \<lparr>st_task_info = task_info, st_group = grp, st_communicator = communicator,
            st_data = data, st_preprocessed = None, st_protocol = protocol\<rparr>)"

definition sign_task_from_model ::
    "task_info \<Rightarrow> task_model \<Rightarrow> communicator \<Rightarrow> group \<Rightarrow> sign_task res" where
  "sign_task_from_model task_info model communicator grp =
     res_bind (res_of_string_result (create_threshold_protocol
         (proto_of_protocol_type (grp_protocol grp)) (proto_of_key_type (grp_key_type grp))
         (ucast (tm_protocol_round model))))
       (\<lambda>protocol.
          case tm_task_data model of
            None \<Rightarrow> Inl (Err (PersistenceError (DataInconsistencyError
              ''Task data not set for a sign task'')))
          | Some data \<Rightarrow>
              Inr \<lparr>st_task_info = task_info, st_group = grp, st_communicator = communicator,
                st_data = data, st_preprocessed = tm_preprocessed model, st_protocol = protocol\<rparr>)"

definition set_preprocessed :: "sign_task \<Rightarrow> bytes \<Rightarrow> sign_task" where
  "set_preprocessed t preprocessed = t\<lparr>st_preprocessed := Some preprocessed\<rparr>"

text \<open>The data that is signed: what was preprocessed, or else the data of the request.\<close>

definition data_to_sign :: "sign_task \<Rightarrow> bytes" where
  "data_to_sign t = (case st_preprocessed t of None \<Rightarrow> st_data t | Some data \<Rightarrow> data)"

definition sign_task_increment_attempt_count :: "sign_task \<Rightarrow> sign_task" where
  "sign_task_increment_attempt_count t =
     t\<lparr>st_task_info := (st_task_info t)\<lparr>ti_attempts := ti_attempts (st_task_info t) + 1\<rparr>\<rparr>"

definition sign_task_start_task :: "env \<Rightarrow> (sign_task \<times> world, round_update) eff" where
  "sign_task_start_task E = (\<lambda>(t, w).
     case protocol_initialize E (st_protocol t) (st_communicator t) (data_to_sign t) of (p, c) \<Rightarrow>
       (Inr (NextRound (protocol_round p)), t\<lparr>st_protocol := p, st_communicator := c\<rparr>, w))"

definition sign_task_advance_task :: "env \<Rightarrow> (sign_task \<times> world, round_update) eff" where
  "sign_task_advance_task E = (\<lambda>(t, w).
     case protocol_advance E (st_protocol t) (st_communicator t) of (r, p, c) \<Rightarrow>
       (case r of Inl e \<Rightarrow> Inl e | Inr _ \<Rightarrow> Inr (NextRound (protocol_round p)),
        t\<lparr>st_protocol := p, st_communicator := c\<rparr>, w))"

definition sign_task_finalize_task :: "env \<Rightarrow> (sign_task \<times> world, round_update) eff" where
  "sign_task_finalize_task E = (\<lambda>(t, w).
     case protocol_finalize E (st_protocol t) (st_communicator t) of (r, p, c) \<Rightarrow>
       let t = t\<lparr>st_protocol := p, st_communicator := c\<rparr>
       in case r of
            Inl e \<Rightarrow> (Inl e, t, w)
          | Inr None \<Rightarrow>
              (Inr (Round_Failed \<lparr>xt_task_info = st_task_info t,
                 xt_reason = ''Task failed (signature not output)''\<rparr>), t, w)
          | Inr (Some output) \<Rightarrow>
              (Inr (Round_Finished (protocol_round (st_protocol t))
                 (finished_task_new (st_task_info t) (Signed output))),
               t\<lparr>st_communicator := clear_input (st_communicator t)\<rparr>, w))"

definition sign_task_next_round :: "env \<Rightarrow> (sign_task \<times> world, round_update) eff" where
  "sign_task_next_round E = (\<lambda>(t, w).
     if protocol_round (st_protocol t) = 0 then sign_task_start_task E (t, w)
     else if protocol_round (st_protocol t) < protocol_last_round E (st_protocol t)
     then sign_task_advance_task E (t, w)
     else sign_task_finalize_task E (t, w))"

definition sign_task_waiting_for :: "sign_task \<Rightarrow> bytes \<Rightarrow> bool" where
  "sign_task_waiting_for t device = waiting_for (st_communicator t) device"

definition sign_task_update_internal ::
    "env \<Rightarrow> bytes \<Rightarrow> client_message list \<Rightarrow> sign_task \<Rightarrow> bool res \<times> sign_task" where
  "sign_task_update_internal E device_id messages t =
     (if \<not> sign_task_waiting_for t device_id then
        (Inl (Err (GeneralProtocolError ''Wasn't waiting for a message from this ID.'')), t)
      else case receive_messages (st_communicator t) device_id messages of (r, c) \<Rightarrow>
        let t = t\<lparr>st_communicator := c\<rparr>
        in (case r of
              Inl e \<Rightarrow> Inl e
            | Inr _ \<Rightarrow> Inr (round_received (st_communicator t) \<and>
                protocol_round (st_protocol t) \<le> protocol_last_round E (st_protocol t)), t))"

definition sign_task_get_work :: "sign_task \<Rightarrow> bytes \<Rightarrow> bytes list" where
  "sign_task_get_work t device_id =
     (if \<not> sign_task_waiting_for t device_id then []
      else get_messages (st_communicator t) device_id)"

definition sign_task_get_round :: "sign_task \<Rightarrow> u16" where
  "sign_task_get_round t = protocol_round (st_protocol t)"

definition sign_task_initialize :: "env \<Rightarrow> (sign_task \<times> world, round_update) eff" where
  "sign_task_initialize E = sign_task_start_task E"

definition sign_task_update ::
    "env \<Rightarrow> bytes \<Rightarrow> client_message list \<Rightarrow> (sign_task \<times> world, round_update) eff" where
  "sign_task_update E device_id messages = (\<lambda>(t, w).
     case sign_task_update_internal E device_id messages t of
       (Inl e, t') \<Rightarrow> (Inl e, t', w)
     | (Inr complete, t') \<Rightarrow> if complete then sign_task_next_round E (t', w) else (Inr Listen, t', w))"

definition sign_task_restart :: "env \<Rightarrow> (sign_task \<times> world, round_update) eff" where
  "sign_task_restart E = (\<lambda>(t, w). sign_task_start_task E (sign_task_increment_attempt_count t, w))"

section \<open>The task implements the interface\<close>

lemma sign_task_started:
  assumes "sign_task_start_task E (t, w) = (r, t', w')"
  shows "st_task_info t' = st_task_info t \<and>
    protocol_last_round E (st_protocol t') = protocol_last_round E (st_protocol t) \<and>
    started (st_task_info t) (st_communicator t) (st_communicator t')
      (protocol_round (st_protocol t')) r"
  using assms
  by (auto simp: sign_task_start_task_def started_def split: prod.splits dest: dyn.initialize_starts)

lemma sign_task_finalized:
  assumes "protocol_round (st_protocol t) = protocol_last_round E (st_protocol t)"
    and "sign_task_finalize_task E (t, w) = (r, t', w')"
  shows "st_task_info t' = st_task_info t \<and> w' = w \<and>
    st_communicator t' \<in> {st_communicator t, clear_input (st_communicator t)} \<and>
    r = (case get_final_message E (st_communicator t) of
        Inl e \<Rightarrow> Inl e
      | Inr None \<Rightarrow> Inr (Round_Failed \<lparr>xt_task_info = st_task_info t,
          xt_reason = ''Task failed (signature not output)''\<rparr>)
      | Inr (Some m) \<Rightarrow> Inr (Round_Finished (protocol_round (st_protocol t) + 1)
          (finished_task_new (st_task_info t) (Signed m))))"
proof -
  obtain p' where p': "protocol_finalize E (st_protocol t) (st_communicator t) =
      (get_final_message E (st_communicator t), p', st_communicator t)"
    "protocol_round p' = protocol_round (st_protocol t) + 1"
    using dyn.finalize_counts[OF assms(1)] by blast
  show ?thesis
    using assms(2) p'
    by (auto simp: sign_task_finalize_task_def Let_def split: sum.splits option.splits)
qed

lemma sign_task_next_final:
  "0 < protocol_last_round E (st_protocol t) \<Longrightarrow>
     protocol_round (st_protocol t) = protocol_last_round E (st_protocol t) \<Longrightarrow>
     sign_task_next_round E (t, w) = sign_task_finalize_task E (t, w)"
  by (auto simp: sign_task_next_round_def)

lemma sign_task_delivers:
  assumes "0 < protocol_last_round E (st_protocol t)"
    and "protocol_round (st_protocol t) = protocol_last_round E (st_protocol t)"
    and "get_final_message E (st_communicator t) = Inr (Some m)"
  shows "\<exists>f t'. sign_task_next_round E (t, w) =
      (Inr (Round_Finished (protocol_round (st_protocol t) + 1) f), t', w) \<and>
    as_bytes (ft_result f) = m"
proof -
  obtain r t' w' where f: "sign_task_finalize_task E (t, w) = (r, t', w')"
    by (metis prod_cases3)
  show ?thesis
    unfolding sign_task_next_final[OF assms(1,2)]
    using sign_task_finalized[OF assms(2) f] assms(3) by (simp add: f finished_task_new_def)
qed

lemma sign_task_advanced:
  assumes "protocol_round (st_protocol t) < protocol_last_round E (st_protocol t)"
  shows "\<exists>t'. sign_task_advance_task E (t, w) =
      (Inr (NextRound (protocol_round (st_protocol t) + 1)), t', w) \<and>
    st_communicator t' = relay E (st_communicator t) \<and>
    protocol_round (st_protocol t') = protocol_round (st_protocol t) + 1 \<and>
    protocol_last_round E (st_protocol t') = protocol_last_round E (st_protocol t) \<and>
    st_task_info t' = st_task_info t"
proof -
  obtain p' where "protocol_advance E (st_protocol t) (st_communicator t) =
      (Inr (), p', relay E (st_communicator t))"
    "protocol_round p' = protocol_round (st_protocol t) + 1"
    "protocol_last_round E p' = protocol_last_round E (st_protocol t)"
    using dyn.advance_counts[OF assms] by blast
  then show ?thesis by (simp add: sign_task_advance_task_def)
qed

lemma sign_task_starts:
  assumes "protocol_round (st_protocol t) = 0"
  shows "\<exists>t' f. sign_task_next_round E (t, w) = (Inr (NextRound 1), t', w) \<and>
    st_communicator t' = send_all (st_communicator t) f \<and> protocol_round (st_protocol t') = 1 \<and>
    protocol_last_round E (st_protocol t') = protocol_last_round E (st_protocol t) \<and>
    st_task_info t' = st_task_info t"
proof -
  obtain p' c' where i: "protocol_initialize E (st_protocol t) (st_communicator t) (data_to_sign t) = (p', c')"
    by fastforce
  show ?thesis
    using dyn.initialize_starts[OF i] i assms
    by (auto simp: sign_task_next_round_def sign_task_start_task_def)
qed

interpretation sign_task: running_task_impl st_task_info st_communicator st_protocol
  "\<lambda>_. True" "\<lambda>_. True" "\<lambda>c. st_communicator_update (\<lambda>_. c)" sign_task_update sign_task_next_round sign_task_restart
proof unfold_locales
  fix E :: env and t t' :: sign_task and w w' :: world and r :: "round_update res"
  show "0 < protocol_last_round E (st_protocol t) \<Longrightarrow>
      protocol_round (st_protocol t) = protocol_last_round E (st_protocol t) \<Longrightarrow>
      sign_task_next_round E (t, w) = (r, t', w') \<Longrightarrow>
    st_task_info t' = st_task_info t \<and> True \<and>
    st_communicator t' \<in> {st_communicator t, clear_input (st_communicator t)} \<and>
    finalized (st_task_info t) (protocol_round (st_protocol t))
      (get_final_message E (st_communicator t)) r"
    using sign_task_finalized[of t E w r t' w'] sign_task_next_final[of E t w]
    by (simp add: finalized_def finished_task_new_def split: sum.splits option.splits)
  show "protocol_round (st_protocol t) = 0 \<Longrightarrow> sign_task_next_round E (t, w) = (r, t', w') \<Longrightarrow>
    st_task_info t' = st_task_info t \<and> True \<and>
    protocol_last_round E (st_protocol t') = protocol_last_round E (st_protocol t) \<and>
    started (st_task_info t) (st_communicator t) (st_communicator t')
      (protocol_round (st_protocol t')) r"
    using sign_task_started[of E t w r t' w'] by (auto simp: sign_task_next_round_def)
  show "0 < protocol_round (st_protocol t) \<Longrightarrow>
      protocol_round (st_protocol t) < protocol_last_round E (st_protocol t) \<Longrightarrow>
    \<exists>t'. sign_task_next_round E (t, w) = (Inr (NextRound (protocol_round (st_protocol t) + 1)), t', w) \<and>
      st_communicator t' = relay E (st_communicator t) \<and>
      protocol_round (st_protocol t') = protocol_round (st_protocol t) + 1 \<and>
      protocol_last_round E (st_protocol t') = protocol_last_round E (st_protocol t) \<and>
      st_task_info t' = st_task_info t \<and> True \<and> True = True"
    using sign_task_advanced[of t E w] by (auto simp: sign_task_next_round_def)
  show "sign_task_restart E (t, w) = (r, t', w') \<Longrightarrow>
    r = Inl Panic \<and> t' = t \<or>
    st_task_info t' = (st_task_info t)\<lparr>ti_attempts := ti_attempts (st_task_info t) + 1\<rparr> \<and>
    started (st_task_info t') (st_communicator t) (st_communicator t')
      (protocol_round (st_protocol t')) r"
    using sign_task_started[of E "sign_task_increment_attempt_count t" w r t' w']
    by (auto simp: sign_task_restart_def sign_task_increment_attempt_count_def)
qed (use sign_task_delivers sign_task_starts in \<open>auto simp: sign_task_update_def sign_task_update_internal_def sign_task_waiting_for_def not_waiting_error_def Let_def\<close>)

end
