(* ===== verification/Voting.thy ===== *)
theory Voting
  imports Tasks
begin

text \<open>
  The voting phase of a task, \<^verbatim>\<open>VotingTask\<close> in \<^verbatim>\<open>src/tasks/mod.rs\<close>. A vote is the number of the
  device's shares as an \<^verbatim>\<open>i8\<close>, positive to accept and negative to reject; 0 is no vote.
\<close>

section \<open>State and operations\<close>

record voting_task =
  vt_task_info :: task_info
  vt_decisions :: "(bytes, i8) hashmap"
  vt_accept_threshold :: u32
  vt_running_task_context :: running_task_context

text \<open>\<^verbatim>\<open>(vote as i32).unsigned_abs()\<close>.\<close>

definition unsigned_abs :: "i8 \<Rightarrow> u32" where
  "unsigned_abs vote = word_of_int \<bar>sint vote\<bar>"

fun accepts_rejects_loop :: "i8 list \<Rightarrow> u32 \<Rightarrow> u32 \<Rightarrow> u32 \<times> u32" where
  "accepts_rejects_loop [] accepts rejects = (accepts, rejects)"
| "accepts_rejects_loop (vote # votes) accepts rejects =
     accepts_rejects_loop votes
       (if sint vote > 0 then accepts + unsigned_abs vote else accepts)
       (if sint vote < 0 then rejects + unsigned_abs vote else rejects)"

definition accepts_rejects :: "(bytes, i8) hashmap \<Rightarrow> u32 \<times> u32" where
  "accepts_rejects decisions = accepts_rejects_loop (map snd decisions) 0 0"

definition reject_threshold :: "voting_task \<Rightarrow> u32" where
  "reject_threshold t = total_shares (vt_task_info t) - vt_accept_threshold t + 1"

definition device_accepted :: "voting_task \<Rightarrow> bytes \<Rightarrow> bool" where
  "device_accepted t device_id =
     (case map_of (vt_decisions t) device_id of None \<Rightarrow> False | Some vote \<Rightarrow> sint vote > 0)"

definition decide ::
    "voting_task \<Rightarrow> bytes \<Rightarrow> bool \<Rightarrow> decision_update res \<times> voting_task" where
  "decide t device_id accept =
     (case find (\<lambda>p. part_id p = device_id) (ti_participants (vt_task_info t)) of
        None \<Rightarrow> (Inl (Err (GeneralProtocolError ''Invalid task participant id'')), t)
      | Some p \<Rightarrow>
          let shares = (ucast (part_shares p) :: i8);
              vote = (if accept then shares else - shares);
              t' = t\<lparr>vt_decisions := hm_insert device_id vote (vt_decisions t)\<rparr>
          in case accepts_rejects (vt_decisions t') of (accepts, rejects) \<Rightarrow>
            (Inr (if accepts \<ge> vt_accept_threshold t' then Accepted
                  else if rejects \<ge> reject_threshold t' then
                    Decision_Declined \<lparr>dt_task_info = vt_task_info t', dt_accepts = accepts,
                      dt_rejects = rejects\<rparr>
                  else Undecided), t'))"

section \<open>Counting votes\<close>

text \<open>What the counts are, as natural numbers.\<close>

definition accept_weight :: "(bytes, i8) hashmap \<Rightarrow> nat" where
  "accept_weight ds = (\<Sum>e\<leftarrow>ds. nat (sint (snd e)))"

definition reject_weight :: "(bytes, i8) hashmap \<Rightarrow> nat" where
  "reject_weight ds = (\<Sum>e\<leftarrow>ds. nat (- sint (snd e)))"

lemma unat_unsigned_abs: "unat (unsigned_abs v) = nat \<bar>sint v\<bar>"
proof -
  have "\<bar>sint v\<bar> < 2 ^ 32"
    using sint_range_size[of v] by (simp add: word_size abs_if)
  then show ?thesis
    by (simp add: unsigned_abs_def unat_eq_nat_uint uint_word_of_int_eq take_bit_int_eq_self)
qed

lemma unat_add_small:
  "unat (a :: u32) + n < 2 ^ 32 \<Longrightarrow> unat b = n \<Longrightarrow> unat (a + b) = unat a + n"
  by (simp add: unat_word_ariths)

lemma accepts_rejects_loop_weight:
  assumes "unat a + (\<Sum>v\<leftarrow>votes. nat (sint v)) < 2 ^ 32"
    and "unat r + (\<Sum>v\<leftarrow>votes. nat (- sint v)) < 2 ^ 32"
    and "accepts_rejects_loop votes a r = (a', r')"
  shows "unat a' = unat a + (\<Sum>v\<leftarrow>votes. nat (sint v)) \<and>
    unat r' = unat r + (\<Sum>v\<leftarrow>votes. nat (- sint v))"
  using assms
proof (induction votes a r rule: accepts_rejects_loop.induct)
  case (2 vote votes a r)
  let ?a = "if sint vote > 0 then a + unsigned_abs vote else a"
  let ?r = "if sint vote < 0 then r + unsigned_abs vote else r"
  have a: "unat ?a = unat a + nat (sint vote)"
    using 2(2) by (auto simp: unat_add_small[OF _ unat_unsigned_abs])
  have r: "unat ?r = unat r + nat (- sint vote)"
    using 2(3) by (auto simp: unat_add_small[OF _ unat_unsigned_abs])
  show ?case
    using 2(1)[of] 2(2-4) unfolding a r by simp
qed simp

lemma accepts_rejects_weight:
  assumes "accept_weight ds < 2 ^ 32" and "reject_weight ds < 2 ^ 32"
    and "accepts_rejects ds = (a, r)"
  shows "unat a = accept_weight ds" "unat r = reject_weight ds"
  using accepts_rejects_loop_weight[of 0 "map snd ds" 0 a r] assms
  by (auto simp: accepts_rejects_def accept_weight_def reject_weight_def comp_def)

text \<open>The order in which the map of decisions is iterated does not matter.\<close>

lemma weight_order:
  "mset ds = mset ds' \<Longrightarrow> accept_weight ds = accept_weight ds'"
  "mset ds = mset ds' \<Longrightarrow> reject_weight ds = reject_weight ds'"
  unfolding accept_weight_def reject_weight_def by (rule sum_list_order, assumption)+

section \<open>Well-formed votes\<close>

text \<open>
  A voting task whose votes fit their type: its participants are distinct devices with 1 to 127
  shares each, all shares together fit 32 bits, the threshold is between 1 and all shares, and each
  vote recorded is one of a participant, with all of its shares or none.
\<close>

definition share_sum :: "participant list \<Rightarrow> nat" where
  "share_sum ps = (\<Sum>p\<leftarrow>ps. unat (part_shares p))"

definition participants_ok :: "participant list \<Rightarrow> bool" where
  "participants_ok ps =
     (distinct (map part_id ps) \<and> (\<forall>p \<in> set ps. 0 < part_shares p \<and> part_shares p < 128) \<and>
      share_sum ps < 2 ^ 32)"

definition votes_ok :: "voting_task \<Rightarrow> bool" where
  "votes_ok t =
     (participants_ok (ti_participants (vt_task_info t)) \<and>
      1 \<le> unat (vt_accept_threshold t) \<and>
      unat (vt_accept_threshold t) \<le> share_sum (ti_participants (vt_task_info t)) \<and>
      hm_wf (vt_decisions t) \<and>
      (\<forall>(d, v) \<in> set (vt_decisions t). \<exists>p \<in> set (ti_participants (vt_task_info t)).
         part_id p = d \<and> v \<in> {0, ucast (part_shares p), - ucast (part_shares p)}))"

definition device_rejected :: "voting_task \<Rightarrow> bytes \<Rightarrow> bool" where
  "device_rejected t device_id =
     (case map_of (vt_decisions t) device_id of None \<Rightarrow> False | Some vote \<Rightarrow> sint vote < 0)"

definition shares_for :: "voting_task \<Rightarrow> nat" where
  "shares_for t = (\<Sum>p\<leftarrow>ti_participants (vt_task_info t).
     if device_accepted t (part_id p) then unat (part_shares p) else 0)"

definition shares_against :: "voting_task \<Rightarrow> nat" where
  "shares_against t = (\<Sum>p\<leftarrow>ti_participants (vt_task_info t).
     if device_rejected t (part_id p) then unat (part_shares p) else 0)"

lemma votes_okD:
  assumes "votes_ok t"
  shows "distinct (map part_id (ti_participants (vt_task_info t)))"
    "\<And>p. p \<in> set (ti_participants (vt_task_info t)) \<Longrightarrow> 0 < part_shares p \<and> part_shares p < 128"
    "share_sum (ti_participants (vt_task_info t)) < 2 ^ 32"
    "1 \<le> unat (vt_accept_threshold t)"
    "unat (vt_accept_threshold t) \<le> share_sum (ti_participants (vt_task_info t))"
    "hm_wf (vt_decisions t)"
    "hm_keys (vt_decisions t) \<subseteq> part_id ` set (ti_participants (vt_task_info t))"
  using assms by (auto simp: votes_ok_def participants_ok_def)

lemma sint_vote:
  assumes "(s :: u32) < 128"
  shows "sint (ucast s :: i8) = int (unat s)" "sint (- ucast s :: i8) = - int (unat s)"
proof -
  have s: "uint s < 128" using assms by (simp add: word_less_def)
  have u: "uint (ucast s :: i8) = uint s"
    using s by (simp add: unsigned_ucast_eq take_bit_int_eq_self)
  have "- 128 \<le> uint s" using uint_ge_0[of s] by linarith
  with u have "sint (ucast s :: i8) = uint s"
    using s by (simp add: sint_uint signed_take_bit_int_eq_self)
  then show p: "sint (ucast s :: i8) = int (unat s)" by simp
  have "- uint s < 128" using uint_ge_0[of s] by linarith
  with p show "sint (- ucast s :: i8) = - int (unat s)"
    using s by (simp add: sint_word_ariths signed_take_bit_int_eq_self)
qed

lemma sint_vote_negative:
  assumes "128 \<le> unat (s :: u32)" "unat s < 256"
  shows "sint (ucast s :: i8) < 0"
proof -
  have s: "128 \<le> uint s" "uint s < 256"
    using assms uint_nat[of s] by linarith+
  then have "uint (ucast s :: i8) = uint s"
    by (simp add: unsigned_ucast_eq take_bit_int_eq_self)
  then have "sint (ucast s :: i8) = (uint s + 128) mod 256 - 128"
    by (simp add: sint_uint signed_take_bit_eq_take_bit_shift take_bit_eq_mod)
  also have "(uint s + 128) mod 256 = (uint s - 128 + 256) mod 256" by (simp add: add.commute)
  also have "\<dots> = uint s - 128"
    using s unfolding mod_add_self2 by (intro mod_pos_pos_trivial) simp_all
  finally show ?thesis using s by simp
qed

lemma vote_cases:
  assumes "votes_ok t" "p \<in> set (ti_participants (vt_task_info t))"
    and "map_of (vt_decisions t) (part_id p) = Some v"
  shows "sint v = 0 \<or> sint v = int (unat (part_shares p)) \<or> sint v = - int (unat (part_shares p))"
proof -
  have "(part_id p, v) \<in> set (vt_decisions t)"
    using assms(3) by (rule map_of_SomeD)
  then obtain q where q: "q \<in> set (ti_participants (vt_task_info t))" "part_id q = part_id p"
    "v \<in> {0, ucast (part_shares q), - ucast (part_shares q)}"
    using assms(1) by (fastforce simp: votes_ok_def)
  then have "q = p"
    using votes_okD(1)[OF assms(1)] assms(2) by (metis distinct_map inj_onD)
  with q votes_okD(2)[OF assms(1,2)] show ?thesis
    by (auto simp: sint_vote)
qed

lemma accept_weight_shares:
  assumes "votes_ok t"
  shows "accept_weight (vt_decisions t) = shares_for t"
proof -
  let ?ps = "ti_participants (vt_task_info t)"
  have "accept_weight (vt_decisions t) = (\<Sum>d\<leftarrow>map part_id ?ps.
      case map_of (vt_decisions t) d of None \<Rightarrow> 0 | Some v \<Rightarrow> nat (sint v))"
    unfolding accept_weight_def using votes_okD[OF assms]
    by (intro sum_list_hm_values[where f = "\<lambda>v. nat (sint v)"]) auto
  also have "\<dots> = shares_for t"
    unfolding shares_for_def map_map comp_def using votes_okD(2)[OF assms] vote_cases[OF assms]
    by (intro arg_cong[where f = sum_list] map_cong)
      (fastforce simp: device_accepted_def word_less_nat_alt split: option.splits)+
  finally show ?thesis .
qed

lemma reject_weight_shares:
  assumes "votes_ok t"
  shows "reject_weight (vt_decisions t) = shares_against t"
proof -
  let ?ps = "ti_participants (vt_task_info t)"
  have "reject_weight (vt_decisions t) = (\<Sum>d\<leftarrow>map part_id ?ps.
      case map_of (vt_decisions t) d of None \<Rightarrow> 0 | Some v \<Rightarrow> nat (- sint v))"
    unfolding reject_weight_def using votes_okD[OF assms]
    by (intro sum_list_hm_values[where f = "\<lambda>v. nat (- sint v)"]) auto
  also have "\<dots> = shares_against t"
    unfolding shares_against_def map_map comp_def using votes_okD(2)[OF assms] vote_cases[OF assms]
    by (intro arg_cong[where f = sum_list] map_cong)
      (fastforce simp: device_rejected_def word_less_nat_alt split: option.splits)+
  finally show ?thesis .
qed

lemma shares_for_against_bound:
  "shares_for t + shares_against t \<le> share_sum (ti_participants (vt_task_info t))"
  unfolding shares_for_def shares_against_def share_sum_def sum_list_addf[symmetric]
  by (intro sum_list_mono) (auto simp: device_accepted_def device_rejected_def split: option.splits)

lemma unat_sum_list:
  "(\<Sum>x\<leftarrow>xs. unat (f x :: u32)) < 2 ^ 32 \<Longrightarrow> unat (\<Sum>x\<leftarrow>xs. f x) = (\<Sum>x\<leftarrow>xs. unat (f x))"
  by (induction xs) (auto simp: unat_word_ariths)

lemma unat_total_shares:
  "share_sum (ti_participants ti) < 2 ^ 32 \<Longrightarrow>
     unat (total_shares ti) = share_sum (ti_participants ti)"
  by (simp add: total_shares_def share_sum_def unat_sum_list)

lemma unat_reject_threshold:
  assumes "votes_ok t"
  shows "unat (reject_threshold t) =
    share_sum (ti_participants (vt_task_info t)) - unat (vt_accept_threshold t) + 1"
proof -
  let ?n = "share_sum (ti_participants (vt_task_info t))"
  note v = votes_okD[OF assms]
  have "unat (total_shares (vt_task_info t)) = ?n"
    using v(3) by (rule unat_total_shares)
  then have "unat (total_shares (vt_task_info t) - vt_accept_threshold t) =
      ?n - unat (vt_accept_threshold t)"
    using v(5) by (simp add: unat_sub word_le_nat_alt)
  then show ?thesis
    using v(3,4,5) by (simp add: reject_threshold_def unat_word_ariths)
qed

lemma votes_ok_decide:
  assumes "votes_ok t" "decide t device_id accept = (r, t')"
  shows "votes_ok t'"
proof (cases "find (\<lambda>p. part_id p = device_id) (ti_participants (vt_task_info t))")
  case (Some p)
  then have p: "p \<in> set (ti_participants (vt_task_info t))" "part_id p = device_id"
    by (auto simp: find_Some_iff)
  obtain v where t': "t' = t\<lparr>vt_decisions := hm_insert device_id v (vt_decisions t)\<rparr>"
    and v: "v \<in> {0, ucast (part_shares p), - ucast (part_shares p)}"
    using assms(2) Some by (auto simp: decide_def Let_def split: prod.splits if_splits)
  have "\<exists>q \<in> set (ti_participants (vt_task_info t)). part_id q = d \<and>
      w \<in> {0, ucast (part_shares q), - ucast (part_shares q)}"
    if "(d, w) \<in> set (hm_insert device_id v (vt_decisions t))" for d w
  proof (cases "d = device_id")
    case True
    have "map_of (hm_insert device_id v (vt_decisions t)) d = Some w"
      using that votes_okD(6)[OF assms(1)] by (intro map_of_is_SomeI) auto
    with True p v show ?thesis by auto
  next
    case False
    have "map_of (hm_insert device_id v (vt_decisions t)) d = Some w"
      using that votes_okD(6)[OF assms(1)] by (intro map_of_is_SomeI) auto
    with False have "(d, w) \<in> set (vt_decisions t)"
      by (auto dest: map_of_SomeD)
    with assms(1) show ?thesis by (auto simp: votes_ok_def)
  qed
  with assms(1) show ?thesis
    by (auto simp: t' votes_ok_def)
qed (use assms in \<open>auto simp: decide_def\<close>)

lemma decide_participantD:
  assumes "votes_ok t" "device_id \<in> part_id ` set (ti_participants (vt_task_info t))"
  obtains p where "p \<in> set (ti_participants (vt_task_info t))" "part_id p = device_id"
    "find (\<lambda>p. part_id p = device_id) (ti_participants (vt_task_info t)) = Some p"
proof -
  obtain p where "find (\<lambda>p. part_id p = device_id) (ti_participants (vt_task_info t)) = Some p"
    using assms(2) by (cases "find (\<lambda>p. part_id p = device_id) (ti_participants (vt_task_info t))")
      (auto simp: find_None_iff)
  then show ?thesis
    using that by (metis (mono_tags, lifting) find_Some_iff nth_mem)
qed

lemma decide_frame:
  "decide t device_id accept = (r, t') \<Longrightarrow> vt_task_info t' = vt_task_info t \<and>
     vt_accept_threshold t' = vt_accept_threshold t \<and>
     vt_running_task_context t' = vt_running_task_context t"
  by (auto simp: decide_def Let_def split: option.splits prod.splits)

lemma decide_result:
  assumes "find (\<lambda>p. part_id p = device_id) (ti_participants (vt_task_info t)) = Some p"
    and "decide t device_id accept = (r, t')"
  shows "r = (case accepts_rejects (vt_decisions t') of (accepts, rejects) \<Rightarrow>
    Inr (if accepts \<ge> vt_accept_threshold t' then Accepted
       else if rejects \<ge> reject_threshold t' then
         Decision_Declined \<lparr>dt_task_info = vt_task_info t', dt_accepts = accepts,
           dt_rejects = rejects\<rparr>
       else Undecided))"
  using assms by (clarsimp simp: decide_def Let_def split: prod.splits)

lemma decide_classifies:
  assumes "votes_ok t" "device_id \<in> part_id ` set (ti_participants (vt_task_info t))"
    and "decide t device_id accept = (r, t')"
  obtains a b where "accepts_rejects (vt_decisions t') = (a, b)" "unat a = shares_for t'"
    "unat b = shares_against t'"
    "r = Inr (if a \<ge> vt_accept_threshold t' then Accepted
       else if b \<ge> reject_threshold t' then
         Decision_Declined \<lparr>dt_task_info = vt_task_info t', dt_accepts = a, dt_rejects = b\<rparr>
       else Undecided)"
proof -
  obtain p where "find (\<lambda>p. part_id p = device_id) (ti_participants (vt_task_info t)) = Some p"
    using decide_participantD[OF assms(1,2)] .
  note p = this
  obtain a b where ab: "accepts_rejects (vt_decisions t') = (a, b)"
    by fastforce
  have r: "r = Inr (if a \<ge> vt_accept_threshold t' then Accepted
       else if b \<ge> reject_threshold t' then
         Decision_Declined \<lparr>dt_task_info = vt_task_info t', dt_accepts = a, dt_rejects = b\<rparr>
       else Undecided)"
    using decide_result[OF p assms(3)] ab by simp
  have ok: "votes_ok t'" using assms(1,3) by (rule votes_ok_decide)
  have "shares_for t' < 2 ^ 32" "shares_against t' < 2 ^ 32"
    using shares_for_against_bound[of t'] votes_okD(3)[OF ok] by linarith+
  then have "unat a = shares_for t'" "unat b = shares_against t'"
    using accepts_rejects_weight[OF _ _ ab]
    by (simp_all add: accept_weight_shares[OF ok] reject_weight_shares[OF ok])
  with ab r show ?thesis by (intro that)
qed

lemma thresholds_as_shares:
  assumes "votes_ok t" "unat a = shares_for t" "unat b = shares_against t"
  shows "vt_accept_threshold t \<le> a \<longleftrightarrow> unat (vt_accept_threshold t) \<le> shares_for t"
    "reject_threshold t \<le> b \<longleftrightarrow>
       share_sum (ti_participants (vt_task_info t)) - shares_against t < unat (vt_accept_threshold t)"
  using assms(2,3) unat_reject_threshold[OF assms(1)] votes_okD(4,5)[OF assms(1)]
  by (auto simp: word_le_nat_alt)

section \<open>Properties\<close>

text \<open>A 2-of-3 task with one share each for two devices, three for a third, and one vote so far.\<close>

definition sample_participant :: "u8 \<Rightarrow> u32 \<Rightarrow> participant" where
  "sample_participant n shares = \<lparr>part_device = sample_device n, part_shares = shares\<rparr>"

definition sample_task_info :: task_info where
  "sample_task_info = \<lparr>ti_id = replicate 16 1, ti_name = ''doc'', ti_task_type = TT_SignChallenge,
     ti_protocol_type = Gg18, ti_key_type = KT_SignChallenge,
     ti_participants = [sample_participant 7 3, sample_participant 5 1, sample_participant 6 1],
     ti_observers = [], ti_attempts = 0, ti_request = []\<rparr>"

definition sample_group :: group where
  "sample_group = \<lparr>grp_id = [4], grp_name = ''g'', grp_threshold = 2, grp_protocol = Gg18,
     grp_key_type = KT_SignChallenge, grp_certificate = None, grp_note = None,
     grp_participant_ids_shares = [([7], 3), ([5], 1), ([6], 1)]\<rparr>"

definition sample_voting :: voting_task where
  "sample_voting = \<lparr>vt_task_info = sample_task_info, vt_decisions = [([5], - 1)],
     vt_accept_threshold = 2, vt_running_task_context = Ctx_SignChallenge sample_group [1]\<rparr>"

lemmas sample_voting_defs = sample_voting_def sample_task_info_def sample_participant_def
  sample_device_def sample_group_def

lemma sample_votes_ok: "votes_ok sample_voting"
  by (simp add: votes_ok_def participants_ok_def share_sum_def sample_voting_defs)

text \<open>C4. The outcome of a vote is exact. With every participant's shares below 128, a vote is
  accepted exactly when the shares of the accepting devices reach the threshold, declined exactly
  when the shares that have not rejected no longer can (as soon as it is impossible and no later),
  and undecided otherwise; a declined task reports the true counts. None of the 8 and 32 bit
  computations overflows.\<close>

theorem decide_outcome_is_exact:
  assumes "votes_ok t" "device_id \<in> part_id ` set (ti_participants (vt_task_info t))"
    and "decide t device_id accept = (r, t')"
  shows "\<exists>u. r = Inr u \<and>
    (u = Accepted \<longleftrightarrow> unat (vt_accept_threshold t) \<le> shares_for t') \<and>
    ((\<exists>x. u = Decision_Declined x) \<longleftrightarrow>
       share_sum (ti_participants (vt_task_info t)) - shares_against t' < unat (vt_accept_threshold t)) \<and>
    (\<forall>x. u = Decision_Declined x \<longrightarrow>
       unat (dt_accepts x) = shares_for t' \<and> unat (dt_rejects x) = shares_against t' \<and>
       dt_task_info x = vt_task_info t)"
proof -
  obtain a b where ab: "unat a = shares_for t'" "unat b = shares_against t'"
    "r = Inr (if a \<ge> vt_accept_threshold t' then Accepted
       else if b \<ge> reject_threshold t' then
         Decision_Declined \<lparr>dt_task_info = vt_task_info t', dt_accepts = a, dt_rejects = b\<rparr>
       else Undecided)"
    using decide_classifies[OF assms] .
  have ok: "votes_ok t'" using assms(1,3) by (rule votes_ok_decide)
  note f = decide_frame[OF assms(3)]
  show ?thesis
    using ab f thresholds_as_shares[OF ok ab(1,2)] shares_for_against_bound[of t'] by auto
qed

theorem decide_outcome_is_exact_witness:
  "\<exists>u t'. decide sample_voting [7] False = (Inr u, t') \<and> (\<exists>x. u = Decision_Declined x)"
proof -
  obtain r t' where d: "decide sample_voting [7] False = (r, t')" by fastforce
  have p: "[7] \<in> part_id ` set (ti_participants (vt_task_info sample_voting))"
    by (simp add: sample_voting_defs)
  have t': "t' = snd (decide sample_voting [7] False)" using d by simp
  have "share_sum (ti_participants (vt_task_info sample_voting)) - shares_against t' <
      unat (vt_accept_threshold sample_voting)"
    by (simp add: t' decide_def sample_voting_defs share_sum_def shares_against_def
        device_rejected_def hm_insert_def accepts_rejects_def unsigned_abs_def Let_def)
  then show ?thesis
    using decide_outcome_is_exact[OF sample_votes_ok p d] d by blast
qed

text \<open>A vote is recorded for its device and changes no other: afterwards the device counts as
  accepting exactly when it last accepted, a repeated or changed vote replaces the earlier one, and
  a device that is no participant gets an error and changes nothing.\<close>

lemma decide_records_the_last_vote:
  assumes "votes_ok t" and "decide t device_id accept = (r, t')"
  shows "(device_id \<in> part_id ` set (ti_participants (vt_task_info t)) \<longrightarrow>
      device_accepted t' device_id = accept \<and> device_rejected t' device_id = (\<not> accept)) \<and>
    (\<forall>d. d \<noteq> device_id \<longrightarrow> map_of (vt_decisions t') d = map_of (vt_decisions t) d) \<and>
    (device_id \<notin> part_id ` set (ti_participants (vt_task_info t)) \<longrightarrow>
      r = Inl (Err (GeneralProtocolError ''Invalid task participant id'')) \<and> t' = t)"
proof (intro conjI impI allI)
  assume "device_id \<in> part_id ` set (ti_participants (vt_task_info t))"
  then obtain p where p: "p \<in> set (ti_participants (vt_task_info t))"
    "find (\<lambda>p. part_id p = device_id) (ti_participants (vt_task_info t)) = Some p"
    using decide_participantD[OF assms(1)] by metis
  have s: "part_shares p < 128" "0 < uint (part_shares p)"
    using votes_okD(2)[OF assms(1) p(1)] by (auto simp: word_less_def)
  have "map_of (vt_decisions t') device_id =
    Some (if accept then ucast (part_shares p) else - ucast (part_shares p))"
    using assms(2) p(2) by (auto simp: decide_def Let_def split: prod.splits)
  with s show "device_accepted t' device_id = accept" "device_rejected t' device_id = (\<not> accept)"
    by (auto simp: device_accepted_def device_rejected_def sint_vote)
next
  assume "device_id \<notin> part_id ` set (ti_participants (vt_task_info t))"
  then have "find (\<lambda>p. part_id p = device_id) (ti_participants (vt_task_info t)) = None"
    by (auto simp: find_None_iff)
  with assms(2) show "r = Inl (Err (GeneralProtocolError ''Invalid task participant id''))" "t' = t"
    by (simp_all add: decide_def)
qed (use assms(2) in \<open>auto simp: decide_def Let_def split: option.splits prod.splits\<close>)

text \<open>C39. The bound of 127 shares in the two statements above is needed: the number of shares is cast
  to an 8 bit signed integer, so a participant with 128 to 255 shares who accepts is recorded with a
  negative vote and counted among the rejecting shares.\<close>

theorem accepting_with_128_shares_counts_as_rejecting:
  assumes "find (\<lambda>p. part_id p = device_id) (ti_participants (vt_task_info t)) = Some p"
    and "128 \<le> unat (part_shares p)" "unat (part_shares p) < 256"
    and "decide t device_id True = (r, t')"
  shows "\<not> device_accepted t' device_id \<and> device_rejected t' device_id"
proof -
  have "sint (ucast (part_shares p) :: i8) < 0"
    using assms(2,3) by (rule sint_vote_negative)
  moreover have "map_of (vt_decisions t') device_id = Some (ucast (part_shares p))"
    using assms(1,4) by (auto simp: decide_def Let_def split: prod.splits)
  ultimately show ?thesis
    by (simp add: device_accepted_def device_rejected_def)
qed

theorem accepting_with_128_shares_counts_as_rejecting_witness:
  "device_rejected (snd (decide (sample_voting\<lparr>vt_task_info := sample_task_info\<lparr>ti_participants :=
     [sample_participant 7 200]\<rparr>\<rparr>) [7] True)) [7]"
proof -
  let ?t = "sample_voting\<lparr>vt_task_info := sample_task_info\<lparr>ti_participants :=
     [sample_participant 7 200]\<rparr>\<rparr>"
  have "find (\<lambda>p. part_id p = [7]) (ti_participants (vt_task_info ?t)) = Some (sample_participant 7 200)"
    by (simp add: sample_participant_def sample_device_def)
  then show ?thesis
    using accepting_with_128_shares_counts_as_rejecting[OF _ _ _ prod.collapse[symmetric]]
    by (simp add: sample_participant_def)
qed

end
