(* ===== verification/Sign_Pdf_Task.thy ===== *)
theory Sign_Pdf_Task
  imports Sign_Task Voting
begin

text \<open>
  The task that signs a PDF document, \<^verbatim>\<open>SignPDFTask\<close> of \<^verbatim>\<open>src/tasks/sign_pdf.rs\<close>: a signing task whose
  data is hashed, and whose signature is put into the document, by a helper process kept in the
  static \<^verbatim>\<open>PDF_HELPERS\<close>.
\<close>

section \<open>State and operations\<close>

record sign_pdf_task =
  sp_sign_task :: sign_task

definition sign_pdf_task_try_new ::
    "task_info \<Rightarrow> group \<Rightarrow> bytes \<Rightarrow> communicator \<Rightarrow> string + sign_pdf_task" where
  "sign_pdf_task_try_new task_info grp data communicator =
     (if length data > 8 * 1024 * 1024 \<or> length (ti_name task_info) > 256 \<or>
         any_control (ti_name task_info)
      then Inl ''Invalid input''
      else map_sum (\<lambda>e. e) (\<lambda>t. \<lparr>sp_sign_task = t\<rparr>)
        (sign_task_try_new task_info grp data communicator))"

definition sign_pdf_task_from_model ::
    "task_info \<Rightarrow> task_model \<Rightarrow> communicator \<Rightarrow> group \<Rightarrow> sign_pdf_task res" where
  "sign_pdf_task_from_model task_info model communicator grp =
     res_bind (sign_task_from_model task_info model communicator grp)
       (\<lambda>t. Inr \<lparr>sp_sign_task = t\<rparr>)"

abbreviation sp_task_info :: "sign_pdf_task \<Rightarrow> task_info" where
  "sp_task_info t \<equiv> st_task_info (sp_sign_task t)"

abbreviation sp_communicator :: "sign_pdf_task \<Rightarrow> communicator" where
  "sp_communicator t \<equiv> st_communicator (sp_sign_task t)"

abbreviation sp_protocol :: "sign_pdf_task \<Rightarrow> protocol" where
  "sp_protocol t \<equiv> st_protocol (sp_sign_task t)"

text \<open>
  \<^verbatim>\<open>request_hash\<close>: the certificate is written to the helper, which answers with 64 hexadecimal digits
  and a newline; no answer is an empty hash. A failed write and digits that do not decode (bytes
  that are not UTF-8 among them, no such byte being a digit) panic.
\<close>

definition request_hash :: "env \<Rightarrow> child \<Rightarrow> bytes \<Rightarrow> bytes res" where
  "request_hash E process certificate =
     (if \<not> helper_write_certificate E process certificate then Inl Panic
      else case helper_read_hash E process certificate of
             None \<Rightarrow> Inr []
           | Some in_buffer \<Rightarrow>
               (case hex_decode E (take 64 in_buffer) of None \<Rightarrow> Inl Panic | Some hash \<Rightarrow> Inr hash))"

text \<open>
  \<^verbatim>\<open>include_signature\<close>: \<^verbatim>\<open>copy_from_slice\<close> panics unless the signature has 128 hexadecimal digits; so
  do a failed write or read and a result that does not decode.
\<close>

definition include_signature :: "env \<Rightarrow> child \<Rightarrow> bytes \<Rightarrow> bytes res" where
  "include_signature E process signature =
     (let digits = hex_encode E signature; out_buffer = digits @ [10]
      in if length digits \<noteq> 128 then Inl Panic
         else if \<not> helper_write_signature E process out_buffer then Inl Panic
         else case helper_read_result E process out_buffer of
                None \<Rightarrow> Inl Panic
              | Some result \<Rightarrow>
                  (case hex_decode E result of None \<Rightarrow> Inl Panic | Some pdf \<Rightarrow> Inr pdf))"

definition pdf_failed :: "sign_pdf_task \<Rightarrow> string \<Rightarrow> round_update" where
  "pdf_failed t reason = Round_Failed \<lparr>xt_task_info = sp_task_info t, xt_reason = reason\<rparr>"

text \<open>The three calls that may fail with a server error, and the helper they start.\<close>

definition start_pdfhelper :: "env \<Rightarrow> bytes \<Rightarrow> world \<Rightarrow> child option \<times> world" where
  "start_pdfhelper E data w =
     (case next_call w of (n, w') \<Rightarrow>
        (if \<not> tempfile_new E n \<or> \<not> tempfile_write E n data then None
         else spawn_pdfhelper E n data, w'))"

definition sign_pdf_task_start_task :: "env \<Rightarrow> (sign_pdf_task \<times> world, round_update) eff" where
  "sign_pdf_task_start_task E = (\<lambda>(t, w).
     case start_pdfhelper E (st_data (sp_sign_task t)) w of
       (None, w) \<Rightarrow> (Inr (pdf_failed t ''Task failed (server error)''), t, w)
     | (Some pdfhelper, w) \<Rightarrow>
         (case grp_certificate (st_group (sp_sign_task t)) of
            None \<Rightarrow> (Inl Panic, t, w)
          | Some certificate \<Rightarrow>
              (case request_hash E pdfhelper certificate of
                 Inl e \<Rightarrow> (Inl e, t, w)
               | Inr hash \<Rightarrow>
                   if hash = [] then (Inr (pdf_failed t ''Task failed (invalid PDF)''), t, w)
                   else if w_pdf_poisoned w then (Inl Panic, t, w)
                   else
                     let w = w\<lparr>w_pdf_helpers := (w_pdf_helpers w)(ti_id (sp_task_info t) \<mapsto> pdfhelper)\<rparr>
                     in case sign_task_start_task E (set_preprocessed (sp_sign_task t) hash, w) of
                          (r, t', w') \<Rightarrow> (r, t\<lparr>sp_sign_task := t'\<rparr>, w'))))"

definition sign_pdf_task_advance_task :: "env \<Rightarrow> (sign_pdf_task \<times> world, round_update) eff" where
  "sign_pdf_task_advance_task E = (\<lambda>(t, w).
     case sign_task_advance_task E (sp_sign_task t, w) of
       (r, t', w') \<Rightarrow> (r, t\<lparr>sp_sign_task := t'\<rparr>, w'))"

text \<open>
  The helper is taken out of the map in one statement that holds the lock, so when it is missing the
  panic of \<^verbatim>\<open>unwrap\<close> poisons the mutex.
\<close>

definition take_pdfhelper :: "uuid \<Rightarrow> (world, child) eff" where
  "take_pdfhelper task_id w =
     (if w_pdf_poisoned w then (Inl Panic, w)
      else case w_pdf_helpers w task_id of
             None \<Rightarrow> (Inl Panic, w\<lparr>w_pdf_poisoned := True\<rparr>)
           | Some pdfhelper \<Rightarrow>
               (Inr pdfhelper, w\<lparr>w_pdf_helpers := (w_pdf_helpers w)(task_id := None)\<rparr>))"

definition sign_pdf_task_finalize_task :: "env \<Rightarrow> (sign_pdf_task \<times> world, round_update) eff" where
  "sign_pdf_task_finalize_task E = (\<lambda>(t, w).
     case sign_task_finalize_task E (sp_sign_task t, w) of (r, t', w) \<Rightarrow>
       let t = t\<lparr>sp_sign_task := t'\<rparr>
       in case r of
            Inr (Round_Finished round task) \<Rightarrow>
              (case take_pdfhelper (ti_id (sp_task_info t)) w of
                 (Inl e, w) \<Rightarrow> (Inl e, t, w)
               | (Inr pdfhelper, w) \<Rightarrow>
                   (case ft_result task of
                      Signed signature \<Rightarrow>
                        (case include_signature E pdfhelper signature of
                           Inl e \<Rightarrow> (Inl e, t, w)
                         | Inr pdf \<Rightarrow>
                             (Inr (Round_Finished round (task\<lparr>ft_result := SignedPdf pdf\<rparr>)), t, w))
                    | _ \<Rightarrow> (Inl Panic, t, w)))
          | other \<Rightarrow> (other, t, w))"

definition sign_pdf_task_next_round :: "env \<Rightarrow> (sign_pdf_task \<times> world, round_update) eff" where
  "sign_pdf_task_next_round E = (\<lambda>(t, w).
     if protocol_round (sp_protocol t) = 0 then sign_pdf_task_start_task E (t, w)
     else if protocol_round (sp_protocol t) < protocol_last_round E (sp_protocol t)
     then sign_pdf_task_advance_task E (t, w)
     else sign_pdf_task_finalize_task E (t, w))"

definition sign_pdf_task_get_work :: "sign_pdf_task \<Rightarrow> bytes \<Rightarrow> bytes list" where
  "sign_pdf_task_get_work t device_id = sign_task_get_work (sp_sign_task t) device_id"

definition sign_pdf_task_get_round :: "sign_pdf_task \<Rightarrow> u16" where
  "sign_pdf_task_get_round t = sign_task_get_round (sp_sign_task t)"

definition sign_pdf_task_waiting_for :: "sign_pdf_task \<Rightarrow> bytes \<Rightarrow> bool" where
  "sign_pdf_task_waiting_for t device = sign_task_waiting_for (sp_sign_task t) device"

definition sign_pdf_task_initialize :: "env \<Rightarrow> (sign_pdf_task \<times> world, round_update) eff" where
  "sign_pdf_task_initialize E = sign_pdf_task_start_task E"

definition sign_pdf_task_update ::
    "env \<Rightarrow> bytes \<Rightarrow> client_message list \<Rightarrow> (sign_pdf_task \<times> world, round_update) eff" where
  "sign_pdf_task_update E device_id messages = (\<lambda>(t, w).
     case sign_task_update_internal E device_id messages (sp_sign_task t) of (r, t') \<Rightarrow>
       let t = t\<lparr>sp_sign_task := t'\<rparr>
       in case r of
            Inl e \<Rightarrow> (Inl e, t, w)
          | Inr complete \<Rightarrow>
              if complete then sign_pdf_task_next_round E (t, w) else (Inr Listen, t, w))"

text \<open>
  The lock is held for the whole \<^verbatim>\<open>if let\<close>, so a helper that cannot be killed poisons the mutex.
\<close>

definition sign_pdf_task_restart :: "env \<Rightarrow> (sign_pdf_task \<times> world, round_update) eff" where
  "sign_pdf_task_restart E = (\<lambda>(t, w).
     if w_pdf_poisoned w then (Inl Panic, t, w)
     else
       let task_id = ti_id (sp_task_info t);
           w' = w\<lparr>w_pdf_helpers := (w_pdf_helpers w)(task_id := None)\<rparr>;
           t' = t\<lparr>sp_sign_task := sign_task_increment_attempt_count (sp_sign_task t)\<rparr>
       in case w_pdf_helpers w task_id of
            None \<Rightarrow> sign_pdf_task_start_task E (t', w')
          | Some pdfhelper \<Rightarrow>
              if \<not> helper_kill E pdfhelper then (Inl Panic, t, w'\<lparr>w_pdf_poisoned := True\<rparr>)
              else sign_pdf_task_start_task E (t', w'))"

section \<open>The task implements the interface\<close>

lemma request_hash_Panic: "request_hash E p cert = Inl e \<Longrightarrow> e = Panic"
  by (auto simp: request_hash_def split: if_splits option.splits)

lemma sign_pdf_task_started:
  assumes "sign_pdf_task_start_task E (t, w) = (r, t', w')"
  shows "sp_task_info t' = sp_task_info t \<and>
    protocol_last_round E (sp_protocol t') = protocol_last_round E (sp_protocol t) \<and>
    started (sp_task_info t) (sp_communicator t) (sp_communicator t')
      (protocol_round (sp_protocol t')) r"
proof -
  have *: "st_task_info (set_preprocessed s h) = st_task_info s"
    "st_communicator (set_preprocessed s h) = st_communicator s"
    "st_protocol (set_preprocessed s h) = st_protocol s" for s h
    by (simp_all add: set_preprocessed_def)
  show ?thesis
    using assms
    by (auto simp: sign_pdf_task_start_task_def Let_def pdf_failed_def started_def *
        split: prod.splits option.splits sum.splits if_splits
        dest!: sign_task_started request_hash_Panic)
qed

lemma sign_pdf_task_finalized:
  assumes "protocol_round (sp_protocol t) = protocol_last_round E (sp_protocol t)"
    and "sign_pdf_task_finalize_task E (t, w) = (r, t', w')"
  shows "sp_task_info t' = sp_task_info t \<and>
    sp_communicator t' \<in> {sp_communicator t, clear_input (sp_communicator t)} \<and>
    finalized (sp_task_info t) (protocol_round (sp_protocol t))
      (get_final_message E (sp_communicator t)) r"
proof -
  obtain rs s ws where s: "sign_task_finalize_task E (sp_sign_task t, w) = (rs, s, ws)"
    by (metis prod_cases3)
  note f = sign_task_finalized[OF assms(1) s]
  show ?thesis
    using assms(2) f s
    by (auto simp: sign_pdf_task_finalize_task_def Let_def finalized_def finished_task_new_def
        split: sum.splits option.splits prod.splits)
qed

lemma sign_pdf_task_next_final:
  "0 < protocol_last_round E (sp_protocol t) \<Longrightarrow>
     protocol_round (sp_protocol t) = protocol_last_round E (sp_protocol t) \<Longrightarrow>
     sign_pdf_task_next_round E (t, w) = sign_pdf_task_finalize_task E (t, w)"
  by (auto simp: sign_pdf_task_next_round_def)

lemma sign_pdf_task_advanced:
  assumes "0 < protocol_round (sp_protocol t)"
    and "protocol_round (sp_protocol t) < protocol_last_round E (sp_protocol t)"
  shows "\<exists>t'. sign_pdf_task_next_round E (t, w) =
      (Inr (NextRound (protocol_round (sp_protocol t) + 1)), t', w) \<and>
    sp_communicator t' = relay E (sp_communicator t) \<and>
    protocol_round (sp_protocol t') = protocol_round (sp_protocol t) + 1 \<and>
    protocol_last_round E (sp_protocol t') = protocol_last_round E (sp_protocol t) \<and>
    sp_task_info t' = sp_task_info t"
proof -
  obtain s where s: "sign_task_advance_task E (sp_sign_task t, w) =
      (Inr (NextRound (protocol_round (sp_protocol t) + 1)), s, w)"
    "st_communicator s = relay E (sp_communicator t)"
    "protocol_round (st_protocol s) = protocol_round (sp_protocol t) + 1"
    "protocol_last_round E (st_protocol s) = protocol_last_round E (sp_protocol t)"
    "st_task_info s = sp_task_info t"
    using sign_task_advanced[OF assms(2), of w] by blast
  then have "sign_pdf_task_next_round E (t, w) =
      (Inr (NextRound (protocol_round (sp_protocol t) + 1)), t\<lparr>sp_sign_task := s\<rparr>, w)"
    using assms by (auto simp: sign_pdf_task_next_round_def sign_pdf_task_advance_task_def)
  with s show ?thesis by simp
qed

lemma sign_pdf_task_restarted:
  assumes "sign_pdf_task_restart E (t, w) = (r, t', w')"
  shows "r = Inl Panic \<and> t' = t \<or>
    sp_task_info t' = (sp_task_info t)\<lparr>ti_attempts := ti_attempts (sp_task_info t) + 1\<rparr> \<and>
    started (sp_task_info t') (sp_communicator t) (sp_communicator t')
      (protocol_round (sp_protocol t')) r"
  using assms
  by (auto simp: sign_pdf_task_restart_def Let_def sign_task_increment_attempt_count_def
      split: option.splits if_splits dest!: sign_pdf_task_started)

interpretation sign_pdf_task: running_task_impl sp_task_info sp_communicator sp_protocol
  "\<lambda>_. True" "\<lambda>_. False" "\<lambda>c t. t\<lparr>sp_sign_task := (sp_sign_task t)\<lparr>st_communicator := c\<rparr>\<rparr>"
  sign_pdf_task_update sign_pdf_task_next_round sign_pdf_task_restart
proof unfold_locales
  fix E :: env and t t' :: sign_pdf_task and w w' :: world and r :: "round_update res"
  show "0 < protocol_last_round E (sp_protocol t) \<Longrightarrow>
      protocol_round (sp_protocol t) = protocol_last_round E (sp_protocol t) \<Longrightarrow>
      sign_pdf_task_next_round E (t, w) = (r, t', w') \<Longrightarrow>
    sp_task_info t' = sp_task_info t \<and> True \<and>
    sp_communicator t' \<in> {sp_communicator t, clear_input (sp_communicator t)} \<and>
    finalized (sp_task_info t) (protocol_round (sp_protocol t))
      (get_final_message E (sp_communicator t)) r"
    using sign_pdf_task_finalized[of t E w r t' w'] sign_pdf_task_next_final[of E t w] by simp
  show "protocol_round (sp_protocol t) = 0 \<Longrightarrow>
      sign_pdf_task_next_round E (t, w) = (r, t', w') \<Longrightarrow>
    sp_task_info t' = sp_task_info t \<and> True \<and>
    protocol_last_round E (sp_protocol t') = protocol_last_round E (sp_protocol t) \<and>
    started (sp_task_info t) (sp_communicator t) (sp_communicator t')
      (protocol_round (sp_protocol t')) r"
    using sign_pdf_task_started[of E t w r t' w'] by (auto simp: sign_pdf_task_next_round_def)
qed (use sign_pdf_task_advanced sign_pdf_task_restarted in \<open>auto simp: sign_pdf_task_update_def
    sign_task_update_internal_def sign_task_waiting_for_def not_waiting_error_def Let_def\<close>)

section \<open>Properties\<close>

text \<open>A PDF task in its last round, in a server that has no helper for it.\<close>

definition sample_pdf_task :: sign_pdf_task where
  "sample_pdf_task = \<lparr>sp_sign_task = \<lparr>st_task_info = sample_task_info, st_group = sample_group,
     st_communicator = sample_comm, st_data = [1], st_preprocessed = Some [2],
     st_protocol = GG18_Sign \<lparr>gg18_sign_round = 3\<rparr>\<rparr>\<rparr>"

definition sample_world :: world where
  "sample_world = \<lparr>w_calls = 0, w_pdf_helpers = Map.empty, w_pdf_poisoned = False\<rparr>"



end
