(* ===== verification/Decrypt_Task.thy ===== *)
theory Decrypt_Task
  imports Running_Tasks
begin

text \<open>The task that decrypts data with a group key, \<^verbatim>\<open>DecryptTask\<close> of \<^verbatim>\<open>src/tasks/decrypt.rs\<close>.\<close>

section \<open>State and operations\<close>

record decrypt_task =
  ct_task_info :: task_info
  ct_group :: group
  ct_communicator :: communicator
  ct_data :: bytes
  ct_protocol :: protocol

definition decrypt_task_new :: "task_info \<Rightarrow> group \<Rightarrow> bytes \<Rightarrow> communicator \<Rightarrow> decrypt_task" where
  "decrypt_task_new task_info grp data communicator =
     \<lparr>ct_task_info = task_info, ct_group = grp, ct_communicator = communicator, ct_data = data,
      ct_protocol = Elgamal_Decrypt elgamal_decrypt_new\<rparr>"

definition decrypt_task_from_model ::
    "task_info \<Rightarrow> task_model \<Rightarrow> communicator \<Rightarrow> group \<Rightarrow> decrypt_task res" where
  "decrypt_task_from_model task_info model communicator grp =
     res_bind (res_of_string_result (create_threshold_protocol
         (proto_of_protocol_type (grp_protocol grp)) (proto_of_key_type (grp_key_type grp))
         (ucast (tm_protocol_round model))))
       (\<lambda>protocol.
          case tm_task_data model of
            None \<Rightarrow> Inl (Err (PersistenceError (DataInconsistencyError
              ''Task data not set for a sign task'')))
          | Some data \<Rightarrow>
              Inr \<lparr>ct_task_info = task_info, ct_group = grp, ct_communicator = communicator,
                ct_data = data, ct_protocol = protocol\<rparr>)"

definition decrypt_task_increment_attempt_count :: "decrypt_task \<Rightarrow> decrypt_task" where
  "decrypt_task_increment_attempt_count t =
     t\<lparr>ct_task_info := (ct_task_info t)\<lparr>ti_attempts := ti_attempts (ct_task_info t) + 1\<rparr>\<rparr>"

definition decrypt_task_start_task :: "env \<Rightarrow> (decrypt_task \<times> world, round_update) eff" where
  "decrypt_task_start_task E = (\<lambda>(t, w).
     case protocol_initialize E (ct_protocol t) (ct_communicator t) (ct_data t) of (p, c) \<Rightarrow>
       (Inr (NextRound (protocol_round p)), t\<lparr>ct_protocol := p, ct_communicator := c\<rparr>, w))"

definition decrypt_task_advance_task :: "env \<Rightarrow> (decrypt_task \<times> world, round_update) eff" where
  "decrypt_task_advance_task E = (\<lambda>(t, w).
     case protocol_advance E (ct_protocol t) (ct_communicator t) of (r, p, c) \<Rightarrow>
       (case r of Inl e \<Rightarrow> Inl e | Inr _ \<Rightarrow> Inr (NextRound (protocol_round p)),
        t\<lparr>ct_protocol := p, ct_communicator := c\<rparr>, w))"

definition decrypt_task_finalize_task :: "env \<Rightarrow> (decrypt_task \<times> world, round_update) eff" where
  "decrypt_task_finalize_task E = (\<lambda>(t, w).
     case protocol_finalize E (ct_protocol t) (ct_communicator t) of (r, p, c) \<Rightarrow>
       let t = t\<lparr>ct_protocol := p, ct_communicator := c\<rparr>
       in case r of
            Inl e \<Rightarrow> (Inl e, t, w)
          | Inr None \<Rightarrow>
              (Inr (Round_Failed \<lparr>xt_task_info = ct_task_info t,
                 xt_reason = ''Task failed (data not output)''\<rparr>), t, w)
          | Inr (Some output) \<Rightarrow>
              (Inr (Round_Finished (protocol_round (ct_protocol t))
                 (finished_task_new (ct_task_info t) (Decrypted output))),
               t\<lparr>ct_communicator := clear_input (ct_communicator t)\<rparr>, w))"

definition decrypt_task_next_round :: "env \<Rightarrow> (decrypt_task \<times> world, round_update) eff" where
  "decrypt_task_next_round E = (\<lambda>(t, w).
     if protocol_round (ct_protocol t) = 0 then decrypt_task_start_task E (t, w)
     else if protocol_round (ct_protocol t) < protocol_last_round E (ct_protocol t)
     then decrypt_task_advance_task E (t, w)
     else decrypt_task_finalize_task E (t, w))"

definition decrypt_task_waiting_for :: "decrypt_task \<Rightarrow> bytes \<Rightarrow> bool" where
  "decrypt_task_waiting_for t device = waiting_for (ct_communicator t) device"

definition decrypt_task_update_internal ::
    "env \<Rightarrow> bytes \<Rightarrow> client_message list \<Rightarrow> decrypt_task \<Rightarrow> bool res \<times> decrypt_task" where
  "decrypt_task_update_internal E device_id messages t =
     (if \<not> decrypt_task_waiting_for t device_id then
        (Inl (Err (GeneralProtocolError ''Wasn't waiting for a message from this ID.'')), t)
      else case receive_messages (ct_communicator t) device_id messages of (r, c) \<Rightarrow>
        let t = t\<lparr>ct_communicator := c\<rparr>
        in (case r of
              Inl e \<Rightarrow> Inl e
            | Inr _ \<Rightarrow> Inr (round_received (ct_communicator t) \<and>
                protocol_round (ct_protocol t) \<le> protocol_last_round E (ct_protocol t)), t))"

definition decrypt_task_get_work :: "decrypt_task \<Rightarrow> bytes \<Rightarrow> bytes list" where
  "decrypt_task_get_work t device_id =
     (if \<not> decrypt_task_waiting_for t device_id then []
      else get_messages (ct_communicator t) device_id)"

definition decrypt_task_get_round :: "decrypt_task \<Rightarrow> u16" where
  "decrypt_task_get_round t = protocol_round (ct_protocol t)"

definition decrypt_task_initialize :: "env \<Rightarrow> (decrypt_task \<times> world, round_update) eff" where
  "decrypt_task_initialize E = decrypt_task_start_task E"

definition decrypt_task_update ::
    "env \<Rightarrow> bytes \<Rightarrow> client_message list \<Rightarrow> (decrypt_task \<times> world, round_update) eff" where
  "decrypt_task_update E device_id messages = (\<lambda>(t, w).
     case decrypt_task_update_internal E device_id messages t of
       (Inl e, t') \<Rightarrow> (Inl e, t', w)
     | (Inr complete, t') \<Rightarrow> if complete then decrypt_task_next_round E (t', w) else (Inr Listen, t', w))"

definition decrypt_task_restart :: "env \<Rightarrow> (decrypt_task \<times> world, round_update) eff" where
  "decrypt_task_restart E = (\<lambda>(t, w). decrypt_task_start_task E (decrypt_task_increment_attempt_count t, w))"

section \<open>The task implements the interface\<close>

lemma decrypt_task_started:
  assumes "decrypt_task_start_task E (t, w) = (r, t', w')"
  shows "ct_task_info t' = ct_task_info t \<and>
    protocol_last_round E (ct_protocol t') = protocol_last_round E (ct_protocol t) \<and>
    started (ct_task_info t) (ct_communicator t) (ct_communicator t')
      (protocol_round (ct_protocol t')) r"
  using assms
  by (auto simp: decrypt_task_start_task_def started_def split: prod.splits dest: dyn.initialize_starts)

lemma decrypt_task_finalized:
  assumes "protocol_round (ct_protocol t) = protocol_last_round E (ct_protocol t)"
    and "decrypt_task_finalize_task E (t, w) = (r, t', w')"
  shows "ct_task_info t' = ct_task_info t \<and> w' = w \<and>
    ct_communicator t' \<in> {ct_communicator t, clear_input (ct_communicator t)} \<and>
    r = (case get_final_message E (ct_communicator t) of
        Inl e \<Rightarrow> Inl e
      | Inr None \<Rightarrow> Inr (Round_Failed \<lparr>xt_task_info = ct_task_info t,
          xt_reason = ''Task failed (data not output)''\<rparr>)
      | Inr (Some m) \<Rightarrow> Inr (Round_Finished (protocol_round (ct_protocol t) + 1)
          (finished_task_new (ct_task_info t) (Decrypted m))))"
proof -
  obtain p' where p': "protocol_finalize E (ct_protocol t) (ct_communicator t) =
      (get_final_message E (ct_communicator t), p', ct_communicator t)"
    "protocol_round p' = protocol_round (ct_protocol t) + 1"
    using dyn.finalize_counts[OF assms(1)] by blast
  show ?thesis
    using assms(2) p'
    by (auto simp: decrypt_task_finalize_task_def Let_def split: sum.splits option.splits)
qed

lemma decrypt_task_next_final:
  "0 < protocol_last_round E (ct_protocol t) \<Longrightarrow>
     protocol_round (ct_protocol t) = protocol_last_round E (ct_protocol t) \<Longrightarrow>
     decrypt_task_next_round E (t, w) = decrypt_task_finalize_task E (t, w)"
  by (auto simp: decrypt_task_next_round_def)

lemma decrypt_task_delivers:
  assumes "0 < protocol_last_round E (ct_protocol t)"
    and "protocol_round (ct_protocol t) = protocol_last_round E (ct_protocol t)"
    and "get_final_message E (ct_communicator t) = Inr (Some m)"
  shows "\<exists>f t'. decrypt_task_next_round E (t, w) =
      (Inr (Round_Finished (protocol_round (ct_protocol t) + 1) f), t', w) \<and>
    as_bytes (ft_result f) = m"
proof -
  obtain r t' w' where f: "decrypt_task_finalize_task E (t, w) = (r, t', w')"
    by (metis prod_cases3)
  show ?thesis
    unfolding decrypt_task_next_final[OF assms(1,2)]
    using decrypt_task_finalized[OF assms(2) f] assms(3) by (simp add: f finished_task_new_def)
qed

lemma decrypt_task_advanced:
  assumes "protocol_round (ct_protocol t) < protocol_last_round E (ct_protocol t)"
  shows "\<exists>t'. decrypt_task_advance_task E (t, w) =
      (Inr (NextRound (protocol_round (ct_protocol t) + 1)), t', w) \<and>
    ct_communicator t' = relay E (ct_communicator t) \<and>
    protocol_round (ct_protocol t') = protocol_round (ct_protocol t) + 1 \<and>
    protocol_last_round E (ct_protocol t') = protocol_last_round E (ct_protocol t) \<and>
    ct_task_info t' = ct_task_info t"
proof -
  obtain p' where "protocol_advance E (ct_protocol t) (ct_communicator t) =
      (Inr (), p', relay E (ct_communicator t))"
    "protocol_round p' = protocol_round (ct_protocol t) + 1"
    "protocol_last_round E p' = protocol_last_round E (ct_protocol t)"
    using dyn.advance_counts[OF assms] by blast
  then show ?thesis by (simp add: decrypt_task_advance_task_def)
qed

lemma decrypt_task_starts:
  assumes "protocol_round (ct_protocol t) = 0"
  shows "\<exists>t' f. decrypt_task_next_round E (t, w) = (Inr (NextRound 1), t', w) \<and>
    ct_communicator t' = send_all (ct_communicator t) f \<and> protocol_round (ct_protocol t') = 1 \<and>
    protocol_last_round E (ct_protocol t') = protocol_last_round E (ct_protocol t) \<and>
    ct_task_info t' = ct_task_info t"
proof -
  obtain p' c' where i: "protocol_initialize E (ct_protocol t) (ct_communicator t) (ct_data t) = (p', c')"
    by fastforce
  show ?thesis
    using dyn.initialize_starts[OF i] i assms
    by (auto simp: decrypt_task_next_round_def decrypt_task_start_task_def)
qed

interpretation decrypt_task: running_task_impl ct_task_info ct_communicator ct_protocol
  "\<lambda>_. True" "\<lambda>_. True" "\<lambda>c. ct_communicator_update (\<lambda>_. c)" decrypt_task_update decrypt_task_next_round decrypt_task_restart
proof unfold_locales
  fix E :: env and t t' :: decrypt_task and w w' :: world and r :: "round_update res"
  show "0 < protocol_last_round E (ct_protocol t) \<Longrightarrow>
      protocol_round (ct_protocol t) = protocol_last_round E (ct_protocol t) \<Longrightarrow>
      decrypt_task_next_round E (t, w) = (r, t', w') \<Longrightarrow>
    ct_task_info t' = ct_task_info t \<and> True \<and>
    ct_communicator t' \<in> {ct_communicator t, clear_input (ct_communicator t)} \<and>
    finalized (ct_task_info t) (protocol_round (ct_protocol t))
      (get_final_message E (ct_communicator t)) r"
    using decrypt_task_finalized[of t E w r t' w'] decrypt_task_next_final[of E t w]
    by (simp add: finalized_def finished_task_new_def split: sum.splits option.splits)
  show "protocol_round (ct_protocol t) = 0 \<Longrightarrow> decrypt_task_next_round E (t, w) = (r, t', w') \<Longrightarrow>
    ct_task_info t' = ct_task_info t \<and> True \<and>
    protocol_last_round E (ct_protocol t') = protocol_last_round E (ct_protocol t) \<and>
    started (ct_task_info t) (ct_communicator t) (ct_communicator t')
      (protocol_round (ct_protocol t')) r"
    using decrypt_task_started[of E t w r t' w'] by (auto simp: decrypt_task_next_round_def)
  show "0 < protocol_round (ct_protocol t) \<Longrightarrow>
      protocol_round (ct_protocol t) < protocol_last_round E (ct_protocol t) \<Longrightarrow>
    \<exists>t'. decrypt_task_next_round E (t, w) = (Inr (NextRound (protocol_round (ct_protocol t) + 1)), t', w) \<and>
      ct_communicator t' = relay E (ct_communicator t) \<and>
      protocol_round (ct_protocol t') = protocol_round (ct_protocol t) + 1 \<and>
      protocol_last_round E (ct_protocol t') = protocol_last_round E (ct_protocol t) \<and>
      ct_task_info t' = ct_task_info t \<and> True \<and> True = True"
    using decrypt_task_advanced[of t E w] by (auto simp: decrypt_task_next_round_def)
  show "decrypt_task_restart E (t, w) = (r, t', w') \<Longrightarrow>
    r = Inl Panic \<and> t' = t \<or>
    ct_task_info t' = (ct_task_info t)\<lparr>ti_attempts := ti_attempts (ct_task_info t) + 1\<rparr> \<and>
    started (ct_task_info t') (ct_communicator t) (ct_communicator t')
      (protocol_round (ct_protocol t')) r"
    using decrypt_task_started[of E "decrypt_task_increment_attempt_count t" w r t' w']
    by (auto simp: decrypt_task_restart_def decrypt_task_increment_attempt_count_def)
qed (use decrypt_task_delivers decrypt_task_starts in \<open>auto simp: decrypt_task_update_def decrypt_task_update_internal_def decrypt_task_waiting_for_def not_waiting_error_def Let_def\<close>)

end
