(* ===== verification/Task_Dispatch.thy ===== *)
theory Task_Dispatch
  imports Group_Task Sign_Pdf_Task Decrypt_Task Voting
begin

text \<open>
  The trait objects \<^verbatim>\<open>Box<dyn RunningTask>\<close>, the dispatch of the trait's methods, the task a vote
  becomes once accepted, and the enumeration \<^verbatim>\<open>Task\<close> of all phases with its view for clients
  (\<^verbatim>\<open>src/tasks/mod.rs\<close>).
\<close>

section \<open>Trait objects\<close>

datatype running_task =
    Run_Group group_task
  | Run_Sign sign_task
  | Run_SignPdf sign_pdf_task
  | Run_Decrypt decrypt_task

fun running_task_info :: "running_task \<Rightarrow> task_info" where
  "running_task_info (Run_Group t) = gt_task_info t"
| "running_task_info (Run_Sign t) = st_task_info t"
| "running_task_info (Run_SignPdf t) = sp_task_info t"
| "running_task_info (Run_Decrypt t) = ct_task_info t"

fun running_task_get_work :: "running_task \<Rightarrow> bytes \<Rightarrow> bytes list" where
  "running_task_get_work (Run_Group t) device_id = group_task_get_work t device_id"
| "running_task_get_work (Run_Sign t) device_id = sign_task_get_work t device_id"
| "running_task_get_work (Run_SignPdf t) device_id = sign_pdf_task_get_work t device_id"
| "running_task_get_work (Run_Decrypt t) device_id = decrypt_task_get_work t device_id"

fun running_task_get_round :: "running_task \<Rightarrow> u16" where
  "running_task_get_round (Run_Group t) = group_task_get_round t"
| "running_task_get_round (Run_Sign t) = sign_task_get_round t"
| "running_task_get_round (Run_SignPdf t) = sign_pdf_task_get_round t"
| "running_task_get_round (Run_Decrypt t) = decrypt_task_get_round t"

fun running_task_waiting_for :: "running_task \<Rightarrow> bytes \<Rightarrow> bool" where
  "running_task_waiting_for (Run_Group t) device = group_task_waiting_for t device"
| "running_task_waiting_for (Run_Sign t) device = sign_task_waiting_for t device"
| "running_task_waiting_for (Run_SignPdf t) device = sign_pdf_task_waiting_for t device"
| "running_task_waiting_for (Run_Decrypt t) device = decrypt_task_waiting_for t device"

fun running_task_initialize :: "env \<Rightarrow> (running_task \<times> world, round_update) eff" where
  "running_task_initialize E (Run_Group t, w) = apsnd (apfst Run_Group) (group_task_initialize E (t, w))"
| "running_task_initialize E (Run_Sign t, w) = apsnd (apfst Run_Sign) (sign_task_initialize E (t, w))"
| "running_task_initialize E (Run_SignPdf t, w) =
     apsnd (apfst Run_SignPdf) (sign_pdf_task_initialize E (t, w))"
| "running_task_initialize E (Run_Decrypt t, w) =
     apsnd (apfst Run_Decrypt) (decrypt_task_initialize E (t, w))"

fun running_task_update ::
    "env \<Rightarrow> bytes \<Rightarrow> client_message list \<Rightarrow> (running_task \<times> world, round_update) eff" where
  "running_task_update E d ms (Run_Group t, w) = apsnd (apfst Run_Group) (group_task_update E d ms (t, w))"
| "running_task_update E d ms (Run_Sign t, w) = apsnd (apfst Run_Sign) (sign_task_update E d ms (t, w))"
| "running_task_update E d ms (Run_SignPdf t, w) =
     apsnd (apfst Run_SignPdf) (sign_pdf_task_update E d ms (t, w))"
| "running_task_update E d ms (Run_Decrypt t, w) =
     apsnd (apfst Run_Decrypt) (decrypt_task_update E d ms (t, w))"

fun running_task_restart :: "env \<Rightarrow> (running_task \<times> world, round_update) eff" where
  "running_task_restart E (Run_Group t, w) = apsnd (apfst Run_Group) (group_task_restart E (t, w))"
| "running_task_restart E (Run_Sign t, w) = apsnd (apfst Run_Sign) (sign_task_restart E (t, w))"
| "running_task_restart E (Run_SignPdf t, w) =
     apsnd (apfst Run_SignPdf) (sign_pdf_task_restart E (t, w))"
| "running_task_restart E (Run_Decrypt t, w) =
     apsnd (apfst Run_Decrypt) (decrypt_task_restart E (t, w))"

section \<open>Starting a task\<close>

definition create_running_task ::
    "running_task_context \<Rightarrow> voting_task \<Rightarrow> (u32, device) hashmap \<Rightarrow> running_task res" where
  "create_running_task ctx voting_task active_shares =
     (let task_info = vt_task_info voting_task
      in res_bind (communicator_new (vt_accept_threshold voting_task)
            (proto_of_protocol_type (ti_protocol_type task_info)) active_shares)
          (\<lambda>communicator.
             case ctx of
               Ctx_Group threshold note \<Rightarrow>
                 res_bind (res_of_string_result (group_task_try_new task_info threshold note communicator))
                   (\<lambda>t. Inr (Run_Group t))
             | Ctx_SignChallenge grp data \<Rightarrow>
                 res_bind (res_of_string_result (sign_task_try_new task_info grp data communicator))
                   (\<lambda>t. Inr (Run_Sign t))
             | Ctx_SignPdf grp data \<Rightarrow>
                 res_bind (res_of_string_result (sign_pdf_task_try_new task_info grp data communicator))
                   (\<lambda>t. Inr (Run_SignPdf t))
             | Ctx_Decrypt grp data \<Rightarrow>
                 Inr (Run_Decrypt (decrypt_task_new task_info grp data communicator))))"

section \<open>Tasks\<close>

datatype task =
    Voting_Task voting_task
  | Running_Task running_task
  | Declined_Task declined_task
  | Finished_Task finished_task
  | Failed_Task failed_task

fun get_task_info :: "task \<Rightarrow> task_info" where
  "get_task_info (Voting_Task t) = vt_task_info t"
| "get_task_info (Running_Task t) = running_task_info t"
| "get_task_info (Declined_Task t) = dt_task_info t"
| "get_task_info (Finished_Task t) = ft_task_info t"
| "get_task_info (Failed_Task t) = xt_task_info t"

definition format_task :: "task \<Rightarrow> bytes option \<Rightarrow> bytes option \<Rightarrow> proto_task" where
  "format_task task device_id request =
     (let ti = get_task_info task; task_id = ti_id ti;
          type = proto_task_type_number (proto_of_task_type (ti_task_type ti));
          attempt = ti_attempts ti
      in case task of
           Voting_Task t \<Rightarrow>
             (case accepts_rejects (vt_decisions t) of (accept, reject) \<Rightarrow>
                proto_task_created task_id type accept reject request attempt)
         | Running_Task t \<Rightarrow>
             let round = ucast (running_task_get_round t);
                 data = (case device_id of Some d \<Rightarrow> running_task_get_work t d | None \<Rightarrow> [])
             in proto_task_running task_id type round data request attempt
         | Finished_Task t \<Rightarrow>
             proto_task_finished task_id type (as_bytes (ft_result t)) request attempt
         | Failed_Task t \<Rightarrow> proto_task_failed task_id type (xt_reason t) request attempt
         | Declined_Task t \<Rightarrow>
             proto_task_declined task_id type (dt_accepts t) (dt_rejects t) request attempt)"

section \<open>The trait objects implement the interface\<close>

fun running_comm :: "running_task \<Rightarrow> communicator" where
  "running_comm (Run_Group t) = gt_communicator t"
| "running_comm (Run_Sign t) = st_communicator t"
| "running_comm (Run_SignPdf t) = sp_communicator t"
| "running_comm (Run_Decrypt t) = ct_communicator t"

fun running_protocol :: "running_task \<Rightarrow> protocol" where
  "running_protocol (Run_Group t) = gt_protocol t"
| "running_protocol (Run_Sign t) = st_protocol t"
| "running_protocol (Run_SignPdf t) = sp_protocol t"
| "running_protocol (Run_Decrypt t) = ct_protocol t"

fun set_running_comm :: "communicator \<Rightarrow> running_task \<Rightarrow> running_task" where
  "set_running_comm c (Run_Group t) = Run_Group (t\<lparr>gt_communicator := c\<rparr>)"
| "set_running_comm c (Run_Sign t) = Run_Sign (t\<lparr>st_communicator := c\<rparr>)"
| "set_running_comm c (Run_SignPdf t) =
     Run_SignPdf (t\<lparr>sp_sign_task := (sp_sign_task t)\<lparr>st_communicator := c\<rparr>\<rparr>)"
| "set_running_comm c (Run_Decrypt t) = Run_Decrypt (t\<lparr>ct_communicator := c\<rparr>)"

text \<open>A task accepts deliveries once a group task has sent the certificates.\<close>

fun accepts_deliveries :: "running_task \<Rightarrow> bool" where
  "accepts_deliveries (Run_Group t) = gt_certificates_sent t"
| "accepts_deliveries _ = True"

text \<open>The tasks whose result is the final message, with no helper process involved.\<close>

fun without_helper :: "running_task \<Rightarrow> bool" where
  "without_helper (Run_Group t) = (protocol_get_type (gt_protocol t) \<noteq> P_Gg18)"
| "without_helper (Run_SignPdf t) = False"
| "without_helper _ = True"

fun running_next_round :: "env \<Rightarrow> (running_task \<times> world, round_update) eff" where
  "running_next_round E (Run_Group t, w) = apsnd (apfst Run_Group) (group_task_next_round E (t, w))"
| "running_next_round E (Run_Sign t, w) = apsnd (apfst Run_Sign) (sign_task_next_round E (t, w))"
| "running_next_round E (Run_SignPdf t, w) =
     apsnd (apfst Run_SignPdf) (sign_pdf_task_next_round E (t, w))"
| "running_next_round E (Run_Decrypt t, w) =
     apsnd (apfst Run_Decrypt) (decrypt_task_next_round E (t, w))"

lemma lifted_result:
  "apsnd (apfst C) x = (r, t', w') \<longleftrightarrow> (\<exists>t. x = (r, t, w') \<and> t' = C t)"
  by (cases x) auto

lemmas all_update_refused = group_task.update_refused sign_task.update_refused
  sign_pdf_task.update_refused decrypt_task.update_refused
lemmas all_update_receives = group_task.update_receives sign_task.update_receives[OF TrueI]
  sign_pdf_task.update_receives[OF TrueI] decrypt_task.update_receives[OF TrueI]
lemmas all_update_unready = group_task.update_unready
lemmas all_update_panics = group_task.update_panics sign_task.update_panics[OF TrueI]
  sign_pdf_task.update_panics[OF TrueI] decrypt_task.update_panics[OF TrueI]
lemmas all_next_starts = group_task.next_starts sign_task.next_starts[OF TrueI]
  sign_pdf_task.next_starts[OF TrueI] decrypt_task.next_starts[OF TrueI]
lemmas all_next_starts_direct = group_task.next_starts_direct
  sign_task.next_starts_direct[OF TrueI TrueI] decrypt_task.next_starts_direct[OF TrueI TrueI]
lemmas all_next_advances = group_task.next_advances sign_task.next_advances[OF TrueI]
  sign_pdf_task.next_advances[OF TrueI] decrypt_task.next_advances[OF TrueI]
lemmas all_next_finalizes = group_task.next_finalizes sign_task.next_finalizes[OF TrueI]
  sign_pdf_task.next_finalizes[OF TrueI] decrypt_task.next_finalizes[OF TrueI]
lemmas all_next_delivers = group_task.next_delivers sign_task.next_delivers[OF TrueI TrueI]
  decrypt_task.next_delivers[OF TrueI TrueI]
lemmas all_restart_starts = group_task.restart_starts sign_task.restart_starts
  sign_pdf_task.restart_starts decrypt_task.restart_starts

interpretation any_task: running_task_impl running_task_info running_comm running_protocol
  accepts_deliveries without_helper set_running_comm running_task_update running_next_round
  running_task_restart
proof unfold_locales
  fix E :: env and t t' :: running_task and w w' :: world and r :: "round_update res"
    and c c' :: communicator and d :: bytes and ms :: "client_message list" and e :: failure
    and b :: bool and m :: bytes
  show "running_comm (set_running_comm c t) = c"
    "running_task_info (set_running_comm c t) = running_task_info t"
    "running_protocol (set_running_comm c t) = running_protocol t"
    "accepts_deliveries (set_running_comm c t) = accepts_deliveries t"
    "without_helper (set_running_comm c t) = without_helper t"
    "set_running_comm c (set_running_comm c' t) = set_running_comm c t"
    "set_running_comm (running_comm t) t = t"
    by (cases t; simp)+
  show "\<not> waiting_for (running_comm t) d \<Longrightarrow>
      running_task_update E d ms (t, w) = (Inl (Err not_waiting_error), t, w)"
    by (cases t) (simp_all add: all_update_refused)
  show "accepts_deliveries t \<Longrightarrow> waiting_for (running_comm t) d \<Longrightarrow>
      receive_messages (running_comm t) d ms = (Inr b, c) \<Longrightarrow>
      running_task_update E d ms (t, w) =
        (if round_received c \<and>
            protocol_round (running_protocol t) \<le> protocol_last_round E (running_protocol t)
         then running_next_round E (set_running_comm c t, w)
         else (Inr Listen, set_running_comm c t, w))"
    by (cases t) (simp_all add: all_update_receives)
  show "accepts_deliveries t \<Longrightarrow> waiting_for (running_comm t) d \<Longrightarrow>
      receive_messages (running_comm t) d ms = (Inl e, c) \<Longrightarrow>
      running_task_update E d ms (t, w) = (Inl e, set_running_comm c t, w)"
    by (cases t) (simp_all add: all_update_panics)
  show "\<not> accepts_deliveries t \<Longrightarrow> waiting_for (running_comm t) d \<Longrightarrow>
      running_task_update E d ms (t, w) = (Inl Panic, t, w)"
    by (cases t) (simp_all add: all_update_unready)
  show "accepts_deliveries t \<Longrightarrow> protocol_round (running_protocol t) = 0 \<Longrightarrow>
      running_next_round E (t, w) = (r, t', w') \<Longrightarrow>
      running_task_info t' = running_task_info t \<and> accepts_deliveries t' \<and>
      protocol_last_round E (running_protocol t') = protocol_last_round E (running_protocol t) \<and>
      started (running_task_info t) (running_comm t) (running_comm t')
        (protocol_round (running_protocol t')) r"
    by (cases t) (auto simp: lifted_result dest: all_next_starts)
  show "accepts_deliveries t \<Longrightarrow> without_helper t \<Longrightarrow> protocol_round (running_protocol t) = 0 \<Longrightarrow>
      \<exists>t' f. running_next_round E (t, w) = (Inr (NextRound 1), t', w) \<and>
        running_comm t' = send_all (running_comm t) f \<and> protocol_round (running_protocol t') = 1 \<and>
        protocol_last_round E (running_protocol t') = protocol_last_round E (running_protocol t) \<and>
        running_task_info t' = running_task_info t \<and> accepts_deliveries t' \<and> without_helper t'"
    by (cases t) (fastforce dest: all_next_starts_direct[where E = E and w = w])+
  show "accepts_deliveries t \<Longrightarrow> 0 < protocol_round (running_protocol t) \<Longrightarrow>
      protocol_round (running_protocol t) < protocol_last_round E (running_protocol t) \<Longrightarrow>
      \<exists>t'. running_next_round E (t, w) =
          (Inr (NextRound (protocol_round (running_protocol t) + 1)), t', w) \<and>
        running_comm t' = relay E (running_comm t) \<and>
        protocol_round (running_protocol t') = protocol_round (running_protocol t) + 1 \<and>
        protocol_last_round E (running_protocol t') = protocol_last_round E (running_protocol t) \<and>
        running_task_info t' = running_task_info t \<and> accepts_deliveries t' \<and>
        without_helper t' = without_helper t"
    by (cases t) (auto simp: lifted_result dest: all_next_advances[where w = w])
  show "accepts_deliveries t \<Longrightarrow> 0 < protocol_last_round E (running_protocol t) \<Longrightarrow>
      protocol_round (running_protocol t) = protocol_last_round E (running_protocol t) \<Longrightarrow>
      running_next_round E (t, w) = (r, t', w') \<Longrightarrow>
      running_task_info t' = running_task_info t \<and> accepts_deliveries t' \<and>
      running_comm t' \<in> {running_comm t, clear_input (running_comm t)} \<and>
      finalized (running_task_info t) (protocol_round (running_protocol t))
        (get_final_message E (running_comm t)) r"
    by (cases t) (auto simp: lifted_result dest: all_next_finalizes)
  show "accepts_deliveries t \<Longrightarrow> without_helper t \<Longrightarrow> 0 < protocol_last_round E (running_protocol t) \<Longrightarrow>
      protocol_round (running_protocol t) = protocol_last_round E (running_protocol t) \<Longrightarrow>
      get_final_message E (running_comm t) = Inr (Some m) \<Longrightarrow>
      \<exists>f t'. running_next_round E (t, w) =
          (Inr (Round_Finished (protocol_round (running_protocol t) + 1) f), t', w) \<and>
        as_bytes (ft_result f) = m"
    by (cases t) (auto simp: lifted_result dest: all_next_delivers[where w = w])
  show "running_task_restart E (t, w) = (r, t', w') \<Longrightarrow>
      r = Inl Panic \<and> t' = t \<or>
      running_task_info t' =
        (running_task_info t)\<lparr>ti_attempts := ti_attempts (running_task_info t) + 1\<rparr> \<and>
      started (running_task_info t') (running_comm t) (running_comm t')
        (protocol_round (running_protocol t')) r"
    by (cases t) (auto simp: lifted_result dest: all_restart_starts)
qed

section \<open>Starting and restarting\<close>

lemma res_of_string_result_Inr: "res_of_string_result r = Inr x \<longleftrightarrow> r = Inr x"
  by (cases r) auto

lemma group_task_try_newD:
  assumes "group_task_try_new ti threshold nt c = Inr t"
  shows "ti_id (gt_task_info t) = ti_id ti \<and> gt_communicator t = c \<and> protocol_round (gt_protocol t) = 0"
  using assms create_keygen_protocolD[of _ _ _ _ 0]
  by (auto simp: group_task_try_new_def Let_def split: sum.splits if_splits)

lemma sign_task_try_newD:
  assumes "sign_task_try_new ti grp data c = Inr t"
  shows "st_task_info t = ti \<and> st_communicator t = c \<and> protocol_round (st_protocol t) = 0"
  using assms by (cases "grp_protocol grp")
    (auto simp: sign_task_try_new_def gg18_sign_new_def frost_sign_new_def musig2_sign_new_def)

lemma sign_pdf_task_try_newD:
  assumes "sign_pdf_task_try_new ti grp data c = Inr t"
  shows "sp_task_info t = ti \<and> sp_communicator t = c \<and> protocol_round (sp_protocol t) = 0"
proof -
  have "sign_task_try_new ti grp data c = Inr (sp_sign_task t)"
    using assms by (cases "sign_task_try_new ti grp data c")
      (auto simp: sign_pdf_task_try_new_def split: if_splits)
  then show ?thesis by (rule sign_task_try_newD)
qed

lemma create_running_taskD:
  assumes "create_running_task ctx v active_shares = Inr rt"
  shows "communicator_new (vt_accept_threshold v)
      (proto_of_protocol_type (ti_protocol_type (vt_task_info v))) active_shares = Inr (running_comm rt)"
    "protocol_round (running_protocol rt) = 0"
    "ti_id (running_task_info rt) = ti_id (vt_task_info v)"
  using assms
  by (cases ctx; auto simp: create_running_task_def Let_def res_bind_Inr_iff res_of_string_result_Inr
      decrypt_task_new_def elgamal_decrypt_new_def
      dest!: group_task_try_newD sign_task_try_newD sign_pdf_task_try_newD)+

lemma create_running_task_fresh:
  assumes "create_running_task ctx v active_shares = Inr rt" "hm_wf active_shares"
  shows "comm_inv (running_comm rt) \<and> comm_input (running_comm rt) = [] \<and>
    comm_active_shares (running_comm rt) = active_shares \<and>
    comm_threshold (running_comm rt) = vt_accept_threshold v \<and>
    protocol_round (running_protocol rt) = 0"
proof -
  note c = create_running_taskD[OF assms(1)]
  have "comm_input (running_comm rt) = [] \<and> comm_active_shares (running_comm rt) = active_shares \<and>
    comm_threshold (running_comm rt) = vt_accept_threshold v"
    using c(1) unfolding communicator_new_cases by (metis communicator.select_convs(1-3))
  with comm_inv_new[OF c(1) assms(2)] c(2) show ?thesis by blast
qed

text \<open>The protocol round after a task is initialised, and what the initialisation reports.\<close>

fun initial_round :: "running_task \<Rightarrow> u16" where
  "initial_round (Run_Group t) = 0"
| "initial_round _ = 1"

fun initial_update :: "running_task \<Rightarrow> round_update" where
  "initial_update (Run_Group t) = GroupCertificatesSent"
| "initial_update _ = NextRound 1"

lemma running_task_initialized:
  assumes "without_helper rt" "protocol_round (running_protocol rt) = 0"
  shows "\<exists>rt' f. running_task_initialize E (rt, w) = (Inr (initial_update rt), rt', w) \<and>
    running_comm rt' = send_all (running_comm rt) f \<and> accepts_deliveries rt' \<and> without_helper rt' \<and>
    protocol_round (running_protocol rt') = initial_round rt \<and>
    protocol_last_round E (running_protocol rt') = protocol_last_round E (running_protocol rt) \<and>
    running_task_info rt' = running_task_info rt"
proof (cases rt)
  case (Run_Group t)
  with assms show ?thesis
    by (auto simp: lifted_result group_task_initialize_def send_certificates_def)
next
  case (Run_Sign t)
  with assms sign_task_starts[of t E w] show ?thesis
    by (fastforce simp: sign_task_initialize_def sign_task_next_round_def)
next
  case (Run_Decrypt t)
  with assms decrypt_task_starts[of t E w] show ?thesis
    by (fastforce simp: decrypt_task_initialize_def decrypt_task_next_round_def)
qed (use assms in simp)

text \<open>What initialising and restarting report, for the callers that rule out the other reports.\<close>

definition start_report :: "task_info \<Rightarrow> round_update res \<Rightarrow> bool" where
  "start_report ti r =
     (case r of
        Inr (Round_Failed x) \<Rightarrow> xt_task_info x = ti
      | Inr (Round_Finished n f) \<Rightarrow> False
      | Inr Listen \<Rightarrow> False
      | _ \<Rightarrow> True)"

lemma start_report_started: "started ti c c' round r \<Longrightarrow> start_report ti r"
  by (auto simp: started_def start_report_def)

lemma initialize_reports:
  assumes "running_task_initialize E (rt, w) = (r, rt', w')"
  shows "running_task_info rt' = running_task_info rt \<and> start_report (running_task_info rt) r"
  using assms
proof (cases rt)
  case (Run_Group t)
  with assms show ?thesis
    by (auto simp: lifted_result group_task_initialize_def send_certificates_def start_report_def)
qed (auto simp: lifted_result sign_task_initialize_def sign_pdf_task_initialize_def
    decrypt_task_initialize_def dest!: sign_task_started sign_pdf_task_started decrypt_task_started
    intro: start_report_started)

lemma restart_reports:
  assumes "running_task_restart E (rt, w) = (r, rt', w')"
  shows "ti_id (running_task_info rt') = ti_id (running_task_info rt) \<and>
    start_report (running_task_info rt') r"
  using any_task.restart_starts[OF assms] start_report_started by (auto simp: start_report_def)

section \<open>Properties\<close>

text \<open>A signing task of two devices with one share each, and two rounds of it.\<close>

definition sample_shares :: "(u32, device) hashmap" where
  "sample_shares = [(1, sample_device 7), (0, sample_device 5)]"

definition sample_running :: running_task where
  "sample_running = Run_Sign \<lparr>st_task_info = sample_task_info, st_group = sample_group,
     st_communicator = \<lparr>comm_threshold = 2, comm_active_shares = sample_shares, comm_input = [],
       comm_output = [], comm_protocol_type = P_Gg18\<rparr>,
     st_data = [1], st_preprocessed = None, st_protocol = GG18_Sign gg18_sign_new\<rparr>"

definition sample_round :: "u8 \<Rightarrow> u8 \<Rightarrow> delivery list" where
  "sample_round a b = [([7], [sample_message a]), ([5], [sample_message b])]"

lemmas sample_running_defs = sample_running_def sample_shares_def sample_round_def
  sample_message_def sample_device_def

lemma sample_running_created:
  "create_running_task (Ctx_SignChallenge sample_group [1]) sample_voting sample_shares =
     Inr sample_running"
  by (simp add: create_running_task_def communicator_new_def sign_task_try_new_def
      sample_running_defs sample_voting_defs)

lemma sample_round_ok: "round_ok (running_comm sample_running) (sample_round a b)"
  by (auto simp: round_ok_def delivery_ok_def message_well_formed_def identifier_to_indices_def
      sample_running_defs)

lemma sample_round_agrees: "agrees sample_env (running_comm sample_running) (sample_round 9 9) [9]"
  by (simp add: agrees_def verified_def identifier_to_indices_def sample_running_defs sample_env_def)

lemma sample_running_inv: "comm_inv (running_comm sample_running)"
  by (simp add: comm_inv_def get_protocol_indices_def sample_running_defs)

text \<open>C7. A running task reaches its result. An accepted task other than a PDF signing or a GG18 key
  generation (which end with a call of the Java helper), created from its active shares and
  initialised, is driven by complete rounds of well-formed deliveries, in any order of the devices
  within a round: it announces each protocol round exactly once and in order, answers every other
  delivery with \<^verbatim>\<open>Listen\<close>, and the delivery that completes the last round finishes it with the value
  all final broadcasts verify to, one round past the last. Key generation takes one more
  round, in which certificates are exchanged.\<close>

theorem accepted_task_runs_to_the_agreed_result:
  assumes "create_running_task ctx v active_shares = Inr rt" "hm_wf active_shares"
    and "without_helper rt" "0 < protocol_last_round E (running_protocol rt)"
    and "unat (initial_round rt) + length rounds = unat (protocol_last_round E (running_protocol rt))"
    and "list_all (round_ok (running_comm rt)) rounds"
    and "round_ok (running_comm rt) final" "agrees E (running_comm rt) final m"
  shows "\<exists>rt' us f s. running_task_initialize E (rt, w) = (Inr (initial_update rt), rt', w) \<and>
    run_updates (running_task_update E) (concat rounds @ final) (rt', w) =
      (Inr (us @ [Round_Finished (protocol_last_round E (running_protocol rt) + 1) f]), s) \<and>
    filter (\<lambda>u. u \<noteq> Listen) us =
      map (\<lambda>i. NextRound (word_of_nat i)) [Suc (unat (initial_round rt))..<
        Suc (unat (protocol_last_round E (running_protocol rt)))] \<and>
    as_bytes (ft_result f) = m \<and> ft_task_info f = running_task_info rt"
proof -
  note fresh = create_running_task_fresh[OF assms(1,2)]
  obtain rt' g where i: "running_task_initialize E (rt, w) = (Inr (initial_update rt), rt', w)"
    "running_comm rt' = send_all (running_comm rt) g" "accepts_deliveries rt'" "without_helper rt'"
    "protocol_round (running_protocol rt') = initial_round rt"
    "protocol_last_round E (running_protocol rt') = protocol_last_round E (running_protocol rt)"
    "running_task_info rt' = running_task_info rt"
    using running_task_initialized[OF assms(3), of E w] fresh by auto
  have sp: "same_parties (running_comm rt) (running_comm rt')"
    by (simp add: i(2))
  have inv: "comm_inv (running_comm rt')" "comm_input (running_comm rt') = []"
    using fresh by (simp_all add: i(2))
  have ok: "list_all (round_ok (running_comm rt')) rounds" "round_ok (running_comm rt') final"
    "agrees E (running_comm rt') final m"
    using assms(6-8) by (simp_all add: same_parties_ok[OF sp] same_parties_agrees[OF sp])
  show ?thesis
    using any_task.whole_run[OF i(3,4) inv _ _ ok, of w] i(1,5-7) assms(4,5) by (auto simp del: upt_Suc)
qed

theorem accepted_task_runs_to_the_agreed_result_witness:
  "\<exists>rt' us f s. running_task_initialize sample_env (sample_running, sample_world) = (Inr (NextRound 1), rt', sample_world) \<and>
    run_updates (running_task_update sample_env)
      (sample_round 1 2 @ sample_round 3 4 @ sample_round 9 9) (rt', sample_world) = (Inr (us @ [Round_Finished 4 f]), s) \<and>
    filter (\<lambda>u. u \<noteq> Listen) us = [NextRound 2, NextRound 3] \<and>
    as_bytes (ft_result f) = [9]"
proof -
  have l: "protocol_last_round sample_env (running_protocol sample_running) = 3"
    "initial_round sample_running = 1" "initial_update sample_running = NextRound 1"
    "without_helper sample_running"
    by (simp_all add: sample_running_def gg18_sign_last_round_def sample_env_def)
  have u: "[Suc (unat (1 :: u16))..<Suc (unat (3 :: u16))] = [2, 3]"
    by (simp add: upt_rec)
  show ?thesis
    using accepted_task_runs_to_the_agreed_result[OF sample_running_created, of sample_env
        "[sample_round 1 2, sample_round 3 4]" "sample_round 9 9" "[9]" sample_world, unfolded l u]
      sample_round_ok sample_round_agrees l(4) by (auto simp: sample_shares_def)
qed

text \<open>C23. A delivery to a running task: from a device that is not waited for it is an error that changes
  nothing; otherwise, whatever the messages and the outcome, the task stays the same task with the
  same parties, its communicator stays well-formed, and certificates are never sent again.\<close>

theorem delivery_keeps_running_task:
  assumes "accepts_deliveries t" "comm_inv (running_comm t)"
    and "running_task_update E device_id messages (t, w) = (r, t', w')"
  shows "(\<not> running_task_waiting_for t device_id \<longrightarrow>
      r = Inl (Err not_waiting_error) \<and> t' = t \<and> w' = w) \<and>
    running_task_info t' = running_task_info t \<and>
    same_parties (running_comm t) (running_comm t') \<and> comm_inv (running_comm t') \<and>
    accepts_deliveries t' \<and> r \<noteq> Inr GroupCertificatesSent"
proof -
  have "running_task_waiting_for t device_id = waiting_for (running_comm t) device_id"
    by (cases t) (simp_all add: group_task_waiting_for_def sign_task_waiting_for_def
        sign_pdf_task_waiting_for_def decrypt_task_waiting_for_def)
  then show ?thesis
    using any_task.update_keeps[OF assms(3)] any_task.update_refused[of t device_id E messages w] assms
    by (auto simp: reports_def)
qed

theorem delivery_keeps_running_task_witness:
  "fst (running_task_update sample_env [8] [] (sample_running, sample_world)) = Inl (Err not_waiting_error) \<and>
   comm_inv (running_comm (fst (snd
     (running_task_update sample_env [7] [sample_message 1] (sample_running, sample_world)))))"
proof -
  have "accepts_deliveries sample_running" "\<not> running_task_waiting_for sample_running [8]"
    by (simp_all add: sample_running_defs sign_task_waiting_for_def waiting_for_def
        identifier_to_indices_def)
  then show ?thesis
    using delivery_keeps_running_task[OF _ sample_running_inv]
    by (metis prod.collapse)
qed

text \<open>C22. A restarted task is one attempt further. Restarting counts the attempt and either starts the
  protocol again at round 1 with no message of the former attempt left, waiting for every device
  that holds an active share, or reports the task as failed; a call that panics may leave
  the attempt uncounted. A restart never reports a round as received or the task as finished.\<close>

theorem restart_begins_a_new_attempt:
  assumes "comm_inv (running_comm t)"
    and "running_task_restart E (t, w) = (r, t', w')"
  shows "comm_inv (running_comm t') \<and>
    (r = Inl Panic \<or>
     running_task_info t' =
       (running_task_info t)\<lparr>ti_attempts := ti_attempts (running_task_info t) + 1\<rparr> \<and>
     (r = Inr (NextRound 1) \<and> protocol_round (running_protocol t') = 1 \<and>
        comm_input (running_comm t') = [] \<and>
        (\<forall>d. waiting_for (running_comm t') d \<longleftrightarrow>
           d \<in> (\<lambda>e. dev_id (snd e)) ` set (comm_active_shares (running_comm t))) \<or>
      (\<exists>x. r = Inr (Round_Failed x) \<and> xt_task_info x = running_task_info t')))"
proof -
  have "comm_inv (send_all (running_comm t) f) \<and> comm_input (send_all (running_comm t) f) = []" for f
    using assms(1) by simp
  then have "waiting_for (send_all (running_comm t) f) d \<longleftrightarrow>
      d \<in> (\<lambda>e. dev_id (snd e)) ` set (comm_active_shares (running_comm t))" for f d
    using active_waited[of "send_all (running_comm t) f" d] by simp
  with any_task.restart_starts[OF assms(2)] assms(1) show ?thesis
    unfolding started_def by (elim disjE conjE exE) simp_all
qed

theorem restart_begins_a_new_attempt_witness:
  "\<exists>t'. running_task_restart sample_env (sample_running, sample_world) = (Inr (NextRound 1), t', sample_world) \<and>
     ti_attempts (running_task_info t') = 1 \<and> comm_input (running_comm t') = []"
proof -
  obtain t' where r: "running_task_restart sample_env (sample_running, sample_world) = (Inr (NextRound 1), t', sample_world)"
    by (simp add: sample_running_def sign_task_restart_def sign_task_start_task_def
        sign_task_increment_attempt_count_def gg18_sign_defs Let_def)
  have "ti_attempts (running_task_info sample_running) = 0"
    by (simp add: sample_running_def sample_task_info_def)
  then show ?thesis
    using restart_begins_a_new_attempt[OF sample_running_inv r] r by auto
qed

end
