(* ===== verification/Share_Indices.thy ===== *)
theory Share_Indices
  imports Voting
begin

text \<open>
  How shares are numbered. The indices a key was generated with are not stored: both
  \<^verbatim>\<open>choose_active_shares\<close> (\<^verbatim>\<open>src/state.rs\<close>) and \<^verbatim>\<open>hydrate_communicator\<close> (\<^verbatim>\<open>src/cached_task_store.rs\<close>)
  recompute them from the participants sorted by device, each participant holding a range of
  consecutive indices of which a task uses the first ones.
\<close>

section \<open>Operations\<close>

text \<open>The \<^verbatim>\<open>scan\<close> that gives each participant of a sorted list its first index.\<close>

fun first_share_scan :: "u32 \<Rightarrow> participant list \<Rightarrow> (bytes \<times> u32) list" where
  "first_share_scan idx [] = []"
| "first_share_scan idx (p # ps) = (part_id p, idx) # first_share_scan (idx + part_shares p) ps"

definition first_share_indices :: "participant list \<Rightarrow> (bytes, u32) hashmap" where
  "first_share_indices all_participants =
     hm_collect (first_share_scan 0 (sort_key part_id all_participants))"

text \<open>The \<^verbatim>\<open>scan\<close> that takes the next index of each device; an unknown device is a panic.\<close>

fun next_share_scan :: "device list \<Rightarrow> (bytes, u32) hashmap \<Rightarrow> (u32 \<times> device) list res" where
  "next_share_scan [] share_indices = Inr []"
| "next_share_scan (d # ds) share_indices =
     (case map_of share_indices (dev_id d) of
        None \<Rightarrow> Inl Panic
      | Some share_index \<Rightarrow>
          res_bind (next_share_scan ds (hm_insert (dev_id d) (share_index + 1) share_indices))
            (\<lambda>rest. Inr ((share_index, d) # rest)))"

definition index_shares :: "participant list \<Rightarrow> device list \<Rightarrow> (u32, device) hashmap res" where
  "index_shares all_participants devices =
     res_bind (next_share_scan devices (first_share_indices all_participants))
       (\<lambda>pairs. Inr (hm_collect pairs))"

text \<open>The candidates \<^verbatim>\<open>choose_multiple\<close> chooses from: each device once for each of its shares.\<close>

definition share_devices :: "participant list \<Rightarrow> device list" where
  "share_devices candidates =
     concat (map (\<lambda>p. replicate (unat (part_shares p)) (part_device p)) candidates)"

text \<open>How many shares of each device are active: what is stored.\<close>

definition count_shares :: "device list \<Rightarrow> (bytes, u32) hashmap" where
  "count_shares chosen_devices = fold (\<lambda>d. hm_bump (dev_id d)) chosen_devices []"

text \<open>The devices \<^verbatim>\<open>hydrate_communicator\<close> numbers, from the stored counts.\<close>

definition stored_devices :: "participant list \<Rightarrow> (bytes, u32) hashmap \<Rightarrow> device list" where
  "stored_devices all_participants active_shares =
     concat (map (\<lambda>p. case map_of active_shares (part_id p) of
         None \<Rightarrow> []
       | Some shares \<Rightarrow> replicate (unat shares) (part_device p))
       (sort_key part_id all_participants))"

section \<open>Numbering\<close>

text \<open>The shares of the participants before \<^verbatim>\<open>p\<close> in the list.\<close>

fun shares_before :: "participant list \<Rightarrow> bytes \<Rightarrow> nat" where
  "shares_before [] d = 0"
| "shares_before (p # ps) d = (if part_id p = d then 0 else unat (part_shares p) + shares_before ps d)"

lemma first_share_scan_keys: "map fst (first_share_scan idx ps) = map part_id ps"
  by (induction idx ps rule: first_share_scan.induct) auto

lemma map_of_first_share_scan:
  "d \<in> part_id ` set ps \<Longrightarrow>
     map_of (first_share_scan idx ps) d = Some (idx + word_of_nat (shares_before ps d))"
  by (induction idx ps rule: first_share_scan.induct) (auto simp: unsigned_of_nat)

lemma map_of_first_share_indices:
  assumes "distinct (map part_id ps)" "d \<in> part_id ` set ps"
  shows "map_of (first_share_indices ps) d =
    Some (word_of_nat (shares_before (sort_key part_id ps) d))"
proof -
  have "mset (map part_id (sort_key part_id ps)) = mset (map part_id ps)"
    by (simp add: mset_map)
  then have "distinct (map part_id (sort_key part_id ps))"
    using assms(1) mset_eq_imp_distinct_iff by blast
  then show ?thesis
    using assms(2) by (simp add: first_share_indices_def first_share_scan_keys map_of_first_share_scan)
qed

text \<open>The ranges of two participants do not overlap and end within all shares.\<close>

lemma shares_before_bound:
  "distinct (map part_id ps) \<Longrightarrow> p \<in> set ps \<Longrightarrow>
     shares_before ps (part_id p) + unat (part_shares p) \<le> share_sum ps"
  by (induction ps) (auto simp: share_sum_def)

lemma shares_before_disjoint:
  assumes "distinct (map part_id ps)" "p \<in> set ps" "q \<in> set ps" "p \<noteq> q"
  shows "shares_before ps (part_id p) + unat (part_shares p) \<le> shares_before ps (part_id q) \<or>
    shares_before ps (part_id q) + unat (part_shares q) \<le> shares_before ps (part_id p)"
  using assms by (induction ps) (auto simp: image_iff)

lemma next_share_scan_spec:
  assumes "\<And>d. d \<in> set ds \<Longrightarrow> map_of m (dev_id d) \<noteq> None" "inj_on dev_id (set ds)"
  shows "\<exists>al. next_share_scan ds m = Inr al \<and> map snd al = ds \<and>
    (\<forall>d \<in> set ds. map fst (filter (\<lambda>e. snd e = d) al) =
      map (\<lambda>j. the (map_of m (dev_id d)) + word_of_nat j) [0..<count_list ds d])"
  using assms
proof (induction ds arbitrary: m)
  case (Cons x ds)
  obtain i where i: "map_of m (dev_id x) = Some i"
    using Cons.prems(1)[of x] by auto
  let ?m = "hm_insert (dev_id x) (i + 1) m"
  have "\<And>d. d \<in> set ds \<Longrightarrow> map_of ?m (dev_id d) \<noteq> None" "inj_on dev_id (set ds)"
    using Cons.prems by (auto simp: inj_on_def)
  then obtain al where al: "next_share_scan ds ?m = Inr al" "map snd al = ds"
    "\<And>d. d \<in> set ds \<Longrightarrow> map fst (filter (\<lambda>e. snd e = d) al) =
      map (\<lambda>j. the (map_of ?m (dev_id d)) + word_of_nat j) [0..<count_list ds d]"
    using Cons.IH[of ?m] by blast
  have step: "map fst (filter (\<lambda>e. snd e = d) ((i, x) # al)) =
      map (\<lambda>j. the (map_of m (dev_id d)) + word_of_nat j) [0..<count_list (x # ds) d]"
    if "d \<in> set (x # ds)" for d
  proof (cases "d = x")
    case True
    have "map fst (filter (\<lambda>e. snd e = x) al) = map (\<lambda>j. i + word_of_nat j) [1..<Suc (count_list ds x)]"
    proof (cases "x \<in> set ds")
      case True
      then have "map fst (filter (\<lambda>e. snd e = x) al) =
          map (\<lambda>j. i + 1 + word_of_nat j) [0..<count_list ds x]"
        using al(3)[of x] by simp
      also have "\<dots> = map (\<lambda>j. i + word_of_nat j) (map Suc [0..<count_list ds x])"
        by (simp add: add.assoc)
      finally show ?thesis by (simp add: map_Suc_upt del: upt_Suc map_map)
    next
      case False
      then have "filter (\<lambda>e. snd e = x) al = []" using al(2) by (force simp: filter_empty_conv)
      with False show ?thesis by simp
    qed
    with True i show ?thesis by (simp add: upt_conv_Cons del: upt_Suc)
  next
    case False
    then have "d \<in> set ds" "dev_id d \<noteq> dev_id x"
      using that Cons.prems(2) by (auto simp: inj_on_def)
    with False al(3)[of d] show ?thesis by simp
  qed
  have "next_share_scan (x # ds) m = Inr ((i, x) # al)"
    using i al(1) by simp
  with step al(2) show ?case by (intro exI[of _ "(i, x) # al"]) (simp del: filter.simps)
qed simp

text \<open>A choice of shares of the participants: each device at most once for each of its shares.\<close>

definition shares_of :: "participant list \<Rightarrow> device list \<Rightarrow> bool" where
  "shares_of ps ds =
     (distinct (map part_id ps) \<and> share_sum ps < 2 ^ 32 \<and> mset ds \<subseteq># mset (share_devices ps))"

lemma shares_of_device:
  assumes "shares_of ps ds" "d \<in> set ds"
  obtains p where "p \<in> set ps" "part_device p = d"
proof -
  have "d \<in> set (share_devices ps)"
    using assms by (metis mset_subset_eqD set_mset_mset shares_of_def)
  then show ?thesis using that by (auto simp: share_devices_def)
qed

lemma shares_of_inj:
  assumes "shares_of ps ds"
  shows "inj_on dev_id (set ds)" "inj_on part_device (set ps)"
proof -
  have d: "inj_on part_id (set ps)" using assms by (simp add: shares_of_def distinct_map)
  then show "inj_on part_device (set ps)" by (auto simp: inj_on_def)
  show "inj_on dev_id (set ds)"
  proof (rule inj_onI)
    fix a b assume ab: "a \<in> set ds" "b \<in> set ds" "dev_id a = dev_id b"
    obtain p q where "p \<in> set ps" "part_device p = a" "q \<in> set ps" "part_device q = b"
      using shares_of_device[OF assms] ab(1,2) by metis
    with ab(3) d show "a = b" by (auto dest: inj_onD)
  qed
qed

lemma count_repeated:
  assumes "inj_on part_device (set ps)" "distinct ps" "p \<in> set ps"
  shows "count_list (concat (map (\<lambda>p. replicate (n p) (part_device p)) ps)) (part_device p) = n p"
  using assms
proof (induction ps)
  case (Cons q ps)
  have rep: "count_list (replicate k x) y = (if x = y then k else 0)" for k :: nat and x y :: device
    by (induction k) auto
  show ?case
  proof (cases "p = q")
    case True
    then have "part_device p \<notin> set (concat (map (\<lambda>p. replicate (n p) (part_device p)) ps))"
      using Cons.prems by (auto simp: inj_on_def)
    with True show ?thesis by (simp add: rep count_list_0_iff)
  next
    case False
    with Cons show ?thesis by (auto simp: rep inj_on_def)
  qed
qed simp

lemma shares_of_count:
  assumes "shares_of ps ds" "p \<in> set ps"
  shows "count_list ds (part_device p) \<le> unat (part_shares p)"
proof -
  have "distinct ps" using assms(1) by (simp add: shares_of_def distinct_map)
  moreover have "count_list ds (part_device p) \<le> count_list (share_devices ps) (part_device p)"
    using assms(1) by (metis count_mset mset_subset_eq_count shares_of_def)
  ultimately show ?thesis
    using count_repeated[OF shares_of_inj(2)[OF assms(1)], of p "\<lambda>p. unat (part_shares p)"] assms(2)
    by (simp add: share_devices_def)
qed

lemma distinct_fst_by_snd:
  assumes "\<And>d. distinct (map fst (filter (\<lambda>e. snd e = d) al))"
    and "\<And>i d d'. (i, d) \<in> set al \<Longrightarrow> (i, d') \<in> set al \<Longrightarrow> d = d'"
  shows "distinct (map fst al)"
  using assms
proof (induction al)
  case (Cons e al)
  have "fst e \<notin> fst ` set al"
  proof
    assume "fst e \<in> fst ` set al"
    then obtain d where d: "(fst e, d) \<in> set al" by auto
    then have "d = snd e" using Cons.prems(2)[of "fst e" d "snd e"] by (cases e) auto
    then have "fst e \<in> set (map fst (filter (\<lambda>x. snd x = snd e) al))" using d by force
    then show False using Cons.prems(1)[of "snd e"] by simp
  qed
  moreover have "distinct (map fst (filter (\<lambda>x. snd x = d) al))" for d
    using Cons.prems(1)[of d] by (simp split: if_splits)
  moreover from this have "distinct (map fst al)"
    using Cons.prems(2) by (intro Cons.IH) (meson list.set_intros(2))+
  ultimately show ?case by simp
qed simp

text \<open>The first index of a participant, and the indices a choice of shares gives.\<close>

abbreviation first_index :: "participant list \<Rightarrow> participant \<Rightarrow> nat" where
  "first_index ps p \<equiv> shares_before (sort_key part_id ps) (part_id p)"

lemma first_index_facts:
  assumes "distinct (map part_id ps)" "p \<in> set ps"
  shows "first_index ps p + unat (part_shares p) \<le> share_sum ps"
    "q \<in> set ps \<Longrightarrow> p \<noteq> q \<Longrightarrow> first_index ps p + unat (part_shares p) \<le> first_index ps q \<or>
       first_index ps q + unat (part_shares q) \<le> first_index ps p"
proof -
  let ?ps = "sort_key part_id ps"
  have d: "distinct (map part_id ?ps)"
    using assms(1) by (metis mset_eq_imp_distinct_iff mset_map mset_sort)
  have "share_sum ?ps = share_sum ps"
    unfolding share_sum_def by (rule sum_list_order) simp
  with shares_before_bound[OF d, of p] assms(2)
  show "first_index ps p + unat (part_shares p) \<le> share_sum ps" by simp
  show "q \<in> set ps \<Longrightarrow> p \<noteq> q \<Longrightarrow> first_index ps p + unat (part_shares p) \<le> first_index ps q \<or>
       first_index ps q + unat (part_shares q) \<le> first_index ps p"
    using shares_before_disjoint[OF d, of p q] assms(2) by simp
qed

lemma word_of_nat_inj32: "a < 2 ^ 32 \<Longrightarrow> b < 2 ^ 32 \<Longrightarrow> (word_of_nat a :: u32) = word_of_nat b \<longleftrightarrow> a = b"
  by (simp add: word_of_nat_eq_iff take_bit_nat_eq_self)

text \<open>Which indices the scan gives to a participant's device.\<close>

definition indexes :: "participant list \<Rightarrow> device list \<Rightarrow> (u32 \<times> device) list \<Rightarrow> bool" where
  "indexes ps ds al =
     (map snd al = ds \<and> (\<forall>p \<in> set ps. map fst (filter (\<lambda>e. snd e = part_device p) al) =
        map (\<lambda>j. word_of_nat (first_index ps p + j)) [0..<count_list ds (part_device p)]))"

lemma indexesD:
  "indexes ps ds al \<Longrightarrow> p \<in> set ps \<Longrightarrow> map fst (filter (\<lambda>e. snd e = part_device p) al) =
     map (\<lambda>j. word_of_nat (first_index ps p + j)) [0..<count_list ds (part_device p)]"
  by (simp add: indexes_def)

lemma filter_snd_absent: "map snd al = ds \<Longrightarrow> d \<notin> set ds \<Longrightarrow> filter (\<lambda>e. snd e = d) al = []"
  by (force simp: filter_empty_conv)

lemma next_share_scan_indexes:
  assumes "shares_of ps ds"
  shows "\<exists>al. next_share_scan ds (first_share_indices ps) = Inr al \<and> indexes ps ds al"
proof -
  have first: "map_of (first_share_indices ps) (part_id p) = Some (word_of_nat (first_index ps p))"
    if "p \<in> set ps" for p
    using that assms by (intro map_of_first_share_indices) (auto simp: shares_of_def)
  have "map_of (first_share_indices ps) (dev_id d) \<noteq> None" if d: "d \<in> set ds" for d
  proof -
    obtain p where "p \<in> set ps" "part_device p = d" using shares_of_device[OF assms d] .
    with first show ?thesis by auto
  qed
  then obtain al where al: "next_share_scan ds (first_share_indices ps) = Inr al" "map snd al = ds"
    "\<And>d. d \<in> set ds \<Longrightarrow> map fst (filter (\<lambda>e. snd e = d) al) =
      map (\<lambda>j. the (map_of (first_share_indices ps) (dev_id d)) + word_of_nat j) [0..<count_list ds d]"
    using next_share_scan_spec[of ds "first_share_indices ps"] shares_of_inj(1)[OF assms] by blast
  have "map fst (filter (\<lambda>e. snd e = part_device p) al) =
      map (\<lambda>j. word_of_nat (first_index ps p + j)) [0..<count_list ds (part_device p)]"
    if "p \<in> set ps" for p
    using al(3)[of "part_device p"] first[OF that] filter_snd_absent[OF al(2), of "part_device p"]
    by (cases "part_device p \<in> set ds") auto
  with al(1,2) show ?thesis by (auto simp: indexes_def)
qed

lemma indexes_mem:
  assumes "indexes ps ds al" "p \<in> set ps"
  shows "(i, part_device p) \<in> set al \<longleftrightarrow>
    (\<exists>j < count_list ds (part_device p). i = word_of_nat (first_index ps p + j))"
proof -
  have "(i, part_device p) \<in> set al \<longleftrightarrow> i \<in> set (map fst (filter (\<lambda>e. snd e = part_device p) al))"
    by force
  then show ?thesis unfolding indexesD[OF assms] by auto
qed

lemma index_small:
  assumes "shares_of ps ds" "p \<in> set ps" "j < count_list ds (part_device p)"
  shows "first_index ps p + j < 2 ^ 32"
  using first_index_facts(1)[of ps p] shares_of_count[OF assms(1,2)] assms
  by (auto simp: shares_of_def)

lemma indexes_unique_device:
  assumes "shares_of ps ds" "indexes ps ds al" "(i, d) \<in> set al" "(i, d') \<in> set al"
  shows "d = d'"
proof -
  have "d \<in> set ds" "d' \<in> set ds" using assms(2-4) by (force simp: indexes_def)+
  then obtain p q where pq: "p \<in> set ps" "part_device p = d" "q \<in> set ps" "part_device q = d'"
    using shares_of_device[OF assms(1)] by metis
  obtain j k where jk: "j < count_list ds (part_device p)" "i = word_of_nat (first_index ps p + j)"
    "k < count_list ds (part_device q)" "i = word_of_nat (first_index ps q + k)"
    using assms(3,4) pq indexes_mem[OF assms(2)] by metis
  then have "first_index ps p + j = first_index ps q + k"
    using index_small[OF assms(1)] pq word_of_nat_inj32 by metis
  moreover have "distinct (map part_id ps)" using assms(1) by (simp add: shares_of_def)
  ultimately show ?thesis
    using first_index_facts(2)[of ps p q] shares_of_count[OF assms(1) pq(1)]
      shares_of_count[OF assms(1) pq(3)] jk pq by fastforce
qed

lemma indexes_wf:
  assumes "shares_of ps ds" "indexes ps ds al"
  shows "hm_wf al"
proof (rule distinct_fst_by_snd)
  show "distinct (map fst (filter (\<lambda>e. snd e = d) al))" for d
  proof (cases "d \<in> set ds")
    case True
    then obtain p where p: "p \<in> set ps" "part_device p = d" using shares_of_device[OF assms(1)] by blast
    have "inj_on (\<lambda>j. word_of_nat (first_index ps p + j) :: u32) {0..<count_list ds d}"
      using index_small[OF assms(1) p(1)] unfolding p(2) by (auto simp: inj_on_def word_of_nat_inj32 simp del: of_nat_add)
    then show ?thesis
      using indexesD[OF assms(2) p(1)] unfolding p(2) by (simp add: distinct_map p(2))
  next
    case False
    then show ?thesis using assms(2) by (simp add: indexes_def filter_snd_absent)
  qed
qed (rule indexes_unique_device[OF assms])

lemma index_shares_indexes:
  assumes "shares_of ps ds"
  shows "\<exists>al. index_shares ps ds = Inr al \<and> hm_wf al \<and> indexes ps ds al"
  using next_share_scan_indexes[OF assms] indexes_wf[OF assms]
  by (fastforce simp: index_shares_def)

section \<open>Storing the shares\<close>

lemma map_of_count_shares:
  "map_of (fold (\<lambda>d. hm_bump (dev_id d)) ds m) k =
     (if k \<in> dev_id ` set ds
      then Some ((case map_of m k of None \<Rightarrow> 0 | Some n \<Rightarrow> n) +
        word_of_nat (length (filter (\<lambda>d. dev_id d = k) ds)))
      else map_of m k)"
proof (induction ds arbitrary: m)
  case (Cons d ds)
  have "k \<notin> dev_id ` set ds \<Longrightarrow> filter (\<lambda>d. dev_id d = k) ds = []"
    by (auto simp: filter_empty_conv)
  with Cons show ?case
    by (auto simp: hm_bump_def add.assoc split: option.splits)
qed simp

lemma count_filter_dev_id:
  "inj_on dev_id (set ds) \<Longrightarrow> d \<in> set ds \<Longrightarrow>
     length (filter (\<lambda>e. dev_id e = dev_id d) ds) = count_list ds d"
  unfolding count_list_eq_length_filter
  by (intro arg_cong[where f = length] filter_cong) (auto dest: inj_onD)

lemma stored_count:
  assumes "shares_of ps ds" "p \<in> set ps"
  shows "(case map_of (count_shares ds) (part_id p) of None \<Rightarrow> []
      | Some shares \<Rightarrow> replicate (unat shares) (part_device p)) =
    replicate (count_list ds (part_device p)) (part_device p)"
proof (cases "part_device p \<in> set ds")
  case True
  have "count_list ds (part_device p) < 2 ^ 32"
    using shares_of_count[OF assms] unsigned_less[of "part_shares p", where ?'a = nat] by simp
  then have "unat (word_of_nat (count_list ds (part_device p)) :: u32) = count_list ds (part_device p)"
    by (simp add: unat_of_nat)
  with True show ?thesis
    using count_filter_dev_id[OF shares_of_inj(1)[OF assms(1)] True]
    by (auto simp: count_shares_def map_of_count_shares)
next
  case False
  have "part_id p \<notin> dev_id ` set ds"
  proof
    assume "part_id p \<in> dev_id ` set ds"
    then obtain d where d: "d \<in> set ds" "dev_id d = part_id p" by auto
    then obtain q where "q \<in> set ps" "part_device q = d" using shares_of_device[OF assms(1)] by blast
    with d assms False show False by (auto simp: shares_of_def distinct_map dest: inj_onD)
  qed
  with False show ?thesis by (simp add: count_shares_def map_of_count_shares)
qed

lemma stored_devices_same:
  assumes "shares_of ps ds"
  shows "mset (stored_devices ps (count_shares ds)) = mset ds"
proof (rule multiset_eqI)
  fix d
  let ?ps = "sort_key part_id ps"
  let ?stored = "concat (map (\<lambda>p. replicate (count_list ds (part_device p)) (part_device p)) ?ps)"
  have st: "stored_devices ps (count_shares ds) = ?stored"
    unfolding stored_devices_def using stored_count[OF assms]
    by (intro arg_cong[where f = concat] map_cong) auto
  have "distinct ps" using assms by (simp add: shares_of_def distinct_map)
  then have "distinct ?ps" by simp
  show "count (mset (stored_devices ps (count_shares ds))) d = count (mset ds) d"
  proof (cases "d \<in> set ds")
    case True
    then obtain p where p: "p \<in> set ps" "part_device p = d" using shares_of_device[OF assms] by blast
    have "count_list ?stored (part_device p) = count_list ds (part_device p)"
      using count_repeated[of ?ps p "\<lambda>p. count_list ds (part_device p)"] shares_of_inj(2)[OF assms]
        \<open>distinct ?ps\<close> p(1) by simp
    with p(2) show ?thesis by (simp add: st count_mset)
  next
    case False
    then have "d \<notin> set ?stored" by (auto simp: count_list_0_iff)
    with False show ?thesis by (simp add: st count_mset count_list_0_iff del: set_concat)
  qed
qed

lemma indexes_subset:
  assumes "indexes ps ds al" "indexes ps ds' al'" "shares_of ps ds" "count_list ds' = count_list ds"
  shows "set al \<subseteq> set al'"
proof
  fix e assume e: "e \<in> set al"
  then have "snd e \<in> set ds" using assms(1) by (auto simp: indexes_def)
  then obtain p where p: "p \<in> set ps" "part_device p = snd e"
    using shares_of_device[OF assms(3)] by blast
  show "e \<in> set al'"
    using indexes_mem[OF assms(1) p(1), of "fst e"] indexes_mem[OF assms(2) p(1), of "fst e"] e
    by (simp add: p(2) assms(4))
qed

lemma index_shares_order:
  assumes "shares_of ps ds" "mset ds' = mset ds" "index_shares ps ds = Inr al" "index_shares ps ds' = Inr al'"
  shows "mset al' = mset al"
proof -
  have ok: "shares_of ps ds'" using assms(1,2) by (simp add: shares_of_def)
  have c: "count_list ds' = count_list ds" using assms(2) by (intro ext) (metis count_mset)
  have i: "indexes ps ds al" "hm_wf al" "indexes ps ds' al'" "hm_wf al'"
    using index_shares_indexes[OF assms(1)] index_shares_indexes[OF ok] assms(3,4) by auto
  have "set al' = set al"
    using indexes_subset[OF i(1,3) assms(1) c] indexes_subset[OF i(3,1) ok c[symmetric]] by blast
  then show ?thesis
    using i by (simp add: set_eq_iff_mset_eq_distinct distinct_map)
qed

text \<open>Both the numbering and the rebuilding sort the participants, so their order does not matter.\<close>

lemma sort_participants:
  assumes "mset qs = mset ps" "distinct (map part_id ps)"
  shows "sort_key part_id qs = sort_key part_id ps"
proof (rule sort_key_inj_key_eq)
  show "mset qs = mset (sort_key part_id ps)" using assms(1) by simp
  show "inj_on part_id (set qs)"
    using assms mset_eq_setD[OF assms(1)] by (simp add: distinct_map)
qed simp

lemma participants_order:
  assumes "mset qs = mset ps" "distinct (map part_id ps)"
  shows "index_shares qs = index_shares ps" "stored_devices qs m = stored_devices ps m"
  using sort_participants[OF assms]
  by (simp_all add: index_shares_def first_share_indices_def stored_devices_def fun_eq_iff)

text \<open>Numbering the devices rebuilt from the stored counts gives the map the shares were chosen with.\<close>

lemma restored_share_indices:
  assumes "shares_of ps ds" "index_shares ps ds = Inr al"
  shows "\<exists>al'. index_shares ps (stored_devices ps (count_shares ds)) = Inr al' \<and>
    hm_wf al' \<and> mset al' = mset al \<and> map_of al' = map_of al"
proof -
  let ?ds = "stored_devices ps (count_shares ds)"
  have ok: "shares_of ps ?ds"
    using assms(1) stored_devices_same[OF assms(1)] by (simp add: shares_of_def)
  obtain al' where al': "index_shares ps ?ds = Inr al'" "hm_wf al'"
    using index_shares_indexes[OF ok] by blast
  have m: "mset al' = mset al"
    using index_shares_order[OF assms(1) stored_devices_same[OF assms(1)] assms(2) al'(1)] .
  have "hm_wf al" using index_shares_indexes[OF assms(1)] assms(2) by auto
  then have "map_of al' = map_of al"
    using al'(2) m by (metis map_of_inject_set mset_eq_setD)
  with al' m show ?thesis by blast
qed

section \<open>Properties\<close>

definition sample_chosen :: "device list" where
  "sample_chosen = [sample_device 7, sample_device 5, sample_device 7]"

lemma sample_shares_of: "shares_of (ti_participants sample_task_info) sample_chosen"
proof -
  have "share_devices (ti_participants sample_task_info) =
      [sample_device 7, sample_device 7, sample_device 7, sample_device 5, sample_device 6]"
    by (simp add: share_devices_def sample_task_info_def sample_participant_def)
      (simp add: numeral_3_eq_3)
  then show ?thesis
    by (simp add: shares_of_def share_sum_def sample_chosen_def sample_task_info_def
        sample_participant_def sample_device_def)
qed

text \<open>C13. The numbering of the active shares. Whichever shares of the participants are chosen, and in
  whatever order, numbering them never panics and gives each chosen share an index of its own; a
  participant's range starts after the shares of all participants before it in the order of device
  identifiers, and if k of its shares are chosen they get exactly the first k indices of the range,
  which is what the clients expect. No index wraps around.\<close>

theorem chosen_shares_get_the_first_indices:
  assumes "shares_of ps ds"
  shows "\<exists>al. index_shares ps ds = Inr al \<and> hm_wf al \<and> map snd al = ds \<and>
    (\<forall>p \<in> set ps. \<forall>i. map_of al i = Some (part_device p) \<longleftrightarrow>
      (\<exists>j < count_list ds (part_device p). unat i = first_index ps p + j))"
proof -
  obtain al where al: "index_shares ps ds = Inr al" "hm_wf al" "indexes ps ds al"
    using index_shares_indexes[OF assms] by blast
  have u: "i = word_of_nat n \<longleftrightarrow> unat i = n" if "n < 2 ^ 32" for i :: u32 and n
    using that by (simp add: word_unat_eq_iff unat_of_nat)
  have mem: "map_of al i = Some (part_device p) \<longleftrightarrow>
      (\<exists>j < count_list ds (part_device p). unat i = first_index ps p + j)" if p: "p \<in> set ps" for p i
    unfolding hm_wf_mem_iff[OF al(2), symmetric] indexes_mem[OF al(3) p]
    using u[OF index_small[OF assms p]] by blast
  have "map snd al = ds" using al(3) by (simp add: indexes_def)
  with al(1,2) mem show ?thesis by blast
qed

theorem chosen_shares_get_the_first_indices_witness:
  "\<exists>al. index_shares (ti_participants sample_task_info) sample_chosen = Inr al \<and>
     map_of al 2 = Some (sample_device 7) \<and> map_of al 3 = Some (sample_device 7) \<and>
     map_of al 4 \<noteq> Some (sample_device 7)"
proof -
  let ?ps = "ti_participants sample_task_info" and ?p = "sample_participant 7 3"
  have p: "?p \<in> set ?ps" "part_device ?p = sample_device 7" "first_index ?ps ?p = 2"
    "count_list sample_chosen (sample_device 7) = 2"
    by (simp_all add: sample_task_info_def sample_participant_def sample_device_def sample_chosen_def)
  obtain al where al: "index_shares ?ps sample_chosen = Inr al"
    "\<And>i. map_of al i = Some (sample_device 7) \<longleftrightarrow> (\<exists>j < 2. unat i = 2 + j)"
    using chosen_shares_get_the_first_indices[OF sample_shares_of] p by auto
  have "\<exists>j < 2. unat (2 :: u32) = 2 + j" "\<exists>j < 2. unat (3 :: u32) = 2 + j"
    "\<not> (\<exists>j < 2. unat (4 :: u32) = 2 + j)"
    by (simp, intro exI[of _ 1], simp_all)
  with al show ?thesis by auto
qed

end
