(* ===== verification/Repository.thy ===== *)
theory Repository
  imports Task_Dispatch Share_Indices
begin

text \<open>
  The interface of the database, the trait \<^verbatim>\<open>Repository\<close> of \<^verbatim>\<open>src/persistence/repository.rs\<close>. The
  server holds an \<^verbatim>\<open>Arc<dyn Repository>\<close>: the operations are passed as a record of functions on a
  state of their own, and every one of them may fail.
\<close>

type_synonym ('r, 'a) repo_op = "'r \<Rightarrow> (persistence_error + 'a) \<times> 'r"

record 'r repository =
  repo_add_device :: "bytes \<Rightarrow> string \<Rightarrow> device_kind \<Rightarrow> bytes \<Rightarrow> ('r, device) repo_op"
  repo_get_devices :: "('r, device list) repo_op"
  repo_get_group_participants :: "bytes \<Rightarrow> ('r, participant list) repo_op"
  repo_get_tasks_participants :: "uuid list \<Rightarrow> ('r, (uuid \<times> participant) list) repo_op"
  repo_add_group :: "bytes \<Rightarrow> uuid \<Rightarrow> string \<Rightarrow> u32 \<Rightarrow> protocol_type \<Rightarrow> key_type \<Rightarrow> bytes option \<Rightarrow>
    string option \<Rightarrow> ('r, group) repo_op"
  repo_get_group :: "bytes \<Rightarrow> ('r, group option) repo_op"
  repo_get_groups :: "('r, group list) repo_op"
  repo_get_device_groups :: "bytes \<Rightarrow> ('r, group list) repo_op"
  repo_create_group_task :: "uuid option \<Rightarrow> (bytes \<times> u32) list \<Rightarrow> u32 \<Rightarrow> string \<Rightarrow> protocol_type \<Rightarrow>
    key_type \<Rightarrow> bytes \<Rightarrow> string option \<Rightarrow> ('r, task_model) repo_op"
  repo_create_threshold_task :: "uuid option \<Rightarrow> bytes \<Rightarrow> (bytes \<times> u32) list \<Rightarrow> u32 \<Rightarrow> string \<Rightarrow>
    bytes \<Rightarrow> bytes \<Rightarrow> task_type \<Rightarrow> key_type \<Rightarrow> protocol_type \<Rightarrow> ('r, task_model) repo_op"
  repo_get_task_models :: "uuid list \<Rightarrow> ('r, task_model list) repo_op"
  repo_get_tasks :: "('r, uuid list) repo_op"
  repo_get_restart_candidates :: "('r, uuid list) repo_op"
  repo_get_active_device_tasks :: "bytes \<Rightarrow> ('r, uuid list) repo_op"
  repo_set_task_decision :: "uuid \<Rightarrow> bytes \<Rightarrow> bool \<Rightarrow> ('r, unit) repo_op"
  repo_get_task_decisions :: "uuid \<Rightarrow> ('r, (bytes, i8) hashmap) repo_op"
  repo_set_task_acknowledgement :: "uuid \<Rightarrow> bytes \<Rightarrow> ('r, unit) repo_op"
  repo_get_task_acknowledgements :: "uuid \<Rightarrow> ('r, bytes set) repo_op"
  repo_set_task_active_shares :: "uuid \<Rightarrow> (bytes, u32) hashmap \<Rightarrow> ('r, unit) repo_op"
  repo_get_task_active_shares :: "uuid \<Rightarrow> ('r, (bytes, u32) hashmap) repo_op"
  repo_set_task_round :: "uuid \<Rightarrow> u16 \<Rightarrow> ('r, u16) repo_op"
  repo_increment_task_attempt_count :: "uuid \<Rightarrow> ('r, u32) repo_op"
  repo_set_task_result :: "uuid \<Rightarrow> string + bytes \<Rightarrow> ('r, unit) repo_op"
  repo_set_task_group_certificates_sent :: "uuid \<Rightarrow> bool option \<Rightarrow> ('r, unit) repo_op"

end
