(* ===== verification/Task_Store.thy ===== *)
theory Task_Store
  imports Repository
begin

text \<open>
  The task store of \<^verbatim>\<open>src/cached_task_store.rs\<close>: a cache of tasks that is filled from the database on
  demand. Its operations work on every state that extends the store, so that the server's state can.
\<close>

section \<open>State\<close>

record 'r task_store =
  cs_repo :: 'r
  cs_task_cache :: "uuid \<rightharpoonup> task"

text \<open>A call of the database, its error converted by \<^verbatim>\<open>?\<close>.\<close>

definition call_repo :: "('r, 'a) repo_op \<Rightarrow> (('r, 'm) task_store_scheme, 'a) eff" where
  "call_repo f s = (case f (cs_repo s) of (r, repo') \<Rightarrow> (res_of_persistence r, s\<lparr>cs_repo := repo'\<rparr>))"

definition put_task :: "uuid \<Rightarrow> task \<Rightarrow> (('r, 'm) task_store_scheme, unit) eff" where
  "put_task task_id task = eff_modify (\<lambda>s. s\<lparr>cs_task_cache := (cs_task_cache s)(task_id \<mapsto> task)\<rparr>)"

abbreviation inconsistent :: "string \<Rightarrow> failure" where
  "inconsistent message \<equiv> Err (PersistenceError (DataInconsistencyError message))"

section \<open>Hydration\<close>

definition hydrate_communicator ::
    "'r repository \<Rightarrow> task_model \<Rightarrow> participant list \<Rightarrow> (('r, 'm) task_store_scheme, communicator) eff" where
  "hydrate_communicator R model all_participants =
     (let threshold = (case tm_task_type model of
            TT_Group \<Rightarrow> sum_list (map part_shares all_participants)
          | _ \<Rightarrow> tm_threshold model)
      in eff_bind (call_repo (repo_get_task_active_shares R (tm_id model))) (\<lambda>active_shares.
           eff_lift (res_bind (index_shares all_participants (stored_devices all_participants active_shares))
             (\<lambda>active. communicator_new threshold (proto_of_protocol_type (tm_protocol_type model)) active))))"

definition store_group_task_from_model ::
    "'r repository \<Rightarrow> task_info \<Rightarrow> task_model \<Rightarrow> (('r, 'm) task_store_scheme, task) eff" where
  "store_group_task_from_model R task_info model =
     (if tm_task_type model \<noteq> TT_Group then eff_fail Panic
      else case tm_result model of
        Some task_result \<Rightarrow>
          eff_bind (eff_lift (res_of_persistence (try_into_result task_result))) (\<lambda>result.
            case result of
              Inr group_id \<Rightarrow>
                eff_bind (call_repo (repo_get_group R group_id)) (\<lambda>grp.
                  case grp of
                    None \<Rightarrow> eff_fail (inconsistent ''Group task result references nonexistent group'')
                  | Some grp \<Rightarrow>
                      eff_bind (call_repo (repo_get_task_acknowledgements R (tm_id model))) (\<lambda>acks.
                        eff_return (Finished_Task \<lparr>ft_task_info = task_info,
                          ft_result = GroupEstablished grp, ft_acknowledgements = acks\<rparr>)))
            | Inl reason \<Rightarrow>
                eff_bind (call_repo (repo_get_task_decisions R (tm_id model))) (\<lambda>decisions.
                  case accepts_rejects decisions of (accepts, rejects) \<Rightarrow>
                    eff_return (if rejects > 0
                      then Declined_Task \<lparr>dt_task_info = task_info, dt_accepts = accepts,
                        dt_rejects = rejects\<rparr>
                      else Failed_Task \<lparr>xt_task_info = task_info, xt_reason = reason\<rparr>)))
      | None \<Rightarrow>
          eff_bind (call_repo (repo_get_task_decisions R (tm_id model))) (\<lambda>decisions.
            case accepts_rejects decisions of (accepts, _) \<Rightarrow>
              let accept_threshold = total_shares task_info
              in if accepts < accept_threshold
                 then eff_return (Voting_Task \<lparr>vt_task_info = task_info, vt_decisions = decisions,
                   vt_accept_threshold = accept_threshold,
                   vt_running_task_context = Ctx_Group (tm_threshold model) (tm_note model)\<rparr>)
                 else eff_bind (hydrate_communicator R model (ti_participants task_info))
                   (\<lambda>communicator.
                     eff_bind (eff_lift (group_task_from_model task_info model communicator))
                       (\<lambda>t. eff_return (Running_Task (Run_Group t))))))"

text \<open>The results and contexts of the task types other than key generation, which is unreachable.\<close>

definition threshold_result :: "task_type \<Rightarrow> bytes \<Rightarrow> task_result res" where
  "threshold_result type data =
     (case type of
        TT_Group \<Rightarrow> Inl Panic
      | TT_SignPdf \<Rightarrow> Inr (SignedPdf data)
      | TT_SignChallenge \<Rightarrow> Inr (Signed data)
      | TT_Decrypt \<Rightarrow> Inr (Decrypted data))"

definition threshold_context :: "task_type \<Rightarrow> group \<Rightarrow> bytes \<Rightarrow> running_task_context res" where
  "threshold_context type grp data =
     (case type of
        TT_Group \<Rightarrow> Inl Panic
      | TT_SignPdf \<Rightarrow> Inr (Ctx_SignPdf grp data)
      | TT_SignChallenge \<Rightarrow> Inr (Ctx_SignChallenge grp data)
      | TT_Decrypt \<Rightarrow> Inr (Ctx_Decrypt grp data))"

definition threshold_running ::
    "task_info \<Rightarrow> task_model \<Rightarrow> communicator \<Rightarrow> group \<Rightarrow> running_task res" where
  "threshold_running task_info model communicator grp =
     (case tm_task_type model of
        TT_Group \<Rightarrow> Inl Panic
      | TT_SignPdf \<Rightarrow> res_bind (sign_pdf_task_from_model task_info model communicator grp)
          (\<lambda>t. Inr (Run_SignPdf t))
      | TT_SignChallenge \<Rightarrow> res_bind (sign_task_from_model task_info model communicator grp)
          (\<lambda>t. Inr (Run_Sign t))
      | TT_Decrypt \<Rightarrow> res_bind (decrypt_task_from_model task_info model communicator grp)
          (\<lambda>t. Inr (Run_Decrypt t)))"

definition threshold_task_from_model ::
    "'r repository \<Rightarrow> task_info \<Rightarrow> task_model \<Rightarrow> (('r, 'm) task_store_scheme, task) eff" where
  "threshold_task_from_model R task_info model =
     (case tm_result model of
        Some task_result \<Rightarrow>
          eff_bind (eff_lift (res_of_persistence (try_into_result task_result))) (\<lambda>result.
            case result of
              Inr data \<Rightarrow>
                eff_bind (eff_lift (threshold_result (tm_task_type model) data)) (\<lambda>result.
                  eff_bind (call_repo (repo_get_task_acknowledgements R (tm_id model))) (\<lambda>acks.
                    eff_return (Finished_Task \<lparr>ft_task_info = task_info, ft_result = result,
                      ft_acknowledgements = acks\<rparr>)))
            | Inl reason \<Rightarrow>
                eff_bind (call_repo (repo_get_task_decisions R (tm_id model))) (\<lambda>decisions.
                  case accepts_rejects decisions of (accepts, rejects) \<Rightarrow>
                    let reject_threshold = total_shares task_info - tm_threshold model + 1
                    in eff_return (if rejects \<ge> reject_threshold
                         then Declined_Task \<lparr>dt_task_info = task_info, dt_accepts = accepts,
                           dt_rejects = rejects\<rparr>
                         else Failed_Task \<lparr>xt_task_info = task_info, xt_reason = reason\<rparr>)))
      | None \<Rightarrow>
          (case tm_group_id model of
             None \<Rightarrow> eff_fail (inconsistent ''Threshold task is missing a group'')
           | Some group_id \<Rightarrow>
               eff_bind (call_repo (repo_get_group R group_id)) (\<lambda>grp.
                 case grp of
                   None \<Rightarrow> eff_fail (inconsistent ''Threshold task references nonexistent group'')
                 | Some grp \<Rightarrow>
                     eff_bind (call_repo (repo_get_task_decisions R (tm_id model))) (\<lambda>decisions.
                       case accepts_rejects decisions of (accepts, _) \<Rightarrow>
                         let accept_threshold = grp_threshold grp
                         in if accepts < accept_threshold
                            then (case tm_task_data model of
                                None \<Rightarrow> eff_fail (inconsistent ''Threshold task has no task data'')
                              | Some data \<Rightarrow>
                                  eff_bind (eff_lift (threshold_context (tm_task_type model) grp data))
                                    (\<lambda>ctx. eff_return (Voting_Task \<lparr>vt_task_info = task_info,
                                      vt_decisions = decisions, vt_accept_threshold = accept_threshold,
                                      vt_running_task_context = ctx\<rparr>)))
                            else eff_bind (hydrate_communicator R model (ti_participants task_info))
                              (\<lambda>communicator.
                                eff_bind (eff_lift (threshold_running task_info model communicator grp))
                                  (\<lambda>t. eff_return (Running_Task t)))))))"

text \<open>The participants of each task, in the order the database gives them.\<close>

fun group_participants ::
    "(uuid \<times> participant) list \<Rightarrow> (uuid, participant list) hashmap \<Rightarrow> (uuid, participant list) hashmap" where
  "group_participants [] m = m"
| "group_participants ((task_id, p) # rest) m =
     group_participants rest
       (hm_insert task_id ((case map_of m task_id of None \<Rightarrow> [] | Some ps \<Rightarrow> ps) @ [p]) m)"

definition task_info_of_model :: "task_model \<Rightarrow> participant list \<Rightarrow> task_info" where
  "task_info_of_model model participants =
     \<lparr>ti_id = tm_id model, ti_name = tm_name model, ti_task_type = tm_task_type model,
      ti_protocol_type = tm_protocol_type model, ti_key_type = tm_key_type model,
      ti_participants = participants, ti_observers = [], ti_attempts = tm_attempt_count model,
      ti_request = tm_request model\<rparr>"

definition task_from_model ::
    "'r repository \<Rightarrow> task_info \<Rightarrow> task_model \<Rightarrow> (('r, 'm) task_store_scheme, task) eff" where
  "task_from_model R task_info model =
     (case tm_task_type model of
        TT_Group \<Rightarrow> store_group_task_from_model R task_info model
      | _ \<Rightarrow> threshold_task_from_model R task_info model)"

text \<open>The loop over the models; each takes its participants out of the map, a missing entry panics.\<close>

fun hydrate_models ::
    "'r repository \<Rightarrow> task_model list \<Rightarrow> (uuid, participant list) hashmap \<Rightarrow>
     (('r, 'm) task_store_scheme, task list) eff" where
  "hydrate_models R [] m = eff_return []"
| "hydrate_models R (model # models) m =
     (case map_of m (tm_id model) of
        None \<Rightarrow> eff_fail Panic
      | Some participants \<Rightarrow>
          eff_bind (task_from_model R (task_info_of_model model participants) model) (\<lambda>task.
            eff_bind (hydrate_models R models (hm_remove (tm_id model) m)) (\<lambda>tasks.
              eff_return (task # tasks))))"

definition hydrate_tasks ::
    "'r repository \<Rightarrow> uuid list \<Rightarrow> (('r, 'm) task_store_scheme, task list) eff" where
  "hydrate_tasks R task_ids =
     eff_bind (call_repo (repo_get_task_models R task_ids)) (\<lambda>models.
       if length models \<noteq> length task_ids
       then eff_fail (Err (GeneralProtocolError ''Invalid task id(s)''))
       else eff_bind (call_repo (repo_get_tasks_participants R task_ids)) (\<lambda>pairs.
         hydrate_models R models (group_participants pairs [])))"

text \<open>A hydrated task is inserted only where the cache has none.\<close>

definition cache_vacant :: "task \<Rightarrow> (('r, 'm) task_store_scheme, unit) eff" where
  "cache_vacant task = eff_modify (\<lambda>s.
     let task_id = ti_id (get_task_info task)
     in if cs_task_cache s task_id = None
        then s\<lparr>cs_task_cache := (cs_task_cache s)(task_id \<mapsto> task)\<rparr> else s)"

fun cache_all :: "task list \<Rightarrow> (('r, 'm) task_store_scheme, unit) eff" where
  "cache_all [] = eff_return ()"
| "cache_all (task # tasks) = eff_bind (cache_vacant task) (\<lambda>_. cache_all tasks)"

definition ensure_cached_tasks ::
    "'r repository \<Rightarrow> uuid list \<Rightarrow> (('r, 'm) task_store_scheme, unit) eff" where
  "ensure_cached_tasks R task_ids =
     eff_bind (eff_gets (\<lambda>s. filter (\<lambda>task_id. cs_task_cache s task_id = None) task_ids)) (\<lambda>uncached.
       eff_bind (hydrate_tasks R uncached) cache_all)"

section \<open>The store's interface\<close>

definition persist_group_task ::
    "'r repository \<Rightarrow> voting_task \<Rightarrow> (bytes \<times> u32) list \<Rightarrow> u32 \<Rightarrow> string option \<Rightarrow>
     (('r, 'm) task_store_scheme, unit) eff" where
  "persist_group_task R task participant_ids_shares threshold note =
     eff_bind (call_repo (repo_create_group_task R (Some (ti_id (vt_task_info task)))
         participant_ids_shares threshold (ti_name (vt_task_info task))
         (ti_protocol_type (vt_task_info task)) (ti_key_type (vt_task_info task))
         (ti_request (vt_task_info task)) note))
       (\<lambda>_. eff_return ())"

definition persist_threshold_task ::
    "'r repository \<Rightarrow> voting_task \<Rightarrow> task_type \<Rightarrow> (bytes \<times> u32) list \<Rightarrow> group \<Rightarrow> bytes \<Rightarrow>
     (('r, 'm) task_store_scheme, unit) eff" where
  "persist_threshold_task R task type participant_ids_shares grp data =
     eff_bind (call_repo (repo_create_threshold_task R (Some (ti_id (vt_task_info task))) (grp_id grp)
         participant_ids_shares (grp_threshold grp) (ti_name (vt_task_info task)) data
         (ti_request (vt_task_info task)) type (ti_key_type (vt_task_info task))
         (ti_protocol_type (vt_task_info task))))
       (\<lambda>_. eff_return ())"

definition persist_task ::
    "'r repository \<Rightarrow> voting_task \<Rightarrow> (('r, 'm) task_store_scheme, task option) eff" where
  "persist_task R task =
     (let ids_shares = map (\<lambda>p. (part_id p, part_shares p)) (ti_participants (vt_task_info task));
          task_id = ti_id (vt_task_info task)
      in eff_bind
           (case vt_running_task_context task of
              Ctx_Group threshold note \<Rightarrow> persist_group_task R task ids_shares threshold note
            | Ctx_SignChallenge grp data \<Rightarrow>
                persist_threshold_task R task TT_SignChallenge ids_shares grp data
            | Ctx_SignPdf grp data \<Rightarrow> persist_threshold_task R task TT_SignPdf ids_shares grp data
            | Ctx_Decrypt grp data \<Rightarrow> persist_threshold_task R task TT_Decrypt ids_shares grp data)
           (\<lambda>_. eff_bind (eff_gets (\<lambda>s. cs_task_cache s task_id)) (\<lambda>evicted_task.
              eff_bind (put_task task_id (Voting_Task task)) (\<lambda>_. eff_return evicted_task))))"

text \<open>
  \<^verbatim>\<open>get_task\<close> and \<^verbatim>\<open>get_task_mut\<close> differ only in the lock they take; a handler that changes
  the task writes it back with \<^verbatim>\<open>put_task\<close>.
\<close>

definition get_task :: "env \<Rightarrow> 'r repository \<Rightarrow> uuid \<Rightarrow> (('r, 'm) task_store_scheme, task) eff" where
  "get_task E R task_id =
     eff_bind (ensure_cached_tasks R [task_id]) (\<lambda>_.
       eff_bind (eff_gets (\<lambda>s. cs_task_cache s task_id)) (\<lambda>found.
         case found of
           None \<Rightarrow> eff_fail (Err (GeneralProtocolError
             (''Task with ID '' @ uuid_display E task_id @ '' not found'')))
         | Some task \<Rightarrow> eff_return task))"

section \<open>The cache only grows\<close>

text \<open>
  Reading tasks, from the cache or from the database, calls the repository and adds tasks to the cache. Whatever those two
  steps keep, every such operation keeps.
\<close>

named_theorems kept_intros \<open>effects that keep what reading tasks keeps\<close>

locale hydrate_frame =
  fixes R :: "('r, 'm) task_store_scheme \<Rightarrow> ('r, 'm) task_store_scheme \<Rightarrow> bool" and repo :: "'r repository"
  assumes frame_order: "reflp R" "transp R"
    and frame_reads [kept_intros]: "eff_within R (call_repo (repo_get_task_models repo ids))"
      "eff_within R (call_repo (repo_get_tasks_participants repo ids))"
      "eff_within R (call_repo (repo_get_task_decisions repo i))"
      "eff_within R (call_repo (repo_get_task_acknowledgements repo i))"
      "eff_within R (call_repo (repo_get_task_active_shares repo i))"
      "eff_within R (call_repo (repo_get_group repo g))"
begin

lemma frame_bind [kept_intros]:
  "eff_within R m \<Longrightarrow> (\<And>x. eff_within R (f x)) \<Longrightarrow> eff_within R (eff_bind m f)"
  by (rule eff_within_bind[OF frame_order(2)])

lemma frame_pure [kept_intros]:
  "eff_within R (eff_return x)" "eff_within R (eff_fail e)" "eff_within R (eff_lift r)" "eff_within R (eff_gets h)"
  using frame_order(1) by simp_all

lemma frame_hydrate_communicator [kept_intros]: "eff_within R (hydrate_communicator repo model ps)"
  unfolding hydrate_communicator_def Let_def by (intro kept_intros)

lemma frame_store_group [kept_intros]: "eff_within R (store_group_task_from_model repo ti model)"
  unfolding store_group_task_from_model_def Let_def
  by (auto intro!: kept_intros split: option.splits sum.splits prod.splits)

lemma frame_threshold [kept_intros]: "eff_within R (threshold_task_from_model repo ti model)"
  unfolding threshold_task_from_model_def Let_def
  by (auto intro!: kept_intros split: option.splits sum.splits prod.splits)

lemma frame_task_from_model [kept_intros]: "eff_within R (task_from_model repo ti model)"
  unfolding task_from_model_def by (cases "tm_task_type model") (auto intro: kept_intros)

lemma frame_hydrate_models [kept_intros]: "eff_within R (hydrate_models repo models m)"
  by (induction models arbitrary: m) (auto intro!: kept_intros split: option.splits)

lemma frame_hydrate_tasks [kept_intros]: "eff_within R (hydrate_tasks repo ids)"
  unfolding hydrate_tasks_def by (auto intro!: kept_intros)

end

text \<open>What is read is then put into the cache, where it has no task yet.\<close>

locale read_frame = hydrate_frame +
  assumes frame_grows: "cs_task_cache s \<subseteq>\<^sub>m c \<Longrightarrow> R s (s\<lparr>cs_task_cache := c\<rparr>)"
begin

lemma frame_cache_vacant [kept_intros]: "eff_within R (cache_vacant task)"
  using frame_order(1)
  by (auto simp: eff_within_def cache_vacant_def eff_modify_def Let_def map_le_def reflp_def intro!: frame_grows)

lemma frame_cache_all [kept_intros]: "eff_within R (cache_all tasks)"
  by (induction tasks) (auto intro!: kept_intros)

lemma frame_ensure_cached [kept_intros]: "eff_within R (ensure_cached_tasks repo ids)"
  unfolding ensure_cached_tasks_def by (intro kept_intros)

lemma frame_get_task [kept_intros]: "eff_within R (get_task E repo task_id)"
  unfolding get_task_def by (auto intro!: kept_intros split: option.splits)

end

text \<open>What no call of the repository can change is kept in particular by those that read.\<close>

locale store_frame =
  fixes R :: "('r, 'm) task_store_scheme \<Rightarrow> ('r, 'm) task_store_scheme \<Rightarrow> bool"
  assumes frame_refl: "reflp R" and frame_trans: "transp R"
    and frame_repo: "R s (s\<lparr>cs_repo := r\<rparr>)"
    and frame_cache: "cs_task_cache s \<subseteq>\<^sub>m c \<Longrightarrow> R s (s\<lparr>cs_task_cache := c\<rparr>)"
begin

lemma frame_call_repo [kept_intros]: "eff_within R (call_repo f)"
  by (auto simp: eff_within_def call_repo_def frame_repo split: prod.splits)

end

sublocale store_frame \<subseteq> read_frame R repo for repo
  by unfold_locales (fact frame_refl frame_trans frame_call_repo | rule frame_cache)+

text \<open>Such operations keep the tasks that are cached, and everything outside the store.\<close>

definition cache_kept :: "('r, 'm) task_store_scheme \<Rightarrow> ('r, 'm) task_store_scheme \<Rightarrow> bool" where
  "cache_kept s s' = (cs_task_cache s \<subseteq>\<^sub>m cs_task_cache s')"

definition rest_kept :: "('r, 'm) task_store_scheme \<Rightarrow> ('r, 'm) task_store_scheme \<Rightarrow> bool" where
  "rest_kept s s' = (task_store.more s' = task_store.more s)"

lemma cache_kept_order [simp]: "reflp cache_kept" "transp cache_kept"
  by (auto simp: cache_kept_def reflp_def transp_def intro: map_le_trans)

interpretation kept: store_frame cache_kept
  by unfold_locales (simp_all add: cache_kept_def)

interpretation rest: store_frame rest_kept
  by unfold_locales (simp_all add: rest_kept_def reflp_def transp_def)

lemmas kept_get_task = kept.frame_get_task

lemma get_task_cached:
  assumes "get_task E R task_id s = (Inr task, s')"
  shows "cs_task_cache s' task_id = Some task"
  using assms by (auto simp: get_task_def eff_bind_eq_Inr eff_defs split: option.splits)

lemma get_task_keeps:
  assumes "get_task E R task_id s = (r, s')" "cs_task_cache s other = Some t"
  shows "cs_task_cache s' other = Some t"
  using eff_withinD[OF kept_get_task assms(1)] assms(2)
  by (auto simp: cache_kept_def map_le_def dom_def)

section \<open>Hydration recovers the phase\<close>

lemma call_repo_ok:
  "f (cs_repo s) = (Inr x, repo') \<Longrightarrow> call_repo f s = (Inr x, s\<lparr>cs_repo := repo'\<rparr>)"
  by (simp add: call_repo_def)

lemma accepts_rejects_counts:
  assumes "votes_ok v" "accepts_rejects (vt_decisions v) = (a, b)"
  shows "unat a = shares_for v" "unat b = shares_against v"
proof -
  have "shares_for v < 2 ^ 32" "shares_against v < 2 ^ 32"
    using shares_for_against_bound[of v] votes_okD(3)[OF assms(1)] by linarith+
  then show "unat a = shares_for v" "unat b = shares_against v"
    using accepts_rejects_weight[OF _ _ assms(2)]
    by (simp_all add: accept_weight_shares[OF assms(1)] reject_weight_shares[OF assms(1)])
qed

text \<open>The threshold at which a vote on a task was accepted, as the database has it.\<close>

definition model_threshold :: "participant list \<Rightarrow> task_model \<Rightarrow> u32" where
  "model_threshold ps model =
     (case tm_task_type model of TT_Group \<Rightarrow> sum_list (map part_shares ps) | _ \<Rightarrow> tm_threshold model)"

lemma declined_condition:
  assumes "votes_ok v" "accepts_rejects (vt_decisions v) = (a, b)"
  shows "b \<ge> reject_threshold v \<longleftrightarrow>
    share_sum (ti_participants (vt_task_info v)) - shares_against v < unat (vt_accept_threshold v)"
  using accepts_rejects_counts[OF assms] unat_reject_threshold[OF assms(1)] votes_okD(4,5)[OF assms(1)]
  by (auto simp: word_le_nat_alt)

lemma group_reject_threshold:
  assumes "votes_ok v" "vt_accept_threshold v = total_shares (vt_task_info v)"
  shows "b > 0 \<longleftrightarrow> b \<ge> reject_threshold v"
  using assms(2) by (simp add: reject_threshold_def word_less_nat_alt word_le_nat_alt Suc_le_eq)

lemma failed_model_hydrated:
  fixes s :: "('r, 'm) task_store_scheme"
  assumes "votes_ok v" "vt_accept_threshold v = model_threshold (ti_participants (vt_task_info v)) model"
    and "tm_result model = Some row" "try_into_result row = Inr (Inl reason)"
    and "repo_get_task_decisions R (tm_id model) (cs_repo s) = (Inr (vt_decisions v), repo')"
    and "accepts_rejects (vt_decisions v) = (a, b)"
  shows "task_from_model R (vt_task_info v) model s =
    (Inr (if b \<ge> reject_threshold v
       then Declined_Task \<lparr>dt_task_info = vt_task_info v, dt_accepts = a, dt_rejects = b\<rparr>
       else Failed_Task \<lparr>xt_task_info = vt_task_info v, xt_reason = reason\<rparr>),
     s\<lparr>cs_repo := repo'\<rparr>)"
proof (cases "tm_task_type model = TT_Group")
  case True
  then have "vt_accept_threshold v = total_shares (vt_task_info v)"
    using assms(2) by (simp add: model_threshold_def total_shares_def)
  with True assms(3-6) show ?thesis
    by (simp add: task_from_model_def store_group_task_from_model_def eff_bind_def eff_defs
        call_repo_def group_reject_threshold[OF assms(1)])
next
  case False
  then have "vt_accept_threshold v = tm_threshold model"
    using assms(2) by (cases "tm_task_type model") (simp_all add: model_threshold_def)
  then have "task_from_model R (vt_task_info v) model s = threshold_task_from_model R (vt_task_info v) model s"
    "total_shares (vt_task_info v) - tm_threshold model + 1 = reject_threshold v"
    using False by (cases "tm_task_type model"; simp add: task_from_model_def reject_threshold_def)+
  with assms(3-6) show ?thesis
    by (simp add: threshold_task_from_model_def eff_bind_def eff_defs call_repo_def Let_def)
qed

section \<open>Rebuilding the communicator\<close>

lemma rebuilt_communicator:
  assumes chosen: "shares_of ps chosen" "index_shares ps chosen = Inr active"
    and c: "communicator_new (model_threshold ps model) (proto_of_protocol_type (tm_protocol_type model)) active = Inr c"
    and qs: "mset qs = mset ps" and counts: "map_of counts = map_of (count_shares chosen)"
    and repo: "repo_get_task_active_shares R (tm_id model) (cs_repo s) = (Inr counts, repo')"
  shows "\<exists>al. hydrate_communicator R model qs s = (Inr (c\<lparr>comm_active_shares := al\<rparr>), s\<lparr>cs_repo := repo'\<rparr>) \<and>
    mset al = mset (comm_active_shares c) \<and> map_of al = map_of (comm_active_shares c)"
proof -
  obtain al where al: "index_shares ps (stored_devices ps (count_shares chosen)) = Inr al"
    "mset al = mset active" "map_of al = map_of active"
    using restored_share_indices[OF chosen] by blast
  have "stored_devices qs counts = stored_devices ps (count_shares chosen)" "index_shares qs = index_shares ps"
    using participants_order[OF qs] chosen(1) counts by (simp_all add: shares_of_def stored_devices_def)
  with al(1) have ix: "index_shares qs (stored_devices qs counts) = Inr al" by simp
  have "sum_list (map part_shares qs) = sum_list (map part_shares ps)"
    using sum_list_order[OF qs] .
  then have th: "model_threshold qs model = model_threshold ps model" by (simp add: model_threshold_def split: task_type.splits)
  have "length al = length active" using al(2) by (rule mset_eq_length)
  then have "communicator_new (comm_threshold c) (comm_protocol_type c) al = Inr (c\<lparr>comm_active_shares := al\<rparr>)"
    and f: "comm_active_shares c = active" "comm_threshold c = model_threshold ps model"
    "comm_protocol_type c = proto_of_protocol_type (tm_protocol_type model)"
    using c by (auto simp: communicator_new_def split: if_splits)
  then have "hydrate_communicator R model qs s = (Inr (c\<lparr>comm_active_shares := al\<rparr>), s\<lparr>cs_repo := repo'\<rparr>)"
    using ix repo th
    by (cases "tm_task_type model")
      (simp_all add: hydrate_communicator_def eff_bind_def eff_defs call_repo_def model_threshold_def Let_def)
  with al(2,3) f(1) show ?thesis by blast
qed

text \<open>Two communicators with the same parties: the same threshold, and the same shares under the same indices.\<close>

definition equal_parties :: "communicator \<Rightarrow> communicator \<Rightarrow> bool" where
  "equal_parties c c' =
     (comm_threshold c' = comm_threshold c \<and> comm_protocol_type c' = comm_protocol_type c \<and>
      map_of (comm_active_shares c') = map_of (comm_active_shares c) \<and>
      get_protocol_indices c' = get_protocol_indices c \<and>
      (\<forall>d. identifier_to_indices c' d = identifier_to_indices c d))"

lemma equal_parties_order:
  assumes "mset al = mset (comm_active_shares c)" "map_of al = map_of (comm_active_shares c)"
  shows "equal_parties c (c\<lparr>comm_active_shares := al\<rparr>)"
  using assms get_protocol_indices_order[of al c] identifier_to_indices_order[of al c] by (simp add: equal_parties_def)

section \<open>Properties\<close>

text \<open>A database that holds one signing task, as its answers.\<close>

definition sample_model :: task_model where
  "sample_model = \<lparr>tm_id = replicate 16 1, tm_protocol_round = 2, tm_attempt_count = 0,
     tm_threshold = 2, tm_name = ''doc'', tm_task_data = Some [1], tm_preprocessed = None,
     tm_request = [], tm_group_id = Some [4], tm_task_type = TT_SignChallenge,
     tm_task_state = Running_State, tm_key_type = KT_SignChallenge, tm_protocol_type = Gg18,
     tm_note = None, tm_group_certificates_sent = None, tm_result = None\<rparr>"

definition sample_repo :: "(bytes, i8) hashmap \<Rightarrow> (bytes, u32) hashmap \<Rightarrow> unit repository" where
  "sample_repo decisions shares = \<lparr>
     repo_add_device = (\<lambda>i n k c r. (Inr \<lparr>dev_id = i, dev_name = n, dev_kind = k, dev_certificate = c\<rparr>, r)),
     repo_get_devices = (\<lambda>r. (Inr [], r)),
     repo_get_group_participants = (\<lambda>_ r. (Inr (ti_participants sample_task_info), r)),
     repo_get_tasks_participants = (\<lambda>ids r.
       (Inr (if ids = [] then [] else map (\<lambda>p. (replicate 16 1, p)) (ti_participants sample_task_info)), r)),
     repo_add_group = (\<lambda>i t n th p k c nt r. (Inr sample_group, r)),
     repo_get_group = (\<lambda>_ r. (Inr (Some sample_group), r)),
     repo_get_groups = (\<lambda>r. (Inr [sample_group], r)),
     repo_get_device_groups = (\<lambda>_ r. (Inr [sample_group], r)),
     repo_create_group_task = (\<lambda>i ps th n p k req nt r. (Inr sample_model, r)),
     repo_create_threshold_task = (\<lambda>i g ps th n dt req ty k p r. (Inr sample_model, r)),
     repo_get_task_models = (\<lambda>ids r. (Inr (if ids = [] then [] else [sample_model]), r)),
     repo_get_tasks = (\<lambda>r. (Inr [replicate 16 1], r)),
     repo_get_restart_candidates = (\<lambda>r. (Inr [replicate 16 1], r)),
     repo_get_active_device_tasks = (\<lambda>_ r. (Inr [replicate 16 1], r)),
     repo_set_task_decision = (\<lambda>_ _ _ r. (Inr (), r)),
     repo_get_task_decisions = (\<lambda>_ r. (Inr decisions, r)),
     repo_set_task_acknowledgement = (\<lambda>_ _ r. (Inr (), r)),
     repo_get_task_acknowledgements = (\<lambda>_ r. (Inr {}, r)),
     repo_set_task_active_shares = (\<lambda>_ _ r. (Inr (), r)),
     repo_get_task_active_shares = (\<lambda>_ r. (Inr shares, r)),
     repo_set_task_round = (\<lambda>_ round r. (Inr round, r)),
     repo_increment_task_attempt_count = (\<lambda>_ r. (Inr 1, r)),
     repo_set_task_result = (\<lambda>_ _ r. (Inr (), r)),
     repo_set_task_group_certificates_sent = (\<lambda>_ _ r. (Inr (), r))\<rparr>"

definition sample_store :: "unit task_store" where
  "sample_store = \<lparr>cs_repo = (), cs_task_cache = [replicate 16 1 \<mapsto> Voting_Task sample_voting]\<rparr>"

text \<open>The cache is authoritative. Getting a task, from the cache or from the database, never changes
  or drops a task that is cached, whatever the database answers and also when the call fails; a task
  that is cached is the one returned.\<close>

lemma cached_task_is_authoritative:
  assumes "get_task E R task_id s = (r, s')"
  shows "(\<forall>other t. cs_task_cache s other = Some t \<longrightarrow> cs_task_cache s' other = Some t) \<and>
    (\<forall>task. r = Inr task \<longrightarrow> cs_task_cache s' task_id = Some task \<and>
      (\<forall>t. cs_task_cache s task_id = Some t \<longrightarrow> task = t))"
  using get_task_keeps[OF assms] get_task_cached[of E R task_id s _ s'] assms by fastforce

text \<open>A restarted server recovers the parties of a running task. The database holds only how many
  shares of each device are active; the communicator rebuilt from these counts has the
  threshold and the map from share indices to devices of the one the task was started
  with, so every device is asked for the same shares under the same indices, although the
  order in which the shares were chosen is lost and the participants come back in any order.\<close>

lemma hydrated_communicator_has_the_chosen_shares:
  assumes "shares_of ps chosen" "index_shares ps chosen = Inr active"
    and "communicator_new (model_threshold ps model) (proto_of_protocol_type (tm_protocol_type model)) active = Inr c"
    and "mset qs = mset ps" "map_of counts = map_of (count_shares chosen)"
    and "repo_get_task_active_shares R (tm_id model) (cs_repo s) = (Inr counts, repo')"
  shows "\<exists>c'. hydrate_communicator R model qs s = (Inr c', s\<lparr>cs_repo := repo'\<rparr>) \<and>
    comm_threshold c' = comm_threshold c \<and>
    map_of (comm_active_shares c') = map_of (comm_active_shares c) \<and>
    get_protocol_indices c' = get_protocol_indices c \<and>
    (\<forall>d. identifier_to_indices c' d = identifier_to_indices c d)"
  using rebuilt_communicator[OF assms] equal_parties_order unfolding equal_parties_def by blast

lemma hydrated_communicator_has_the_chosen_shares_witness:
  "\<exists>active c c' s'. index_shares (ti_participants sample_task_info) sample_chosen = Inr active \<and>
     communicator_new 2 P_Gg18 active = Inr c \<and>
     hydrate_communicator (sample_repo [] (count_shares sample_chosen)) sample_model
       (ti_participants sample_task_info) sample_store = (Inr c', s') \<and>
     get_protocol_indices c' = get_protocol_indices c"
proof -
  let ?R = "sample_repo [] (count_shares sample_chosen)"
  obtain active where a: "index_shares (ti_participants sample_task_info) sample_chosen = Inr active"
    "indexes (ti_participants sample_task_info) sample_chosen active"
    using index_shares_indexes[OF sample_shares_of] by blast
  have "length (map snd active) = length sample_chosen"
    using a(2) by (simp only: indexes_def)
  then have "length active = 3" by (simp add: sample_chosen_def)
  then obtain c where c: "communicator_new 2 P_Gg18 active = Inr c"
    by (simp add: communicator_new_def)
  have m: "communicator_new (model_threshold (ti_participants sample_task_info) sample_model)
      (proto_of_protocol_type (tm_protocol_type sample_model)) active = Inr c"
    using c by (simp add: model_threshold_def sample_model_def)
  have r: "repo_get_task_active_shares ?R (tm_id sample_model) (cs_repo sample_store) =
      (Inr (count_shares sample_chosen), ())"
    by (simp add: sample_repo_def)
  show ?thesis
    using hydrated_communicator_has_the_chosen_shares[OF sample_shares_of a(1) m refl refl r] a(1) c by blast
qed

text \<open>C33. A restarted server tells declined tasks from failed ones. The database stores both with a
  failure reason only. From the stored votes the task comes back as declined, with the true
  counts, exactly when the votes of its participants had declined it, and as failed with the
  stored reason otherwise, both for key generation, where a single rejected share declines, and for
  the tasks of a group.\<close>

theorem declined_and_failed_tasks_are_told_apart:
  fixes s :: "('r, 'm) task_store_scheme"
  assumes "votes_ok v" "vt_accept_threshold v = model_threshold (ti_participants (vt_task_info v)) model"
    and "tm_result model = Some row" "try_into_result row = Inr (Inl reason)"
    and "repo_get_task_decisions R (tm_id model) (cs_repo s) = (Inr (vt_decisions v), repo')"
  shows "\<exists>t. task_from_model R (vt_task_info v) model s = (Inr t, s\<lparr>cs_repo := repo'\<rparr>) \<and>
    (if share_sum (ti_participants (vt_task_info v)) - shares_against v < unat (vt_accept_threshold v)
     then \<exists>x. t = Declined_Task x \<and> dt_task_info x = vt_task_info v \<and>
       unat (dt_accepts x) = shares_for v \<and> unat (dt_rejects x) = shares_against v
     else t = Failed_Task \<lparr>xt_task_info = vt_task_info v, xt_reason = reason\<rparr>)"
proof -
  obtain a b where ab: "accepts_rejects (vt_decisions v) = (a, b)" by fastforce
  show ?thesis
    using failed_model_hydrated[OF assms ab] accepts_rejects_counts[OF assms(1) ab]
      declined_condition[OF assms(1) ab] by auto
qed

theorem declined_and_failed_tasks_are_told_apart_witness:
  "\<exists>s'. task_from_model (sample_repo (vt_decisions sample_voting) []) sample_task_info
     (sample_model\<lparr>tm_result := Some \<lparr>tr_task_id = replicate 16 1, tr_is_successful = False,
        tr_data = None, tr_error_message = Some ''err''\<rparr>\<rparr>) sample_store =
     (Inr (Failed_Task \<lparr>xt_task_info = sample_task_info, xt_reason = ''err''\<rparr>), s')"
proof -
  let ?row = "\<lparr>tr_task_id = replicate 16 1, tr_is_successful = False, tr_data = None,
    tr_error_message = Some ''err''\<rparr>"
  let ?m = "sample_model\<lparr>tm_result := Some ?row\<rparr>"
  have i: "vt_task_info sample_voting = sample_task_info" by (simp add: sample_voting_def)
  have t: "vt_accept_threshold sample_voting =
      model_threshold (ti_participants (vt_task_info sample_voting)) ?m"
    by (simp add: model_threshold_def sample_model_def sample_voting_def)
  have r: "tm_result ?m = Some ?row" "try_into_result ?row = Inr (Inl ''err'')"
    by (simp_all add: try_into_result_def)
  have q: "repo_get_task_decisions (sample_repo (vt_decisions sample_voting) []) (tm_id ?m)
      (cs_repo sample_store) = (Inr (vt_decisions sample_voting), ())"
    by (simp add: sample_repo_def)
  have "\<not> share_sum (ti_participants (vt_task_info sample_voting)) - shares_against sample_voting <
      unat (vt_accept_threshold sample_voting)"
    by (simp add: share_sum_def shares_against_def device_rejected_def sample_voting_defs)
  then show ?thesis
    using declined_and_failed_tasks_are_told_apart[OF sample_votes_ok t r q] by (auto simp: i)
qed

end
