(* ===== verification/Server_State.thy ===== *)
theory Server_State
  imports Task_Store
begin

text \<open>
  The server's state and the operations behind its interfaces, \<^verbatim>\<open>StateInner\<close> of \<^verbatim>\<open>src/state.rs\<close>. Each
  operation runs to its end without another in between.
\<close>

section \<open>State\<close>

text \<open>
  A subscriber's channel is tokio's \<^verbatim>\<open>mpsc::Sender\<close>: \<^verbatim>\<open>try_send\<close> puts a message into the channel and
  answers whether it did, \<^verbatim>\<open>is_closed\<close> tells that the receiver is gone.
\<close>

record 'tx channel_ops =
  try_send :: "'tx \<Rightarrow> status + proto_task \<Rightarrow> bool \<times> 'tx"
  is_closed :: "'tx \<Rightarrow> bool"

record ('r, 'tx) deps =
  dp_env :: env
  dp_repo :: "'r repository"
  dp_chan :: "'tx channel_ops"

record ('r, 'tx) server_state = "'r task_store" +
  ss_devices :: "(bytes, device) hashmap"
  ss_subscribers :: "(bytes, 'tx) hashmap"
  ss_task_last_updates :: "uuid \<rightharpoonup> u64"
  ss_device_last_activations :: "bytes \<rightharpoonup> u64"
  ss_world :: world

type_synonym ('r, 'tx, 'a) handler = "(('r, 'tx) server_state, 'a) eff"

abbreviation protocol_error :: "string \<Rightarrow> failure" where
  "protocol_error message \<equiv> Err (GeneralProtocolError message)"

section \<open>Time, randomness and identifiers\<close>

definition env_call :: "(nat \<Rightarrow> 'a) \<Rightarrow> ('r, 'tx, 'a) handler" where
  "env_call f s = (case next_call (ss_world s) of (n, w) \<Rightarrow> (Inr (f n), s\<lparr>ss_world := w\<rparr>))"

definition get_timestamp :: "('r, 'tx) deps \<Rightarrow> ('r, 'tx, u64) handler" where
  "get_timestamp D = env_call (system_time (dp_env D))"

text \<open>\<^verbatim>\<open>entry(key).or_insert(get_timestamp())\<close>: the clock is read in either case.\<close>

definition get_device_last_activation :: "('r, 'tx) deps \<Rightarrow> bytes \<Rightarrow> ('r, 'tx, u64) handler" where
  "get_device_last_activation D device_id =
     eff_bind (get_timestamp D) (\<lambda>now s.
       case ss_device_last_activations s device_id of
         Some last_active \<Rightarrow> (Inr last_active, s)
       | None \<Rightarrow> (Inr now, s\<lparr>ss_device_last_activations :=
           (ss_device_last_activations s)(device_id \<mapsto> now)\<rparr>))"

definition activate_device :: "('r, 'tx) deps \<Rightarrow> bytes \<Rightarrow> ('r, 'tx, unit) handler" where
  "activate_device D device_id =
     eff_bind (get_timestamp D) (\<lambda>now. eff_modify (\<lambda>s.
       s\<lparr>ss_device_last_activations := (ss_device_last_activations s)(device_id \<mapsto> now)\<rparr>))"

definition set_task_last_update :: "('r, 'tx) deps \<Rightarrow> uuid \<Rightarrow> ('r, 'tx, unit) handler" where
  "set_task_last_update D task_id =
     eff_bind (get_timestamp D) (\<lambda>now. eff_modify (\<lambda>s.
       s\<lparr>ss_task_last_updates := (ss_task_last_updates s)(task_id \<mapsto> now)\<rparr>))"

definition get_task_last_update :: "('r, 'tx) deps \<Rightarrow> uuid \<Rightarrow> ('r, 'tx, u64) handler" where
  "get_task_last_update D task_id =
     eff_bind (get_timestamp D) (\<lambda>now s.
       case ss_task_last_updates s task_id of
         Some last_update \<Rightarrow> (Inr last_update, s)
       | None \<Rightarrow> (Inr now, s\<lparr>ss_task_last_updates := (ss_task_last_updates s)(task_id \<mapsto> now)\<rparr>))"

section \<open>Devices and subscribers\<close>

definition restore ::
    "'r repository \<Rightarrow> 'r \<Rightarrow> world \<Rightarrow> ('r, 'tx) server_state res \<times> 'r" where
  "restore R repo w =
     (case repo_get_devices R repo of (r, repo') \<Rightarrow>
        (res_bind (res_of_persistence r) (\<lambda>devices.
           Inr \<lparr>cs_repo = repo', cs_task_cache = Map.empty,
             ss_devices = hm_collect (map (\<lambda>dev. (dev_id dev, dev)) devices), ss_subscribers = [],
             ss_task_last_updates = Map.empty, ss_device_last_activations = Map.empty,
             ss_world = w\<rparr>), repo'))"

definition add_device ::
    "('r, 'tx) deps \<Rightarrow> bytes \<Rightarrow> string \<Rightarrow> device_kind \<Rightarrow> bytes \<Rightarrow> ('r, 'tx, device) handler" where
  "add_device D device_id name kind certificate =
     eff_bind (call_repo (repo_add_device (dp_repo D) device_id name kind certificate)) (\<lambda>device.
       eff_bind (eff_modify (\<lambda>s. s\<lparr>ss_devices := hm_insert (dev_id device) device (ss_devices s)\<rparr>))
         (\<lambda>_. eff_return device))"

definition device_exists :: "('r, 'tx) server_state \<Rightarrow> bytes \<Rightarrow> bool" where
  "device_exists s device_id = (map_of (ss_devices s) device_id \<noteq> None)"

fun last_activations ::
    "('r, 'tx) deps \<Rightarrow> (bytes \<times> device) list \<Rightarrow> ('r, 'tx, (device \<times> u64) list) handler" where
  "last_activations D [] = eff_return []"
| "last_activations D ((device_id, device) # rest) =
     eff_bind (get_device_last_activation D device_id) (\<lambda>last_active.
       eff_bind (last_activations D rest) (\<lambda>others. eff_return ((device, last_active) # others)))"

definition get_devices :: "('r, 'tx) deps \<Rightarrow> ('r, 'tx, (device \<times> u64) list) handler" where
  "get_devices D = eff_bind (eff_gets ss_devices) (last_activations D)"

definition get_devices_with_ids :: "('r, 'tx) server_state \<Rightarrow> bytes list \<Rightarrow> device list" where
  "get_devices_with_ids s device_ids = List.map_filter (map_of (ss_devices s)) device_ids"

definition add_subscriber :: "bytes \<Rightarrow> 'tx \<Rightarrow> ('r, 'tx, unit) handler" where
  "add_subscriber device_id tx =
     eff_modify (\<lambda>s. s\<lparr>ss_subscribers := hm_insert device_id tx (ss_subscribers s)\<rparr>)"

definition remove_subscriber :: "bytes \<Rightarrow> ('r, 'tx, unit) handler" where
  "remove_subscriber device_id =
     eff_modify (\<lambda>s. s\<lparr>ss_subscribers := hm_remove device_id (ss_subscribers s)\<rparr>)"

text \<open>
  The loops of \<^verbatim>\<open>send_updates\<close>: each device to be told, with the view of the task it gets; a device
  whose channel does not take the message is removed afterwards.
\<close>

fun send_all_updates ::
    "'tx channel_ops \<Rightarrow> (bytes \<times> proto_task) list \<Rightarrow> (bytes, 'tx) hashmap \<Rightarrow>
     (bytes, 'tx) hashmap \<times> bytes list" where
  "send_all_updates C [] subs = (subs, [])"
| "send_all_updates C ((device_id, view) # rest) subs =
     (case map_of subs device_id of
        None \<Rightarrow> send_all_updates C rest subs
      | Some tx \<Rightarrow>
          (case try_send C tx (Inr view) of (sent, tx') \<Rightarrow>
             (case send_all_updates C rest (hm_insert device_id tx' subs) of (subs', remove) \<Rightarrow>
                (subs', if sent then remove else device_id # remove))))"

definition update_recipients :: "task \<Rightarrow> (bytes \<times> proto_task) list" where
  "update_recipients task =
     map (\<lambda>p. (device_identifier (part_device p),
         format_task task (Some (device_identifier (part_device p))) None))
       (ti_participants (get_task_info task)) @
     map (\<lambda>observer_id. (observer_id, format_task task None None)) (ti_observers (get_task_info task))"

definition send_updates :: "('r, 'tx) deps \<Rightarrow> task \<Rightarrow> ('r, 'tx, unit) handler" where
  "send_updates D task = eff_modify (\<lambda>s.
     case send_all_updates (dp_chan D) (update_recipients task) (ss_subscribers s) of (subs, remove) \<Rightarrow>
       s\<lparr>ss_subscribers := fold hm_remove remove subs\<rparr>)"

section \<open>New tasks\<close>

definition add_task :: "('r, 'tx) deps \<Rightarrow> voting_task \<Rightarrow> ('r, 'tx, proto_task) handler" where
  "add_task D task =
     (let task_id = ti_id (vt_task_info task)
      in eff_bind (persist_task (dp_repo D) task) (\<lambda>_.
         eff_bind (get_task (dp_env D) (dp_repo D) task_id) (\<lambda>task.
         eff_bind (send_updates D task) (\<lambda>_.
           eff_return (format_task task None None)))))"

text \<open>How often each device is named; the map's order is the order of the request and of the task.\<close>

definition device_shares :: "bytes list \<Rightarrow> (bytes, u32) hashmap" where
  "device_shares device_ids = fold hm_bump device_ids []"

definition group_participants_of :: "('r, 'tx) server_state \<Rightarrow> (bytes, u32) hashmap \<Rightarrow> participant list" where
  "group_participants_of s shares =
     map (\<lambda>device. \<lparr>part_device = device, part_shares = the (map_of shares (dev_id device))\<rparr>)
       (get_devices_with_ids s (map fst shares))"

text \<open>\<^verbatim>\<open>shares[device.id]\<close> panics for a device filed under another identifier than its own.\<close>

definition shares_known :: "('r, 'tx) server_state \<Rightarrow> (bytes, u32) hashmap \<Rightarrow> bool" where
  "shares_known s shares =
     list_all (\<lambda>device. map_of shares (dev_id device) \<noteq> None) (get_devices_with_ids s (map fst shares))"

definition add_group_task ::
    "('r, 'tx) deps \<Rightarrow> string \<Rightarrow> bytes list \<Rightarrow> u32 \<Rightarrow> protocol_type \<Rightarrow> key_type \<Rightarrow> string option \<Rightarrow>
     ('r, 'tx, proto_task) handler" where
  "add_group_task D name device_ids threshold protocol_type key_type note =
     (if \<not> is_name_valid name then eff_fail (protocol_error (''Invalid group name '' @ name))
      else
        let shares = device_shares device_ids
        in eff_bind (eff_gets (\<lambda>s. (shares_known s shares, group_participants_of s shares)))
          (\<lambda>(known, participants).
             if \<not> known then eff_fail Panic
             else eff_bind (env_call (new_uuid (dp_env D))) (\<lambda>task_id.
               let request = encode_group_request (dp_env D)
                     \<lparr>gr_name = name, gr_device_ids = map fst shares, gr_threshold = threshold,
                      gr_protocol = protocol_type_number protocol_type,
                      gr_key_type = key_type_number key_type, gr_note = note\<rparr>;
                   task_info = \<lparr>ti_id = task_id, ti_name = name, ti_task_type = TT_Group,
                     ti_protocol_type = protocol_type, ti_key_type = key_type,
                     ti_participants = participants, ti_observers = [], ti_attempts = 0,
                     ti_request = request\<rparr>
               in add_task D \<lparr>vt_task_info = task_info, vt_decisions = [],
                    vt_accept_threshold = total_shares task_info,
                    vt_running_task_context = Ctx_Group threshold note\<rparr>)))"

definition add_sign_task ::
    "('r, 'tx) deps \<Rightarrow> bytes \<Rightarrow> string \<Rightarrow> bytes \<Rightarrow> ('r, 'tx, proto_task) handler" where
  "add_sign_task D group_id name data =
     eff_bind (call_repo (repo_get_group (dp_repo D) group_id)) (\<lambda>found.
       case found of
         None \<Rightarrow> eff_fail (protocol_error ''Invalid group_id'')
       | Some grp \<Rightarrow>
           eff_bind (call_repo (repo_get_group_participants (dp_repo D) group_id)) (\<lambda>participants.
             let request = encode_sign_request (dp_env D)
                   \<lparr>sr_name = name, sr_group_id = grp_id grp, sr_data = data\<rparr>
             in case (case grp_key_type grp of
                    KT_SignPdf \<Rightarrow> Some (TT_SignPdf, Ctx_SignPdf grp data)
                  | KT_SignChallenge \<Rightarrow> Some (TT_SignChallenge, Ctx_SignChallenge grp data)
                  | KT_Decrypt \<Rightarrow> None) of
                  None \<Rightarrow> eff_fail (protocol_error ''Decryption groups can't accept signing requests'')
                | Some (task_type, ctx) \<Rightarrow>
                    eff_bind (env_call (new_uuid (dp_env D))) (\<lambda>task_id.
                      add_task D \<lparr>vt_task_info = \<lparr>ti_id = task_id, ti_name = name,
                          ti_task_type = task_type, ti_protocol_type = grp_protocol grp,
                          ti_key_type = grp_key_type grp, ti_participants = participants,
                          ti_observers = [], ti_attempts = 0, ti_request = request\<rparr>,
                        vt_decisions = [], vt_accept_threshold = grp_threshold grp,
                        vt_running_task_context = ctx\<rparr>)))"

definition add_decrypt_task ::
    "('r, 'tx) deps \<Rightarrow> bytes \<Rightarrow> string \<Rightarrow> bytes \<Rightarrow> string \<Rightarrow> bytes option \<Rightarrow> ('r, 'tx, proto_task) handler" where
  "add_decrypt_task D group_id name data data_type creator_device_id =
     eff_bind (call_repo (repo_get_group (dp_repo D) group_id)) (\<lambda>found.
       case found of
         None \<Rightarrow> eff_fail (protocol_error ''Invalid group_id'')
       | Some grp \<Rightarrow>
           eff_bind (call_repo (repo_get_group_participants (dp_repo D) group_id)) (\<lambda>participants.
             let request = encode_decrypt_request (dp_env D)
                   \<lparr>dr_name = name, dr_group_id = grp_id grp, dr_data = data, dr_data_type = data_type\<rparr>
             in if grp_key_type grp \<noteq> KT_Decrypt
                then eff_fail (protocol_error ''Signing group can't accept decryption requests'')
                else
                  let observers = (case creator_device_id of
                        Some did \<Rightarrow> if list_ex (\<lambda>p. part_id p = did) participants then [] else [did]
                      | None \<Rightarrow> [])
                  in eff_bind (env_call (new_uuid (dp_env D))) (\<lambda>task_id.
                       add_task D \<lparr>vt_task_info = \<lparr>ti_id = task_id, ti_name = name,
                           ti_task_type = TT_Decrypt, ti_protocol_type = grp_protocol grp,
                           ti_key_type = grp_key_type grp, ti_participants = participants,
                           ti_observers = observers, ti_attempts = 0, ti_request = request\<rparr>,
                         vt_decisions = [], vt_accept_threshold = grp_threshold grp,
                         vt_running_task_context = Ctx_Decrypt grp data\<rparr>)))"

section \<open>What a device is sent\<close>

text \<open>The messages offered to one channel one after another, and whether it took them all.\<close>

fun offered :: "'tx channel_ops \<Rightarrow> proto_task list \<Rightarrow> 'tx \<Rightarrow> bool \<times> 'tx" where
  "offered C [] tx = (True, tx)"
| "offered C (view # views) tx =
     (case try_send C tx (Inr view) of (sent, tx') \<Rightarrow>
        (case offered C views tx' of (all_sent, tx'') \<Rightarrow> (sent \<and> all_sent, tx'')))"

text \<open>The views of a task a device is sent: its own as a participant, the anonymous one as an observer.\<close>

definition views_for :: "task \<Rightarrow> bytes \<Rightarrow> proto_task list" where
  "views_for task device_id =
     replicate (count_list (map (\<lambda>p. device_identifier (part_device p)) (ti_participants (get_task_info task))) device_id)
       (format_task task (Some device_id) None) @
     replicate (count_list (ti_observers (get_task_info task)) device_id) (format_task task None None)"

lemma map_of_hm_removes: "map_of (fold hm_remove ks m) = (\<lambda>k. if k \<in> set ks then None else map_of m k)"
  by (induction ks arbitrary: m) (auto simp: map_of_hm_remove fun_eq_iff)

lemma send_all_updates_offered:
  assumes "send_all_updates C rs subs = (subs', remove)"
  shows "(map_of subs' d, d \<in> set remove) = (case map_of subs d of
      None \<Rightarrow> (None, False)
    | Some tx \<Rightarrow> (case offered C (map snd (filter (\<lambda>r. fst r = d) rs)) tx of (all_sent, tx') \<Rightarrow>
        (Some tx', \<not> all_sent)))"
  using assms
proof (induction rs arbitrary: subs subs' remove)
  case (Cons r rs)
  obtain device_id view where r: "r = (device_id, view)" by fastforce
  show ?case
  proof (cases "map_of subs device_id")
    case None
    with Cons r show ?thesis by (auto split: option.splits)
  next
    case (Some tx)
    obtain sent tx' where t: "try_send C tx (Inr view) = (sent, tx')" by fastforce
    obtain subs1 remove1 where u: "send_all_updates C rs (hm_insert device_id tx' subs) = (subs1, remove1)"
      by fastforce
    from Cons.IH[OF u] Cons.prems Some t u r show ?thesis
      by (cases "device_id = d") (auto split: option.splits prod.splits if_splits)
  qed
qed (simp split: option.splits)

lemma filter_recipients:
  "map snd (filter (\<lambda>r. fst r = d) (map (\<lambda>x. (f x, g x)) xs)) = map g (filter (\<lambda>x. f x = d) xs)"
  by (induction xs) auto

lemma map_const_filter:
  "(\<And>x. f x = d \<Longrightarrow> g x = c) \<Longrightarrow> map g (filter (\<lambda>x. f x = d) xs) = replicate (count_list (map f xs) d) c"
  by (induction xs) auto

lemma views_for_recipients:
  "map snd (filter (\<lambda>r. fst r = d) (update_recipients task)) = views_for task d"
proof -
  have "map (\<lambda>p. format_task task (Some (device_identifier (part_device p))) None)
      (filter (\<lambda>p. device_identifier (part_device p) = d) ps) =
      replicate (count_list (map (\<lambda>p. device_identifier (part_device p)) ps) d) (format_task task (Some d) None)" for ps
    by (rule map_const_filter) simp
  moreover have "map (\<lambda>_. format_task task None None) (filter (\<lambda>i. i = d) os) =
      replicate (count_list os d) (format_task task None None)" for os
    using map_const_filter[of "\<lambda>i. i" d "\<lambda>_. format_task task None None" _ os] by simp
  ultimately show ?thesis
    unfolding update_recipients_def views_for_def filter_append map_append filter_recipients by simp
qed

text \<open>A server with one task, channels of one place, and a database that takes everything.\<close>

type_synonym sample_tx = "(status + proto_task) list"

definition sample_channel :: "sample_tx channel_ops" where
  "sample_channel = \<lparr>try_send = (\<lambda>tx m. if tx = [] then (True, [m]) else (False, tx)),
     is_closed = (\<lambda>_. False)\<rparr>"

definition sample_deps :: "(unit, sample_tx) deps" where
  "sample_deps = \<lparr>dp_env = sample_env, dp_repo = sample_repo [] [], dp_chan = sample_channel\<rparr>"

definition sample_server :: "task \<Rightarrow> (unit, sample_tx) server_state" where
  "sample_server task = \<lparr>cs_repo = (), cs_task_cache = [replicate 16 1 \<mapsto> task], ss_devices = [],
     ss_subscribers = [([7], []), ([5], [Inl (Internal ''full'')])], ss_task_last_updates = Map.empty,
     ss_device_last_activations = Map.empty, ss_world = sample_world\<rparr>"

section \<open>Properties\<close>

text \<open>C31. What an update sends, and to whom. Every device with a subscription is offered one view for each
  place it has among the task's participants, its own view, and the anonymous view as an observer, in
  this order; a device that is neither is sent nothing and keeps its channel as it is. A device whose
  channel does not take every message loses its subscription, and only such a device does. Nothing
  else of the server's state changes and the update never fails.\<close>

theorem updates_reach_exactly_the_tasks_devices:
  "\<exists>subs. send_updates D task s = (Inr (), s\<lparr>ss_subscribers := subs\<rparr>) \<and>
    (\<forall>device_id. map_of subs device_id =
      (case map_of (ss_subscribers s) device_id of
         None \<Rightarrow> None
       | Some tx \<Rightarrow> (case offered (dp_chan D) (views_for task device_id) tx of (all_sent, tx') \<Rightarrow>
           if all_sent then Some tx' else None)))"
proof -
  obtain subs remove where u: "send_all_updates (dp_chan D) (update_recipients task) (ss_subscribers s) = (subs, remove)"
    by fastforce
  have "map_of (fold hm_remove remove subs) d =
      (case map_of (ss_subscribers s) d of None \<Rightarrow> None
       | Some tx \<Rightarrow> (case offered (dp_chan D) (views_for task d) tx of (all_sent, tx') \<Rightarrow>
           if all_sent then Some tx' else None))" for d
    using send_all_updates_offered[OF u, of d, unfolded views_for_recipients]
    by (auto simp: map_of_hm_removes split: option.splits prod.splits)
  then show ?thesis
    by (intro exI[of _ "fold hm_remove remove subs"]) (simp add: send_updates_def eff_modify_def u)
qed

end
