(* ===== verification/Server_Tasks.thy ===== *)
theory Server_Tasks
  imports Server_State
begin

text \<open>
  The operations of \<^verbatim>\<open>src/state.rs\<close> that read tasks and drive them from phase to phase.
\<close>

section \<open>Reading tasks\<close>

fun get_formatted_list ::
    "('r, 'tx) deps \<Rightarrow> bytes option \<Rightarrow> uuid list \<Rightarrow> ('r, 'tx, proto_task list) handler" where
  "get_formatted_list D device_id [] = eff_return []"
| "get_formatted_list D device_id (task_id # task_ids) =
     eff_bind (get_task (dp_env D) (dp_repo D) task_id) (\<lambda>task.
       eff_bind (get_formatted_list D device_id task_ids) (\<lambda>tasks.
         eff_return (format_task task device_id None # tasks)))"

definition get_formatted_active_device_tasks ::
    "('r, 'tx) deps \<Rightarrow> bytes \<Rightarrow> ('r, 'tx, proto_task list) handler" where
  "get_formatted_active_device_tasks D device_id =
     eff_bind (call_repo (repo_get_active_device_tasks (dp_repo D) device_id))
       (get_formatted_list D (Some device_id))"

definition get_formatted_tasks :: "('r, 'tx) deps \<Rightarrow> ('r, 'tx, proto_task list) handler" where
  "get_formatted_tasks D =
     eff_bind (call_repo (repo_get_tasks (dp_repo D))) (get_formatted_list D None)"

definition get_formatted_task ::
    "('r, 'tx) deps \<Rightarrow> uuid \<Rightarrow> bytes option \<Rightarrow> ('r, 'tx, proto_task) handler" where
  "get_formatted_task D task_id device_id =
     eff_bind (get_task (dp_env D) (dp_repo D) task_id) (\<lambda>task.
       eff_return (format_task task device_id (Some (ti_request (get_task_info task)))))"

definition get_device_groups :: "('r, 'tx) deps \<Rightarrow> bytes \<Rightarrow> ('r, 'tx, group list) handler" where
  "get_device_groups D device_id = call_repo (repo_get_device_groups (dp_repo D) device_id)"

definition get_groups :: "('r, 'tx) deps \<Rightarrow> ('r, 'tx, group list) handler" where
  "get_groups D = call_repo (repo_get_groups (dp_repo D))"

section \<open>Driving tasks\<close>

text \<open>A method of a running task called on the task in the cache: its changes stay whatever it returns.\<close>

definition run_cached ::
    "uuid \<Rightarrow> running_task \<Rightarrow> (running_task \<times> world, 'a) eff \<Rightarrow> ('r, 'tx, 'a) handler" where
  "run_cached task_id rt f s =
     (case f (rt, ss_world s) of (r, rt', w) \<Rightarrow>
        (r, s\<lparr>cs_task_cache := (cs_task_cache s)(task_id \<mapsto> Running_Task rt'), ss_world := w\<rparr>))"

text \<open>A method of a running task that is not in the cache yet.\<close>

definition run_local ::
    "running_task \<Rightarrow> (running_task \<times> world, 'a) eff \<Rightarrow> ('r, 'tx, 'a \<times> running_task) handler" where
  "run_local rt f s =
     (case f (rt, ss_world s) of (r, rt', w) \<Rightarrow>
        (res_bind r (\<lambda>x. Inr (x, rt')), s\<lparr>ss_world := w\<rparr>))"

definition fail_task :: "('r, 'tx) deps \<Rightarrow> uuid \<Rightarrow> failed_task \<Rightarrow> ('r, 'tx, unit) handler" where
  "fail_task D task_id task =
     eff_bind (call_repo (repo_set_task_result (dp_repo D) task_id (Inl (xt_reason task)))) (\<lambda>_.
     eff_bind (put_task task_id (Failed_Task task)) (\<lambda>_.
       send_updates D (Failed_Task task)))"

definition send_cached :: "('r, 'tx) deps \<Rightarrow> uuid \<Rightarrow> ('r, 'tx, unit) handler" where
  "send_cached D task_id =
     eff_bind (eff_gets (\<lambda>s. cs_task_cache s task_id)) (\<lambda>found.
       case found of Some task \<Rightarrow> send_updates D task | None \<Rightarrow> eff_return ())"

definition finish_task ::
    "('r, 'tx) deps \<Rightarrow> uuid \<Rightarrow> u16 \<Rightarrow> finished_task \<Rightarrow> ('r, 'tx, unit) handler" where
  "finish_task D task_id round task =
     eff_bind (call_repo (repo_set_task_round (dp_repo D) task_id round)) (\<lambda>_.
     eff_bind (case ft_result task of
         GroupEstablished grp \<Rightarrow>
           eff_bind (call_repo (repo_add_group (dp_repo D) (grp_id grp) task_id (grp_name grp)
               (grp_threshold grp) (grp_protocol grp) (grp_key_type grp) (grp_certificate grp)
               (grp_note grp)))
             (\<lambda>_. eff_return ())
       | _ \<Rightarrow> eff_return ()) (\<lambda>_.
     eff_bind (call_repo (repo_set_task_result (dp_repo D) task_id (Inr (as_bytes (ft_result task))))) (\<lambda>_.
     eff_bind (put_task task_id (Finished_Task task)) (\<lambda>_.
       send_updates D (Finished_Task task)))))"

text \<open>What \<^verbatim>\<open>update_task\<close> does with the update a running task reports.\<close>

definition apply_round_update ::
    "('r, 'tx) deps \<Rightarrow> uuid \<Rightarrow> round_update \<Rightarrow> ('r, 'tx, unit) handler" where
  "apply_round_update D task_id update =
     (case update of
        Listen \<Rightarrow> eff_return ()
      | GroupCertificatesSent \<Rightarrow> eff_fail Panic
      | NextRound round \<Rightarrow>
          eff_bind (call_repo (repo_set_task_round (dp_repo D) task_id round)) (\<lambda>_.
            send_cached D task_id)
      | Round_Failed task \<Rightarrow> fail_task D task_id task
      | Round_Finished round task \<Rightarrow> finish_task D task_id round task)"

definition update_task ::
    "('r, 'tx) deps \<Rightarrow> uuid \<Rightarrow> bytes \<Rightarrow> client_message list \<Rightarrow> u32 \<Rightarrow> ('r, 'tx, unit) handler" where
  "update_task D task_id device data attempt =
     eff_bind (get_task (dp_env D) (dp_repo D) task_id) (\<lambda>entry.
       case entry of
         Running_Task rt \<Rightarrow>
           eff_bind (set_task_last_update D task_id) (\<lambda>_.
             if attempt \<noteq> ti_attempts (running_task_info rt)
             then eff_fail (protocol_error ''Stale update'')
             else eff_bind (run_cached task_id rt (running_task_update (dp_env D) device data))
               (apply_round_update D task_id))
       | _ \<Rightarrow> eff_fail (protocol_error ''Cannot update non-running task''))"

fun connected_participants ::
    "('r, 'tx) deps \<Rightarrow> u64 \<Rightarrow> participant list \<Rightarrow> ('r, 'tx, participant list) handler" where
  "connected_participants D latest_acceptable_time [] = eff_return []"
| "connected_participants D latest_acceptable_time (p # ps) =
     eff_bind (get_device_last_activation D (part_id p)) (\<lambda>last_active_time.
       eff_bind (connected_participants D latest_acceptable_time ps) (\<lambda>rest.
         eff_return (if last_active_time > latest_acceptable_time then p # rest else rest)))"

definition choose_active_shares ::
    "('r, 'tx) deps \<Rightarrow> voting_task \<Rightarrow> ('r, 'tx, (u32, device) hashmap) handler" where
  "choose_active_shares D task =
     (let accepting = filter (\<lambda>p. device_accepted task (part_id p)) (ti_participants (vt_task_info task))
      in eff_bind (get_timestamp D) (\<lambda>now.
         eff_bind (connected_participants D (now - 5) accepting) (\<lambda>connected.
         let candidates = (if sum_list (map part_shares connected) \<ge> vt_accept_threshold task
               then connected else accepting)
         in eff_bind (env_call (\<lambda>n. choose_multiple (dp_env D) n (share_devices candidates)
                (unat (vt_accept_threshold task)))) (\<lambda>chosen_devices.
            eff_bind (call_repo (repo_set_task_active_shares (dp_repo D) (ti_id (vt_task_info task))
                (count_shares chosen_devices))) (\<lambda>_.
              eff_lift (index_shares (ti_participants (vt_task_info task)) chosen_devices))))))"

text \<open>
  An accepted task is initialised before it replaces the voting task in the cache. The last steps of
  \<^verbatim>\<open>decide_task\<close>: what it does with the update of the initialisation and with the decision.
\<close>

definition apply_start_update ::
    "('r, 'tx) deps \<Rightarrow> uuid \<Rightarrow> round_update \<Rightarrow> running_task \<Rightarrow> ('r, 'tx, unit) handler" where
  "apply_start_update D task_id update rt =
     (case update of
        Listen \<Rightarrow> eff_fail Panic
      | Round_Finished _ _ \<Rightarrow> eff_fail Panic
      | GroupCertificatesSent \<Rightarrow>
          eff_bind (call_repo (repo_set_task_group_certificates_sent (dp_repo D) task_id (Some True))) (\<lambda>_.
          eff_bind (put_task task_id (Running_Task rt)) (\<lambda>_. send_updates D (Running_Task rt)))
      | NextRound round \<Rightarrow>
          eff_bind (call_repo (repo_set_task_round (dp_repo D) task_id round)) (\<lambda>_.
          eff_bind (put_task task_id (Running_Task rt)) (\<lambda>_. send_updates D (Running_Task rt)))
      | Round_Failed failed \<Rightarrow> fail_task D task_id failed)"

definition start_accepted_task ::
    "('r, 'tx) deps \<Rightarrow> uuid \<Rightarrow> voting_task \<Rightarrow> ('r, 'tx, unit) handler" where
  "start_accepted_task D task_id task =
     eff_bind (choose_active_shares D task) (\<lambda>active_shares.
     eff_bind (eff_lift (create_running_task (vt_running_task_context task) task active_shares)) (\<lambda>rt.
     eff_bind (run_local rt (running_task_initialize (dp_env D))) (\<lambda>(update, rt).
       apply_start_update D task_id update rt)))"

definition apply_decision ::
    "('r, 'tx) deps \<Rightarrow> uuid \<Rightarrow> voting_task \<Rightarrow> decision_update \<Rightarrow> ('r, 'tx, unit) handler" where
  "apply_decision D task_id task decision_update =
     (case decision_update of
        Undecided \<Rightarrow> send_updates D (Voting_Task task)
      | Accepted \<Rightarrow> start_accepted_task D task_id task
      | Decision_Declined declined \<Rightarrow>
          eff_bind (call_repo (repo_set_task_result (dp_repo D) task_id (Inl ''Task declined''))) (\<lambda>_.
          eff_bind (put_task task_id (Declined_Task declined)) (\<lambda>_.
            send_updates D (Declined_Task declined))))"

definition decide_task ::
    "('r, 'tx) deps \<Rightarrow> uuid \<Rightarrow> bytes \<Rightarrow> bool \<Rightarrow> ('r, 'tx, unit) handler" where
  "decide_task D task_id device_id accept =
     eff_bind (get_task (dp_env D) (dp_repo D) task_id) (\<lambda>entry.
       case entry of
         Voting_Task task \<Rightarrow>
           eff_bind (set_task_last_update D task_id) (\<lambda>_.
             case decide task device_id accept of (r, task) \<Rightarrow>
               eff_bind (put_task task_id (Voting_Task task)) (\<lambda>_.
               eff_bind (eff_lift r) (\<lambda>decision_update.
               eff_bind (call_repo (repo_set_task_decision (dp_repo D) task_id device_id accept)) (\<lambda>_.
                 apply_decision D task_id task decision_update))))
       | _ \<Rightarrow> eff_fail (protocol_error ''Cannot decide non-voting task''))"

definition acknowledge_task ::
    "('r, 'tx) deps \<Rightarrow> uuid \<Rightarrow> bytes \<Rightarrow> ('r, 'tx, unit) handler" where
  "acknowledge_task D task_id device =
     eff_bind (get_task (dp_env D) (dp_repo D) task_id) (\<lambda>entry.
       case entry of
         Finished_Task task \<Rightarrow>
           eff_bind (put_task task_id (Finished_Task (acknowledge task device))) (\<lambda>_.
             call_repo (repo_set_task_acknowledgement (dp_repo D) task_id device))
       | _ \<Rightarrow> eff_fail (protocol_error ''Cannot acknowledge unfinished task''))"

section \<open>Stale tasks\<close>

text \<open>\<^verbatim>\<open>now.saturating_sub(last_update) > 30\<close>.\<close>

definition is_stale :: "u64 \<Rightarrow> u64 \<Rightarrow> bool" where
  "is_stale now last_update = (unat now - unat last_update > 30)"

fun stale_tasks :: "('r, 'tx) deps \<Rightarrow> u64 \<Rightarrow> uuid list \<Rightarrow> ('r, 'tx, uuid list) handler" where
  "stale_tasks D now [] = eff_return []"
| "stale_tasks D now (task_id # task_ids) =
     eff_bind (get_task_last_update D task_id) (\<lambda>last_update.
       eff_bind (stale_tasks D now task_ids) (\<lambda>rest.
         eff_return (if is_stale now last_update then task_id # rest else rest)))"

definition apply_restart_update ::
    "('r, 'tx) deps \<Rightarrow> uuid \<Rightarrow> uuid \<Rightarrow> round_update \<Rightarrow> ('r, 'tx, unit) handler" where
  "apply_restart_update D entry_id task_id update =
     (case update of
        Listen \<Rightarrow> eff_fail Panic
      | Round_Finished _ _ \<Rightarrow> eff_fail Panic
      | GroupCertificatesSent \<Rightarrow>
          eff_bind (call_repo (repo_set_task_group_certificates_sent (dp_repo D) task_id (Some True)))
            (\<lambda>_. send_cached D entry_id)
      | NextRound round \<Rightarrow>
          eff_bind (call_repo (repo_set_task_round (dp_repo D) task_id round)) (\<lambda>_. send_cached D entry_id)
      | Round_Failed failed \<Rightarrow>
          eff_bind (call_repo (repo_set_task_result (dp_repo D) task_id (Inl (xt_reason failed)))) (\<lambda>_.
          eff_bind (put_task entry_id (Failed_Task failed)) (\<lambda>_. send_updates D (Failed_Task failed))))"

definition restart_task :: "('r, 'tx) deps \<Rightarrow> uuid \<Rightarrow> ('r, 'tx, unit) handler" where
  "restart_task D entry_id =
     eff_bind (get_task (dp_env D) (dp_repo D) entry_id) (\<lambda>entry.
       case entry of
         Running_Task rt \<Rightarrow>
           let task_id = ti_id (running_task_info rt)
           in eff_bind (set_task_last_update D task_id) (\<lambda>_.
              eff_bind (call_repo (repo_increment_task_attempt_count (dp_repo D) task_id)) (\<lambda>_.
              eff_bind (run_cached entry_id rt (running_task_restart (dp_env D)))
                (apply_restart_update D entry_id task_id)))
       | _ \<Rightarrow> eff_fail (inconsistent ''non-running task in candidates for restart''))"

fun restart_all :: "('r, 'tx) deps \<Rightarrow> uuid list \<Rightarrow> ('r, 'tx, unit) handler" where
  "restart_all D [] = eff_return ()"
| "restart_all D (task_id # task_ids) = eff_bind (restart_task D task_id) (\<lambda>_. restart_all D task_ids)"

definition restart_stale_tasks :: "('r, 'tx) deps \<Rightarrow> ('r, 'tx, unit) handler" where
  "restart_stale_tasks D =
     eff_bind (get_timestamp D) (\<lambda>now.
     eff_bind (call_repo (repo_get_restart_candidates (dp_repo D))) (\<lambda>candidates.
     eff_bind (stale_tasks D now candidates) (restart_all D)))"

section \<open>The life of a task\<close>

text \<open>The phases a task may take and the steps between them.\<close>

datatype phase = Ph_Voting | Ph_Running | Ph_Declined | Ph_Finished | Ph_Failed

fun phase_of :: "task \<Rightarrow> phase" where
  "phase_of (Voting_Task _) = Ph_Voting"
| "phase_of (Running_Task _) = Ph_Running"
| "phase_of (Declined_Task _) = Ph_Declined"
| "phase_of (Finished_Task _) = Ph_Finished"
| "phase_of (Failed_Task _) = Ph_Failed"

inductive phase_step :: "phase \<Rightarrow> phase \<Rightarrow> bool" where
  accepted: "phase_step Ph_Voting Ph_Running"
| not_started: "phase_step Ph_Voting Ph_Failed"
| declined: "phase_step Ph_Voting Ph_Declined"
| finished: "phase_step Ph_Running Ph_Finished"
| failed: "phase_step Ph_Running Ph_Failed"

inductive_simps phase_step_from: "phase_step Ph_Declined p" "phase_step Ph_Finished p" "phase_step Ph_Failed p"

text \<open>
  How a task may evolve: it stays the same task, moves along the steps, and once it has come to an
  end only acknowledgements are added.
\<close>

fun acknowledged :: "task \<Rightarrow> bytes set" where
  "acknowledged (Finished_Task t) = ft_acknowledgements t"
| "acknowledged _ = {}"

fun without_acknowledgements :: "task \<Rightarrow> task" where
  "without_acknowledgements (Finished_Task t) = Finished_Task (t\<lparr>ft_acknowledgements := {}\<rparr>)"
| "without_acknowledgements t = t"

definition evolves :: "task \<Rightarrow> task \<Rightarrow> bool" where
  "evolves t t' =
     (ti_id (get_task_info t') = ti_id (get_task_info t) \<and> phase_step\<^sup>*\<^sup>* (phase_of t) (phase_of t') \<and>
      (phase_of t \<in> {Ph_Declined, Ph_Finished, Ph_Failed} \<longrightarrow>
         without_acknowledgements t' = without_acknowledgements t \<and> acknowledged t \<subseteq> acknowledged t'))"

lemma phase_path_terminal:
  "phase_step\<^sup>*\<^sup>* p q \<Longrightarrow> p \<in> {Ph_Declined, Ph_Finished, Ph_Failed} \<Longrightarrow> q = p"
  by (induction rule: converse_rtranclp_induct) (auto simp: phase_step_from)

lemma evolves_refl [simp]: "evolves t t"
  by (simp add: evolves_def)

lemma evolves_trans: "evolves a b \<Longrightarrow> evolves b c \<Longrightarrow> evolves a c"
  unfolding evolves_def by (metis phase_path_terminal rtranclp_trans subset_trans)

lemma evolves_stepI:
  assumes "ti_id (get_task_info t') = ti_id (get_task_info t)"
    and "phase_of t = phase_of t' \<or> phase_step (phase_of t) (phase_of t')"
    and "phase_of t \<in> {Ph_Voting, Ph_Running}"
  shows "evolves t t'"
  using assms by (auto simp: evolves_def)

definition tasks_evolve :: "('r, 'm) task_store_scheme \<Rightarrow> ('r, 'm) task_store_scheme \<Rightarrow> bool" where
  "tasks_evolve s s' = (\<forall>task_id t. cs_task_cache s task_id = Some t \<longrightarrow>
     (\<exists>t'. cs_task_cache s' task_id = Some t' \<and> evolves t t'))"

lemma tasks_evolve_refl [simp]: "tasks_evolve s s"
  by (auto simp: tasks_evolve_def)

lemma tasks_evolve_trans: "tasks_evolve a b \<Longrightarrow> tasks_evolve b c \<Longrightarrow> tasks_evolve a c"
  unfolding tasks_evolve_def by (meson evolves_trans)

lemma tasks_evolve_kept: "cache_kept s s' \<Longrightarrow> tasks_evolve s s'"
  unfolding cache_kept_def tasks_evolve_def map_le_def dom_def
  by (metis (mono_tags, lifting) evolves_refl mem_Collect_eq option.distinct(1))

text \<open>The state has evolved from \<^verbatim>\<open>s0\<close> and the cache holds \<^verbatim>\<open>t\<close>.\<close>

definition at :: "('r, 'm) task_store_scheme \<Rightarrow> uuid \<Rightarrow> task \<Rightarrow> ('r, 'm) task_store_scheme \<Rightarrow> bool" where
  "at s0 task_id t s = (tasks_evolve s0 s \<and> cs_task_cache s task_id = Some t)"

lemma at_evolves: "at s0 task_id t s \<Longrightarrow> tasks_evolve s0 s"
  by (simp add: at_def)

lemma kept_evolve:
  "eff_within cache_kept m \<Longrightarrow> m s = (r, s') \<Longrightarrow> tasks_evolve s0 s \<Longrightarrow> tasks_evolve s0 s'"
  by (blast intro: tasks_evolve_trans tasks_evolve_kept dest: eff_withinD)

lemma at_get_task:
  "eff_triple (tasks_evolve s0) (get_task E R task_id) (\<lambda>t. at s0 task_id t) (tasks_evolve s0)"
proof (rule eff_tripleI)
  fix s t s' assume "tasks_evolve s0 s" "get_task E R task_id s = (Inr t, s')"
  then show "at s0 task_id t s'"
    using kept_evolve[OF kept_get_task] get_task_cached unfolding at_def by blast
qed (rule kept_evolve[OF kept_get_task])

lemma tasks_evolve_put:
  assumes "at s0 task_id t s" "evolves t t'"
  shows "at s0 task_id t' (s\<lparr>cs_task_cache := (cs_task_cache s)(task_id \<mapsto> t')\<rparr>)"
proof -
  have "\<exists>u'. ((cs_task_cache s)(task_id \<mapsto> t')) i = Some u' \<and> evolves u u'"
    if i: "cs_task_cache s0 i = Some u" for i u
  proof -
    obtain u' where "cs_task_cache s i = Some u'" "evolves u u'"
      using assms(1) i by (auto simp: at_def tasks_evolve_def)
    then show ?thesis
      using assms evolves_trans by (cases "i = task_id") (auto simp: at_def)
  qed
  then show ?thesis by (simp add: at_def tasks_evolve_def)
qed

lemma at_put:
  "evolves t t' \<Longrightarrow> eff_triple (at s0 task_id t) (put_task task_id t') (\<lambda>_. at s0 task_id t') (tasks_evolve s0)"
  unfolding put_task_def by (intro eff_triple_modify tasks_evolve_put)

lemma at_neutral:
  assumes "\<And>s r s'. m s = (r, s') \<Longrightarrow> cs_task_cache s' = cs_task_cache s"
  shows "eff_triple (at s0 task_id t) m (\<lambda>_. at s0 task_id t) (tasks_evolve s0)"
  using assms by (intro eff_tripleI) (fastforce simp: at_def tasks_evolve_def)+

section \<open>Effects that leave the cached tasks alone\<close>

definition cache_same :: "('r, 'm) task_store_scheme \<Rightarrow> ('r, 'm) task_store_scheme \<Rightarrow> bool" where
  "cache_same s s' = (cs_task_cache s' = cs_task_cache s)"

lemma cache_same_order [simp]: "reflp cache_same" "transp cache_same"
  by (auto simp: cache_same_def reflp_def transp_def)

named_theorems same_intros \<open>effects that leave the cached tasks alone\<close>

lemma same_bind [same_intros]:
  "eff_within cache_same m \<Longrightarrow> (\<And>x. eff_within cache_same (f x)) \<Longrightarrow> eff_within cache_same (eff_bind m f)"
  by (rule eff_within_bind) simp_all

lemma same_pure [same_intros]:
  "eff_within cache_same (eff_return x)" "eff_within cache_same (eff_fail e)"
  "eff_within cache_same (eff_lift r)" "eff_within cache_same (eff_gets g)"
  by simp_all

lemma same_call_repo [same_intros]: "eff_within cache_same (call_repo f)"
  by (auto simp: eff_within_def call_repo_def cache_same_def split: prod.splits)

lemma same_env_call [same_intros]: "eff_within cache_same (env_call f)"
  by (auto simp: eff_within_def env_call_def cache_same_def split: prod.splits)

lemma same_get_timestamp [same_intros]: "eff_within cache_same (get_timestamp D)"
  unfolding get_timestamp_def by (rule same_env_call)

lemma same_modify:
  "(\<And>s. cs_task_cache (h s) = cs_task_cache s) \<Longrightarrow> eff_within cache_same (eff_modify h)"
  by (simp add: eff_within_def eff_modify_def cache_same_def)

lemma same_last_update [same_intros]:
  "eff_within cache_same (set_task_last_update D task_id)"
  "eff_within cache_same (get_task_last_update D task_id)"
  unfolding set_task_last_update_def get_task_last_update_def
  by (intro same_intros same_modify; simp)
    (intro same_intros, auto simp: eff_within_def cache_same_def split: option.splits)

lemma same_device_last_activation [same_intros]:
  "eff_within cache_same (get_device_last_activation D device_id)"
  unfolding get_device_last_activation_def
  by (intro same_intros) (auto simp: eff_within_def cache_same_def split: option.splits)

lemma same_send_updates [same_intros]: "eff_within cache_same (send_updates D task)"
  unfolding send_updates_def by (intro same_modify) (simp split: prod.splits)

lemma same_send_cached [same_intros]: "eff_within cache_same (send_cached D task_id)"
  unfolding send_cached_def by (intro same_intros) (auto intro: same_intros split: option.splits)

lemma same_run_local [same_intros]: "eff_within cache_same (run_local rt f)"
  by (auto simp: eff_within_def run_local_def cache_same_def split: prod.splits)

lemma same_connected [same_intros]: "eff_within cache_same (connected_participants D now ps)"
  by (induction ps) (auto intro!: same_intros)

lemma same_choose [same_intros]: "eff_within cache_same (choose_active_shares D task)"
  unfolding choose_active_shares_def Let_def by (intro same_intros)

lemma same_stale_tasks [same_intros]: "eff_within cache_same (stale_tasks D now ids)"
  by (induction ids) (auto intro!: same_intros)

lemma at_same:
  "eff_within cache_same m \<Longrightarrow> eff_triple (at s0 task_id t) m (\<lambda>_. at s0 task_id t) (tasks_evolve s0)"
  by (rule at_neutral) (auto dest!: eff_withinD simp: cache_same_def)

lemma evolve_same:
  "eff_within cache_same m \<Longrightarrow> eff_triple (tasks_evolve s0) m (\<lambda>_. tasks_evolve s0) (tasks_evolve s0)"
  by (intro eff_tripleI) (auto simp: cache_same_def tasks_evolve_def dest!: eff_withinD)

lemma at_weaken: "eff_triple P m (\<lambda>_. at s0 task_id t) F \<Longrightarrow> eff_triple P m (\<lambda>_. tasks_evolve s0) F"
  by (erule eff_triple_post) (rule at_evolves)

lemma at_fail: "eff_triple (at s0 task_id t) (eff_fail e) Q (tasks_evolve s0)"
  by (intro eff_triple_pure at_evolves)

lemma at_return: "eff_triple (at s0 task_id t) (eff_return x) (\<lambda>_. tasks_evolve s0) (tasks_evolve s0)"
  by (intro eff_triple_pure at_evolves)

text \<open>The last steps of a handler: the task is replaced and the devices are told.\<close>

lemma at_put_send:
  assumes "evolves t t'"
  shows "eff_triple (at s0 task_id t) (eff_bind (put_task task_id t') (\<lambda>_. send_updates D task))
    (\<lambda>_. tasks_evolve s0) (tasks_evolve s0)"
  using assms by (intro eff_triple_bind[OF at_put] at_weaken[OF at_same] same_intros)

lemma at_fail_task:
  assumes "evolves t (Failed_Task x)"
  shows "eff_triple (at s0 task_id t) (fail_task D task_id x) (\<lambda>_. tasks_evolve s0) (tasks_evolve s0)"
  unfolding fail_task_def
  using assms by (intro eff_triple_bind[OF at_same] at_put_send same_intros)

lemma at_finish_task:
  assumes "evolves t (Finished_Task f)"
  shows "eff_triple (at s0 task_id t) (finish_task D task_id round f) (\<lambda>_. tasks_evolve s0) (tasks_evolve s0)"
  unfolding finish_task_def
  by (intro eff_triple_bind[OF at_same] at_put_send assms)
    (auto intro!: same_intros split: task_result.splits)

lemma at_run_cached:
  assumes "\<And>w r rt' w'. f (rt, w) = (r, rt', w') \<Longrightarrow> ti_id (running_task_info rt') = ti_id (running_task_info rt)"
  shows "eff_triple (at s0 task_id (Running_Task rt)) (run_cached task_id rt f)
    (\<lambda>x s. \<exists>w rt' w'. f (rt, w) = (Inr x, rt', w') \<and> at s0 task_id (Running_Task rt') s) (tasks_evolve s0)"
proof -
  have ev: "at s0 task_id (Running_Task rt') (s\<lparr>cs_task_cache := (cs_task_cache s)(task_id \<mapsto> Running_Task rt'),
      ss_world := w'\<rparr>)"
    if "at s0 task_id (Running_Task rt) s" "f (rt, ss_world s) = (r, rt', w')" for s r rt' w'
    using tasks_evolve_put[OF that(1), of "Running_Task rt'"] assms[OF that(2)]
    by (simp add: at_def tasks_evolve_def evolves_def)
  show ?thesis
  proof (rule eff_tripleI)
    fix s x s' assume a: "at s0 task_id (Running_Task rt) s" "run_cached task_id rt f s = (Inr x, s')"
    obtain r rt' w' where f: "f (rt, ss_world s) = (r, rt', w')" by (metis prod_cases3)
    with a ev[OF a(1) f] show "\<exists>w rt' w'. f (rt, w) = (Inr x, rt', w') \<and> at s0 task_id (Running_Task rt') s'"
      by (auto simp: run_cached_def)
  next
    fix s e s' assume a: "at s0 task_id (Running_Task rt) s" "run_cached task_id rt f s = (Inl e, s')"
    obtain r rt' w' where f: "f (rt, ss_world s) = (r, rt', w')" by (metis prod_cases3)
    with a ev[OF a(1) f] show "tasks_evolve s0 s'"
      by (auto simp: run_cached_def dest: at_evolves)
  qed
qed

section \<open>Every handler lets tasks evolve\<close>

abbreviation lets_evolve :: "('r, 'm) task_store_scheme \<Rightarrow> (('r, 'm) task_store_scheme, 'a) eff \<Rightarrow> bool" where
  "lets_evolve s0 m \<equiv> eff_triple (tasks_evolve s0) m (\<lambda>_. tasks_evolve s0) (tasks_evolve s0)"

lemma evolve_bind: "lets_evolve s0 m \<Longrightarrow> (\<And>x. lets_evolve s0 (f x)) \<Longrightarrow> lets_evolve s0 (eff_bind m f)"
  by (rule eff_triple_bind)

lemmas at_bind = eff_triple_bind[OF at_same]

lemmas at_repo = at_bind[OF same_call_repo]
lemmas at_send = at_weaken[OF at_same[OF same_send_updates]] at_weaken[OF at_same[OF same_send_cached]]

lemma apply_round_update_evolves:
  assumes "reports (running_task_info rt) (Inr update)"
  shows "eff_triple (at s0 task_id (Running_Task rt)) (apply_round_update D task_id update)
    (\<lambda>_. tasks_evolve s0) (tasks_evolve s0)"
  using assms
  by (cases update) (auto simp: apply_round_update_def reports_def intro!: at_return at_fail at_repo
      at_send at_fail_task at_finish_task evolves_stepI intro: phase_step.intros)

lemma update_task_evolves: "lets_evolve s0 (update_task D task_id device data attempt)"
  unfolding update_task_def
proof (rule eff_triple_bind[OF at_get_task], goal_cases)
  case (1 entry)
  show ?case
  proof (cases entry)
    case (Running_Task rt)
    have kept: "running_task_info rt' = running_task_info rt \<and> reports (running_task_info rt') r"
      if "running_task_update (dp_env D) device data (rt, w) = (r, rt', w')" for w r rt' w'
      using any_task.update_keeps[OF that] by simp
    show ?thesis
      unfolding Running_Task task.simps
      by (intro at_bind same_intros) (auto intro!: at_fail eff_triple_bind[OF at_run_cached]
          eff_triple_ex eff_triple_if same_intros apply_round_update_evolves dest: kept)
  qed (auto intro!: at_fail)
qed

lemma at_run_local:
  "eff_triple (at s0 task_id t) (run_local rt f)
    (\<lambda>x s. (\<exists>w w'. f (rt, w) = (Inr (fst x), snd x, w')) \<and> at s0 task_id t s) (tasks_evolve s0)"
proof (rule eff_tripleI)
  fix s x s' assume "at s0 task_id t s" "run_local rt f s = (Inr x, s')"
  moreover from this have "at s0 task_id t s'"
    by (rule eff_triple_Inr[OF at_same[OF same_run_local]])
  moreover obtain r rt' w' where "f (rt, ss_world s) = (r, rt', w')" by (metis prod_cases3)
  ultimately have "f (rt, ss_world s) = (Inr (fst x), snd x, w')" "at s0 task_id t s'"
    by (auto simp: run_local_def res_bind_Inr_iff)
  then show "(\<exists>w w'. f (rt, w) = (Inr (fst x), snd x, w')) \<and> at s0 task_id t s'" by blast
qed (rule eff_triple_Inl[OF at_same[OF same_run_local]])

lemma at_lift:
  "eff_triple (at s0 task_id t) (eff_lift r) (\<lambda>x s. r = Inr x \<and> at s0 task_id t s) (tasks_evolve s0)"
  by (intro eff_triple_pure) (auto dest: at_evolves)

lemma apply_start_update_evolves:
  assumes "ti_id (running_task_info rt) = ti_id (vt_task_info v)" "start_report (running_task_info rt) (Inr update)"
  shows "eff_triple (at s0 task_id (Voting_Task v)) (apply_start_update D task_id update rt)
    (\<lambda>_. tasks_evolve s0) (tasks_evolve s0)"
  using assms
  by (cases update) (auto simp: apply_start_update_def start_report_def intro!: at_fail at_repo
      at_put_send at_fail_task evolves_stepI intro: phase_step.intros)

lemma start_accepted_evolves:
  "eff_triple (at s0 task_id (Voting_Task v)) (start_accepted_task D task_id v)
    (\<lambda>_. tasks_evolve s0) (tasks_evolve s0)"
  unfolding start_accepted_task_def
proof (rule at_bind[OF same_choose], rule eff_triple_bind[OF at_lift], rule eff_triple_if,
    rule eff_triple_bind[OF at_run_local], rule eff_triple_if)
  fix active rt x
  assume c: "create_running_task (vt_running_task_context v) v active = Inr rt"
    and "\<exists>w w'. running_task_initialize (dp_env D) (rt, w) = (Inr (fst x), snd x, w')"
  then obtain w w' where i: "running_task_initialize (dp_env D) (rt, w) = (Inr (fst x), snd x, w')"
    by blast
  show "eff_triple (at s0 task_id (Voting_Task v)) (case x of (update, rt) \<Rightarrow> apply_start_update D task_id update rt)
      (\<lambda>_. tasks_evolve s0) (tasks_evolve s0)"
    using initialize_reports[OF i] create_running_taskD(3)[OF c]
    by (cases x) (auto intro!: apply_start_update_evolves)
qed

lemma decide_task_evolves: "lets_evolve s0 (decide_task D task_id device_id accept)"
  unfolding decide_task_def
proof (rule eff_triple_bind[OF at_get_task], goal_cases)
  case (1 entry)
  show ?case
  proof (cases entry)
    case (Voting_Task task)
    obtain r v where d: "decide task device_id accept = (r, v)" by fastforce
    have v: "vt_task_info v = vt_task_info task" using decide_frame[OF d] by simp
    have ev: "evolves (Voting_Task task) (Voting_Task v)" using v by (simp add: evolves_def)
    have decl: "dt_task_info x = vt_task_info v" if "r = Inr (Decision_Declined x)" for x
      using that d v by (auto simp: decide_def Let_def split: option.splits prod.splits if_splits)
    have step: "eff_triple (at s0 task_id (Voting_Task v)) (apply_decision D task_id v u)
        (\<lambda>_. tasks_evolve s0) (tasks_evolve s0)" if "r = Inr u" for u
      using decl that by (cases u) (auto simp: apply_decision_def intro!: at_send at_repo
          at_put_send start_accepted_evolves evolves_stepI intro: phase_step.intros)
    show ?thesis
      unfolding Voting_Task task.simps d prod.case
      by (intro at_bind same_intros eff_triple_bind[OF at_put[OF ev]] eff_triple_bind[OF at_lift]
          eff_triple_if step)
  qed (auto intro!: at_fail)
qed

lemma acknowledge_task_evolves: "lets_evolve s0 (acknowledge_task D task_id device)"
  unfolding acknowledge_task_def
proof (rule eff_triple_bind[OF at_get_task], goal_cases)
  case (1 entry)
  show ?case
  proof (cases entry)
    case (Finished_Task t)
    have "evolves (Finished_Task t) (Finished_Task (acknowledge t device))"
      by (auto simp: evolves_def acknowledge_def)
    then show ?thesis
      unfolding Finished_Task task.simps
      by (intro eff_triple_bind[OF at_put] at_weaken[OF at_same] same_intros)
  qed (auto intro!: at_fail)
qed

lemma apply_restart_update_evolves:
  assumes "start_report (running_task_info rt) (Inr update)"
  shows "eff_triple (at s0 entry_id (Running_Task rt)) (apply_restart_update D entry_id task_id update)
    (\<lambda>_. tasks_evolve s0) (tasks_evolve s0)"
  using assms
  by (cases update) (auto simp: apply_restart_update_def start_report_def intro!: at_fail at_repo
      at_send at_put_send evolves_stepI intro: phase_step.intros)

lemma restart_task_evolves: "lets_evolve s0 (restart_task D entry_id)"
  unfolding restart_task_def
proof (rule eff_triple_bind[OF at_get_task], goal_cases)
  case (1 entry)
  show ?case
  proof (cases entry)
    case (Running_Task rt)
    show ?thesis
      unfolding Running_Task task.simps Let_def
      by (intro at_bind same_intros eff_triple_bind[OF at_run_cached])
        (auto intro!: eff_triple_ex eff_triple_if apply_restart_update_evolves dest: restart_reports)
  qed (auto intro!: at_fail)
qed

lemma restart_all_evolves: "lets_evolve s0 (restart_all D ids)"
  by (induction ids) (auto intro!: eff_triple_pure evolve_bind restart_task_evolves)

lemma restart_stale_tasks_evolves: "lets_evolve s0 (restart_stale_tasks D)"
  unfolding restart_stale_tasks_def by (intro evolve_bind evolve_same restart_all_evolves same_intros)

end
