(* ===== verification/Server_Runs.thy ===== *)
theory Server_Runs
  imports Server_Tasks
begin

text \<open>
  What every operation of the server lets happen to the cached tasks, and the guarantees of single operations that
  rest on several components.
\<close>

section \<open>Fresh identifiers\<close>

text \<open>The next random identifier is one that no cached task has.\<close>

definition fresh_uuid :: "('r, 'tx) deps \<Rightarrow> ('r, 'tx) server_state \<Rightarrow> bool" where
  "fresh_uuid D s = (cs_task_cache s (new_uuid (dp_env D) (w_calls (ss_world s))) = None)"

section \<open>Every operation lets tasks evolve\<close>

lemma kept_lets_evolve: "eff_within cache_kept m \<Longrightarrow> lets_evolve s0 m"
  by (intro eff_tripleI) (auto dest: kept_evolve)

lemma kept_get_formatted [kept_intros]: "eff_within cache_kept (get_formatted_list D d ids)"
  by (induction ids) (auto intro!: kept_intros)

lemma kept_readers [kept_intros]:
  "eff_within cache_kept (get_formatted_tasks D)"
  "eff_within cache_kept (get_formatted_active_device_tasks D d)"
  "eff_within cache_kept (get_formatted_task D task_id dev)"
  unfolding get_formatted_tasks_def get_formatted_active_device_tasks_def get_formatted_task_def
  by (intro kept_intros)+

lemma same_last_activations [same_intros]: "eff_within cache_same (last_activations D ds)"
  by (induction D ds rule: last_activations.induct) (auto intro!: same_intros)

lemma same_devices [same_intros]:
  "eff_within cache_same (add_device D i n k c)" "eff_within cache_same (get_devices D)"
  "eff_within cache_same (activate_device D d)" "eff_within cache_same (add_subscriber d tx)"
  "eff_within cache_same (remove_subscriber d)"
  unfolding add_device_def get_devices_def activate_device_def add_subscriber_def remove_subscriber_def
  by (intro same_intros same_modify; simp)+

text \<open>Adding a task whose identifier is not in the cache keeps every cached task.\<close>

definition new_at :: "('r, 'm) task_store_scheme \<Rightarrow> uuid \<Rightarrow> ('r, 'm) task_store_scheme \<Rightarrow> bool" where
  "new_at s0 task_id s = (cache_kept s0 s \<and> cs_task_cache s task_id = None)"

abbreviation keeps_cache :: "('r, 'm) task_store_scheme \<Rightarrow> (('r, 'm) task_store_scheme, 'a) eff \<Rightarrow> bool" where
  "keeps_cache s0 m \<equiv> eff_triple (cache_kept s0) m (\<lambda>_. cache_kept s0) (cache_kept s0)"

lemma kept_triple: "eff_within cache_kept m \<Longrightarrow> keeps_cache s0 m"
  by (intro eff_tripleI) (auto dest!: eff_withinD intro: transpD[OF cache_kept_order(2)])

lemma kept_same: "eff_within cache_same m \<Longrightarrow> eff_within cache_kept m"
  by (simp add: eff_within_def cache_same_def cache_kept_def)

lemma new_same:
  "eff_within cache_same m \<Longrightarrow> eff_triple (new_at s0 i) m (\<lambda>_. new_at s0 i) (cache_kept s0)"
  by (intro eff_tripleI) (auto simp: new_at_def cache_same_def cache_kept_def dest!: eff_withinD)

lemma new_put: "eff_triple (new_at s0 i) (put_task i t) (\<lambda>_. cache_kept s0) F"
  unfolding put_task_def
  by (intro eff_triple_modify) (force simp: new_at_def cache_kept_def map_le_def dom_def)

lemma add_task_keeps:
  "eff_triple (new_at s0 (ti_id (vt_task_info task))) (add_task D task) (\<lambda>_. cache_kept s0) (cache_kept s0)"
proof -
  have "eff_triple (new_at s0 (ti_id (vt_task_info task))) (persist_task (dp_repo D) task)
      (\<lambda>_. cache_kept s0) (cache_kept s0)"
    unfolding persist_task_def Let_def persist_group_task_def persist_threshold_task_def
    by (intro eff_triple_bind[OF new_same] eff_triple_bind[OF new_put] eff_triple_pure)
      (auto intro!: same_intros split: running_task_context.splits)
  then show ?thesis
    unfolding add_task_def Let_def
    by (rule eff_triple_bind) (intro kept_triple kept_intros kept_same[OF same_send_updates])
qed

text \<open>The cached tasks are kept and the next identifier is fresh.\<close>

definition fresh_from :: "('r, 'tx) deps \<Rightarrow> ('r, 'tx) server_state \<Rightarrow> ('r, 'tx) server_state \<Rightarrow> bool" where
  "fresh_from D s0 s = (cache_kept s0 s \<and> fresh_uuid D s)"

lemma fresh_call_repo:
  "eff_triple (fresh_from D s0) (call_repo f) (\<lambda>_. fresh_from D s0) (cache_kept s0)"
  by (intro eff_tripleI)
    (auto simp: fresh_from_def fresh_uuid_def cache_kept_def call_repo_def split: prod.splits)

lemma fresh_new_uuid:
  "eff_triple (fresh_from D s0) (env_call (new_uuid (dp_env D))) (\<lambda>i. new_at s0 i) (cache_kept s0)"
  by (intro eff_tripleI)
    (auto simp: fresh_from_def fresh_uuid_def env_call_def next_call_def new_at_def cache_kept_def)

lemma fresh_fail: "eff_triple (fresh_from D s0) (eff_fail e) Q (cache_kept s0)"
  by (intro eff_triple_pure) (simp add: fresh_from_def)

lemma fresh_gets: "eff_triple (fresh_from D s0) (eff_gets g) (\<lambda>_. fresh_from D s0) (cache_kept s0)"
  by (intro eff_triple_pure)

lemma fresh_add_task:
  assumes "\<And>i. ti_id (vt_task_info (v i)) = i"
  shows "eff_triple (fresh_from D s0) (eff_bind (env_call (new_uuid (dp_env D))) (\<lambda>i. add_task D (v i)))
    (\<lambda>_. cache_kept s0) (cache_kept s0)"
  using add_task_keeps[of s0 "v _" D] assms by (intro eff_triple_bind[OF fresh_new_uuid]) metis

lemma add_tasks_keep:
  "eff_triple (fresh_from D s0) (add_group_task D n ds th p k nt) (\<lambda>_. cache_kept s0) (cache_kept s0)"
  "eff_triple (fresh_from D s0) (add_sign_task D g n d) (\<lambda>_. cache_kept s0) (cache_kept s0)"
  "eff_triple (fresh_from D s0) (add_decrypt_task D g n d ty c) (\<lambda>_. cache_kept s0) (cache_kept s0)"
  unfolding add_group_task_def add_sign_task_def add_decrypt_task_def Let_def
  by (auto intro!: fresh_fail eff_triple_bind[OF fresh_gets] eff_triple_bind[OF fresh_call_repo]
      fresh_add_task split: option.splits key_type.splits)

lemma additions_keep:
  assumes "fresh_uuid D s"
  shows "cache_kept s (snd (add_group_task D n ds th p k nt s))" "cache_kept s (snd (add_sign_task D g n d s))"
    "cache_kept s (snd (add_decrypt_task D g n d ty c s))"
proof -
  have f: "fresh_from D s s" using assms by (simp add: fresh_from_def cache_kept_def)
  show "cache_kept s (snd (add_group_task D n ds th p k nt s))" "cache_kept s (snd (add_sign_task D g n d s))"
    "cache_kept s (snd (add_decrypt_task D g n d ty c s))"
    using add_tasks_keep[THEN eff_triple_snd, OF f] by blast+
qed

lemma lets_evolveD: "lets_evolve s m \<Longrightarrow> tasks_evolve s (snd (m s))"
  by (rule eff_triple_snd[where P = "tasks_evolve s"]) simp_all

section \<open>The phase a decision leads to\<close>

abbreviation holds :: "uuid \<Rightarrow> task \<Rightarrow> ('r, 'm) task_store_scheme \<Rightarrow> bool" where
  "holds task_id t s \<equiv> cs_task_cache s task_id = Some t"

abbreviation any_failure :: "'s \<Rightarrow> bool" where
  "any_failure \<equiv> \<lambda>_. True"

lemma holds_same:
  "eff_within cache_same m \<Longrightarrow> eff_triple (holds i t) m (\<lambda>_. holds i t) any_failure"
  by (intro eff_tripleI) (auto simp: cache_same_def dest!: eff_withinD)

lemmas holds_bind = eff_triple_bind[OF holds_same]

lemma holds_put: "eff_triple P (put_task i t) (\<lambda>_. holds i t) any_failure"
  unfolding put_task_def by (intro eff_triple_modify) simp

lemma holds_put_send:
  "eff_triple P (eff_bind (put_task i t) (\<lambda>_. send_updates D task)) (\<lambda>_. holds i t) any_failure"
  by (intro eff_triple_bind[OF holds_put] holds_same same_intros)

definition in_phase :: "uuid \<Rightarrow> phase set \<Rightarrow> ('r, 'm) task_store_scheme \<Rightarrow> bool" where
  "in_phase i ps s = (\<exists>t. holds i t s \<and> phase_of t \<in> ps)"

lemma in_phaseI: "eff_triple P m (\<lambda>_. holds i t) F \<Longrightarrow> phase_of t \<in> ps \<Longrightarrow> eff_triple P m (\<lambda>_. in_phase i ps) F"
  by (erule eff_triple_post) (auto simp: in_phase_def)

lemma start_accepted_phase:
  "eff_triple (holds i t) (start_accepted_task D i v) (\<lambda>_. in_phase i {Ph_Running, Ph_Failed}) any_failure"
proof -
  have "eff_triple (holds i t) (apply_start_update D i update rt) (\<lambda>_. in_phase i {Ph_Running, Ph_Failed}) any_failure"
    for update rt
    by (cases update) (auto simp: apply_start_update_def fail_task_def intro!: eff_triple_pure holds_bind
        in_phaseI[OF holds_put_send] same_intros)
  then show ?thesis
    unfolding start_accepted_task_def
    by (intro holds_bind same_intros) (auto intro!: holds_bind same_intros)
qed

lemma decide_task_phase:
  assumes g: "get_task (dp_env D) (dp_repo D) i s = (Inr (Voting_Task v), s1)"
    and d: "decide v device_id accept = (Inr u, v')"
    and r: "decide_task D i device_id accept s = (Inr (), s')"
  shows "case u of Accepted \<Rightarrow> in_phase i {Ph_Running, Ph_Failed} s'
    | Decision_Declined x \<Rightarrow> holds i (Declined_Task x) s' | Undecided \<Rightarrow> holds i (Voting_Task v') s'"
    (is "?post s'")
proof -
  have lift: "eff_bind (eff_lift (Inr u)) f = f u" for f :: "_ \<Rightarrow> ('a, 'b, unit) handler"
    by (rule ext) (simp add: eff_bind_def eff_lift_def)
  have ap: "eff_triple (holds i (Voting_Task v')) (apply_decision D i v' u) (\<lambda>_. ?post) any_failure"
    by (cases u) (auto simp: apply_decision_def intro!: holds_bind same_intros start_accepted_phase
        holds_put_send holds_same)
  have tr: "eff_triple (holds i (Voting_Task v)) (eff_bind (set_task_last_update D i) (\<lambda>_.
      eff_bind (put_task i (Voting_Task v')) (\<lambda>_. eff_bind (eff_lift (Inr u)) (\<lambda>decision_update.
      eff_bind (call_repo (repo_set_task_decision (dp_repo D) i device_id accept)) (\<lambda>_.
        apply_decision D i v' decision_update))))) (\<lambda>_. ?post) any_failure"
    unfolding lift
    by (rule holds_bind[OF same_last_update(1)], rule eff_triple_bind[OF holds_put],
        rule holds_bind[OF same_call_repo ap])
  have run: "(eff_bind (set_task_last_update D i) (\<lambda>_.
      eff_bind (put_task i (Voting_Task v')) (\<lambda>_. eff_bind (eff_lift (Inr u)) (\<lambda>decision_update.
      eff_bind (call_repo (repo_set_task_decision (dp_repo D) i device_id accept)) (\<lambda>_.
        apply_decision D i v' decision_update))))) s1 = (Inr (), s')"
    using r unfolding decide_task_def by (subst (asm) eff_bind_def) (simp add: g d)
  show ?thesis by (rule eff_triple_Inr[OF tr get_task_cached[OF g] run])
qed

section \<open>Properties\<close>

text \<open>C21. What a vote leads to. When a participant's decision on a voting task is taken without an error,
  the task is afterwards running or failed exactly when the accepting shares reach the threshold, declined with the
  true counts exactly when the threshold has become unreachable, and otherwise still voting with
  the vote counted.\<close>

theorem decision_takes_effect:
  assumes "get_task (dp_env D) (dp_repo D) task_id s = (Inr (Voting_Task v), s1)" "votes_ok v"
    and "device_id \<in> part_id ` set (ti_participants (vt_task_info v))"
    and "decide_task D task_id device_id accept s = (Inr (), s')"
    and v': "v' = snd (decide v device_id accept)"
  shows "\<exists>t. cs_task_cache s' task_id = Some t \<and>
    (if unat (vt_accept_threshold v) \<le> shares_for v' then phase_of t \<in> {Ph_Running, Ph_Failed}
     else if share_sum (ti_participants (vt_task_info v)) - shares_against v' < unat (vt_accept_threshold v)
     then \<exists>x. t = Declined_Task x \<and> unat (dt_accepts x) = shares_for v' \<and> unat (dt_rejects x) = shares_against v'
     else t = Voting_Task v')"
proof -
  have d: "decide v device_id accept = (fst (decide v device_id accept), v')" by (simp add: v')
  obtain a b where ab: "unat a = shares_for v'" "unat b = shares_against v'"
    "fst (decide v device_id accept) = Inr (if a \<ge> vt_accept_threshold v' then Accepted
       else if b \<ge> reject_threshold v' then
         Decision_Declined \<lparr>dt_task_info = vt_task_info v', dt_accepts = a, dt_rejects = b\<rparr>
       else Undecided)"
    using decide_classifies[OF assms(2,3) d] .
  note ok = votes_ok_decide[OF assms(2) d] and f = decide_frame[OF d]
  show ?thesis
    using decide_task_phase[OF assms(1) d[unfolded ab(3)] assms(4)] f
      thresholds_as_shares[OF ok ab(1,2)] ab(1,2)
    by (auto simp: in_phase_def split: if_splits)
qed

theorem decision_takes_effect_witness:
  "\<exists>x s'. decide_task sample_deps (replicate 16 1) [7] False (sample_server (Voting_Task sample_voting)) = (Inr (), s') \<and>
    cs_task_cache s' (replicate 16 1) = Some (Declined_Task x) \<and> unat (dt_rejects x) = 4"
proof -
  let ?s = "sample_server (Voting_Task sample_voting)" and ?i = "replicate 16 1 :: uuid"
  let ?v = "snd (decide sample_voting [7] False)"
  have g: "get_task (dp_env sample_deps) (dp_repo sample_deps) ?i ?s = (Inr (Voting_Task sample_voting), ?s)"
    by (simp add: get_task_def ensure_cached_tasks_def hydrate_tasks_def eff_bind_def eff_defs
        call_repo_def sample_deps_def sample_repo_def sample_server_def)
  have counts: "shares_for ?v = 0" "shares_against ?v = 4"
    "share_sum (ti_participants (vt_task_info sample_voting)) = 5" "unat (vt_accept_threshold sample_voting) = 2"
    by (simp_all add: decide_def sample_voting_defs share_sum_def shares_against_def shares_for_def device_accepted_def
        device_rejected_def hm_insert_def accepts_rejects_def unsigned_abs_def Let_def)
  have p: "[7] \<in> part_id ` set (ti_participants (vt_task_info sample_voting))"
    by (simp add: sample_voting_defs)
  obtain x v where d: "decide sample_voting [7] False = (Inr (Decision_Declined x), v)"
    using decide_classifies[OF sample_votes_ok p, of False]
    by (auto simp: decide_def sample_voting_defs accepts_rejects_def unsigned_abs_def reject_threshold_def
        total_shares_def hm_insert_def Let_def)
  have "fst (decide_task sample_deps ?i [7] False ?s) = Inr ()"
    unfolding decide_task_def
    by (subst eff_bind_def) (simp add: g, simp add: d apply_decision_def eff_bind_def set_task_last_update_def
      get_timestamp_def env_call_def next_call_def eff_modify_def put_task_def eff_lift_def call_repo_def
      sample_deps_def sample_repo_def send_updates_def split: prod.splits)
  then obtain s' where r: "decide_task sample_deps ?i [7] False ?s = (Inr (), s')"
    by (metis prod.collapse)
  show ?thesis
    using decision_takes_effect[OF g sample_votes_ok p r refl] r counts by auto
qed

text \<open>C32. Requests that do not fit the task's phase are refused and leave the tasks alone: an update of a
  task that is not running, a decision on one that is not being voted on and an acknowledgement of one that is
  not finished each get their error, with the state as reading the task left it. A message of an earlier
  attempt gets the error for stale updates: the running task does not receive it, only the time
  of the task's last update changes.\<close>

theorem requests_out_of_phase_are_refused:
  assumes "get_task (dp_env D) (dp_repo D) task_id s = (Inr task, s1)"
  shows "(phase_of task \<noteq> Ph_Running \<longrightarrow>
      update_task D task_id device data attempt s = (Inl (protocol_error ''Cannot update non-running task''), s1)) \<and>
    (phase_of task \<noteq> Ph_Voting \<longrightarrow>
      decide_task D task_id device accept s = (Inl (protocol_error ''Cannot decide non-voting task''), s1)) \<and>
    (phase_of task \<noteq> Ph_Finished \<longrightarrow>
      acknowledge_task D task_id device s = (Inl (protocol_error ''Cannot acknowledge unfinished task''), s1)) \<and>
    (\<forall>rt. task = Running_Task rt \<and> attempt \<noteq> ti_attempts (running_task_info rt) \<longrightarrow>
      (\<exists>s2. update_task D task_id device data attempt s = (Inl (protocol_error ''Stale update''), s2) \<and>
        cs_task_cache s2 = cs_task_cache s1 \<and> cs_repo s2 = cs_repo s1))"
  by (cases task)
    (simp_all add: update_task_def decide_task_def acknowledge_task_def eff_bind_def assms eff_fail_def
      set_task_last_update_def get_timestamp_def env_call_def next_call_def eff_modify_def)

theorem requests_out_of_phase_are_refused_witness:
  "fst (update_task sample_deps (replicate 16 1) [7] [] 1 (sample_server (Running_Task sample_running))) =
     Inl (protocol_error ''Stale update'') \<and>
   fst (decide_task sample_deps (replicate 16 1) [7] True (sample_server (Running_Task sample_running))) =
     Inl (protocol_error ''Cannot decide non-voting task'')"
proof -
  let ?s = "sample_server (Running_Task sample_running)" and ?i = "replicate 16 1 :: uuid"
  have g: "get_task (dp_env sample_deps) (dp_repo sample_deps) ?i ?s = (Inr (Running_Task sample_running), ?s)"
    by (simp add: get_task_def ensure_cached_tasks_def hydrate_tasks_def eff_bind_def eff_defs
        call_repo_def sample_deps_def sample_repo_def sample_server_def)
  have "ti_attempts (running_task_info sample_running) = 0"
    by (simp add: sample_running_def sample_task_info_def)
  then show ?thesis
    using requests_out_of_phase_are_refused[OF g, of "[7]" "[]" 1 True] by auto
qed

end
