(* ===== verification/Grpc.thy ===== *)
theory Grpc
  imports Server_Runs
begin

text \<open>
  The gRPC interface of \<^verbatim>\<open>src/interfaces/grpc.rs\<close>: authentication, the issuing of certificates and the
  fourteen request handlers. Log output is left out, and with it the argument of a log request.
\<close>

section \<open>What the interface relies on\<close>

text \<open>
  A certificate signing request as OpenSSL parses it; a call that fails is \<^term>\<open>None\<close>. A key is
  written as bytes.
\<close>

record csr =
  csr_public_key :: "bytes option"
  csr_verify :: "bytes \<Rightarrow> bool option"
  csr_extensions :: "bytes list option"

text \<open>The certificate that is built: everything \<^verbatim>\<open>issue_certificate\<close> sets before it is signed.\<close>

datatype key_usage = Non_Repudiation | Digital_Signature | Key_Encipherment | Key_Agreement

datatype extension =
    Key_Usage bool "key_usage list"
  | Extended_Key_Usage_Client_Auth
  | Basic_Constraints bool
  | Subject_Key_Identifier
  | Authority_Key_Identifier bool bool
  | Csr_Extension bytes

record certificate_data =
  cd_version :: nat
  cd_serial_number :: bytes
  cd_not_before_days :: nat
  cd_not_after_days :: nat
  cd_issuer :: bytes
  cd_public_key :: bytes
  cd_common_name :: string
  cd_extensions :: "extension list"

text \<open>
  The libraries: OpenSSL, SHA-256, JSON web tokens with the server's secret and hexadecimal digits, the
  protobuf decoder and the channels. A token is decoded to the subject it was issued for, or not at all.
\<close>

record 'tx grpc_env =
  csr_from_der :: "bytes \<Rightarrow> csr option"
  key_to_der :: "bytes \<Rightarrow> bytes option"
  ca_issuer_name :: bytes
  random_serial :: "nat \<Rightarrow> bytes"
  sign_certificate :: "certificate_data \<Rightarrow> bytes option"
  sha256 :: "bytes \<Rightarrow> bytes"
  hex_string :: "bytes \<Rightarrow> string"
  hex_bytes :: "string \<Rightarrow> bytes option"
  jwt_encode :: "string \<Rightarrow> u64 \<Rightarrow> string + string"
  jwt_decode :: "string \<Rightarrow> string option"
  decode_client_message :: "bytes \<Rightarrow> client_message option"
  mpsc_channel :: "nat \<Rightarrow> 'tx"
  cargo_pkg_version :: "string option"

section \<open>Outcomes of a request\<close>

text \<open>A handler answers, returns a status, or panics; what it changed before stays.\<close>

datatype rpc_failure = Status status | Handler_Panic

type_synonym ('r, 'tx, 'a) rpc = "('r, 'tx) server_state \<Rightarrow> (rpc_failure + 'a) \<times> ('r, 'tx) server_state"

definition rpc_return :: "'a \<Rightarrow> ('r, 'tx, 'a) rpc" where
  "rpc_return x = (\<lambda>s. (Inr x, s))"

definition rpc_fail :: "rpc_failure \<Rightarrow> ('r, 'tx, 'a) rpc" where
  "rpc_fail e = (\<lambda>s. (Inl e, s))"

definition rpc_bind :: "('r, 'tx, 'a) rpc \<Rightarrow> ('a \<Rightarrow> ('r, 'tx, 'b) rpc) \<Rightarrow> ('r, 'tx, 'b) rpc" where
  "rpc_bind m f = (\<lambda>s. case m s of (Inl e, s') \<Rightarrow> (Inl e, s') | (Inr x, s') \<Rightarrow> f x s')"

text \<open>A call of the server, its error as a value; and with the error converted to a status by \<^verbatim>\<open>?\<close>.\<close>

definition rpc_try :: "('r, 'tx, 'a) handler \<Rightarrow> ('r, 'tx, error + 'a) rpc" where
  "rpc_try f = (\<lambda>s. case f s of
     (Inl Panic, s') \<Rightarrow> (Inl Handler_Panic, s')
   | (Inl (Err e), s') \<Rightarrow> (Inr (Inl e), s')
   | (Inr x, s') \<Rightarrow> (Inr (Inr x), s'))"

definition rpc_call :: "('r, 'tx, 'a) handler \<Rightarrow> ('r, 'tx, 'a) rpc" where
  "rpc_call f = rpc_bind (rpc_try f) (\<lambda>r.
     case r of Inl e \<Rightarrow> rpc_fail (Status (status_of_error e)) | Inr x \<Rightarrow> rpc_return x)"

text \<open>\<^verbatim>\<open>unwrap\<close> and \<^verbatim>\<open>expect\<close>.\<close>

definition rpc_unwrap :: "'a option \<Rightarrow> ('r, 'tx, 'a) rpc" where
  "rpc_unwrap x = (case x of None \<Rightarrow> rpc_fail Handler_Panic | Some y \<Rightarrow> rpc_return y)"

lemmas rpc_defs = rpc_return_def rpc_fail_def rpc_bind_def rpc_try_def rpc_call_def rpc_unwrap_def

section \<open>Authentication\<close>

text \<open>
  What a request says of its sender: the certificates of the TLS connection, and the \<^verbatim>\<open>authorization\<close>
  header with its text, if it has one.
\<close>

record credentials =
  peer_certs :: "bytes list option"
  authorization :: "string option option"

definition cert_to_id :: "'tx grpc_env \<Rightarrow> bytes \<Rightarrow> bytes" where
  "cert_to_id G cert = sha256 G cert"

definition generate_jwt :: "'tx grpc_env \<Rightarrow> ('r, 'tx) deps \<Rightarrow> bytes \<Rightarrow> ('r, 'tx, status + string) rpc" where
  "generate_jwt G D device_id =
     rpc_bind (rpc_call (get_timestamp D)) (\<lambda>iat.
       rpc_return (case jwt_encode G (hex_string G device_id) iat of
           Inl e \<Rightarrow> Inl (Internal (''Failed to generate token: '' @ e))
         | Inr token \<Rightarrow> Inr token))"

definition validate_jwt :: "'tx grpc_env \<Rightarrow> string \<Rightarrow> status + bytes" where
  "validate_jwt G token =
     (case jwt_decode G token of
        None \<Rightarrow> Inl (Unauthenticated ''Invalid authentication token'')
      | Some sub \<Rightarrow> (case hex_bytes G sub of
            None \<Rightarrow> Inl (Unauthenticated ''Invalid device ID in token'')
          | Some device_id \<Rightarrow> Inr device_id))"

definition bearer_token :: "string \<Rightarrow> string" where
  "bearer_token auth_str = (if take 7 auth_str = ''Bearer '' then drop 7 auth_str else auth_str)"

definition token_device_id :: "'tx grpc_env \<Rightarrow> credentials \<Rightarrow> bytes option" where
  "token_device_id G c =
     (case authorization c of
        Some (Some auth_str) \<Rightarrow>
          (case validate_jwt G (bearer_token auth_str) of Inr device_id \<Rightarrow> Some device_id | Inl _ \<Rightarrow> None)
      | _ \<Rightarrow> None)"

definition extract_device_id :: "'tx grpc_env \<Rightarrow> credentials \<Rightarrow> bytes option" where
  "extract_device_id G c =
     (case peer_certs c of
        Some (cert # _) \<Rightarrow> Some (cert_to_id G cert)
      | _ \<Rightarrow> token_device_id G c)"

definition check_client_auth :: "'tx grpc_env \<Rightarrow> credentials \<Rightarrow> bool \<Rightarrow> ('r, 'tx, unit) rpc" where
  "check_client_auth G c required = (\<lambda>s.
     case extract_device_id G c of
       Some device_id \<Rightarrow>
         if \<not> device_exists s device_id then rpc_fail (Status (Unauthenticated ''Unknown device'')) s
         else rpc_return () s
     | None \<Rightarrow>
         if required then rpc_fail (Status (Unauthenticated ''Authentication required'')) s
         else rpc_return () s)"

text \<open>The check with an identity required, and the identity it leaves.\<close>

definition require_device :: "'tx grpc_env \<Rightarrow> credentials \<Rightarrow> ('r, 'tx, bytes) rpc" where
  "require_device G c =
     rpc_bind (check_client_auth G c True) (\<lambda>_. rpc_unwrap (extract_device_id G c))"

section \<open>Certificates\<close>

definition grpc_issue_certificate ::
    "'tx grpc_env \<Rightarrow> string \<Rightarrow> bytes \<Rightarrow> ('r, 'tx, string + bytes) rpc" where
  "grpc_issue_certificate G device_name csr_der =
     rpc_bind (rpc_unwrap (csr_from_der G csr_der)) (\<lambda>csr.
     rpc_bind (rpc_unwrap (csr_public_key csr)) (\<lambda>public_key.
     rpc_bind (rpc_unwrap (csr_verify csr public_key)) (\<lambda>verified.
       if \<not> verified then rpc_return (Inl ''CSR does not contain a valid signature.'')
       else
         rpc_bind (rpc_unwrap (key_to_der G public_key)) (\<lambda>public_key.
         rpc_bind (rpc_call (env_call (random_serial G))) (\<lambda>sn.
         rpc_bind (rpc_unwrap (csr_extensions csr)) (\<lambda>extensions.
         rpc_bind (rpc_unwrap (if extensions = [] then None else Some (last extensions))) (\<lambda>pub_key_ext.
         rpc_bind (rpc_unwrap (sign_certificate G \<lparr>cd_version = 2, cd_serial_number = sn, cd_not_before_days = 0,
             cd_not_after_days = 365 * 4 + 1, cd_issuer = ca_issuer_name G, cd_public_key = public_key,
             cd_common_name = device_name,
             cd_extensions = [Key_Usage True [Non_Repudiation, Digital_Signature, Key_Encipherment, Key_Agreement],
               Extended_Key_Usage_Client_Auth, Basic_Constraints True, Subject_Key_Identifier,
               Authority_Key_Identifier False False, Csr_Extension pub_key_ext]\<rparr>)) (\<lambda>certificate.
           rpc_return (Inr certificate)))))))))"

section \<open>Messages\<close>

record proto_device =
  pd_identifier :: bytes
  pd_name :: string
  pd_kind :: i32
  pd_certificate :: bytes
  pd_last_active :: u64

datatype 'tx rpc_response =
    Server_Info string
  | Registration_Response bytes bytes "string option"
  | Task_Response proto_task
  | Tasks_Response "proto_task list"
  | Groups_Response "proto_group list"
  | Devices_Response "proto_device list"
  | Resp string
  | Subscribe_Updates_Stream 'tx

definition uuid_from_slice :: "bytes \<Rightarrow> uuid option" where
  "uuid_from_slice b = (if length b = 16 then Some b else None)"

definition protocol_try_from :: "i32 \<Rightarrow> proto_protocol_type option" where
  "protocol_try_from n = find (\<lambda>p. proto_protocol_number p = n) [P_Gg18, P_Elgamal, P_Frost, P_Musig2]"

definition key_try_from :: "i32 \<Rightarrow> proto_key_type option" where
  "key_try_from n = find (\<lambda>k. proto_key_number k = n) [PK_SignPdf, PK_SignChallenge, PK_Decrypt]"

section \<open>Handlers\<close>

definition rpc_get_server_info :: "'tx grpc_env \<Rightarrow> credentials \<Rightarrow> ('r, 'tx, 'tx rpc_response) rpc" where
  "rpc_get_server_info G c =
     rpc_bind (check_client_auth G c False) (\<lambda>_.
       rpc_return (Server_Info (case cargo_pkg_version G of None \<Rightarrow> ''unknown'' | Some version \<Rightarrow> version)))"

definition rpc_register ::
    "'tx grpc_env \<Rightarrow> ('r, 'tx) deps \<Rightarrow> credentials \<Rightarrow> string \<Rightarrow> bytes \<Rightarrow> ('r, 'tx, 'tx rpc_response) rpc" where
  "rpc_register G D c name csr =
     rpc_bind (check_client_auth G c False) (\<lambda>_.
     rpc_bind (grpc_issue_certificate G name csr) (\<lambda>issued.
       case issued of
         Inl _ \<Rightarrow> rpc_fail (Status (FailedPrecondition ''Request failed: certificate was not created''))
       | Inr certificate \<Rightarrow>
           let identifier = cert_to_id G certificate
           in rpc_bind (rpc_try (add_device D identifier name User certificate)) (\<lambda>added.
              case added of
                Inl _ \<Rightarrow> rpc_fail (Status (FailedPrecondition ''Request failed: device was not added''))
              | Inr _ \<Rightarrow> rpc_bind (generate_jwt G D identifier) (\<lambda>token.
                  rpc_return (Registration_Response identifier certificate
                    (case token of Inl _ \<Rightarrow> None | Inr auth_token \<Rightarrow> Some auth_token))))))"

definition rpc_sign ::
    "'tx grpc_env \<Rightarrow> ('r, 'tx) deps \<Rightarrow> credentials \<Rightarrow> bytes \<Rightarrow> string \<Rightarrow> bytes \<Rightarrow> ('r, 'tx, 'tx rpc_response) rpc" where
  "rpc_sign G D c group_id name data =
     rpc_bind (check_client_auth G c False) (\<lambda>_.
     rpc_bind (rpc_call (add_sign_task D group_id name data)) (\<lambda>task. rpc_return (Task_Response task)))"

definition rpc_decrypt ::
    "'tx grpc_env \<Rightarrow> ('r, 'tx) deps \<Rightarrow> credentials \<Rightarrow> bytes \<Rightarrow> string \<Rightarrow> bytes \<Rightarrow> string \<Rightarrow>
     ('r, 'tx, 'tx rpc_response) rpc" where
  "rpc_decrypt G D c group_id name data data_type =
     rpc_bind (check_client_auth G c False) (\<lambda>_.
     rpc_bind (rpc_call (add_decrypt_task D group_id name data data_type (extract_device_id G c)))
       (\<lambda>task. rpc_return (Task_Response task)))"

text \<open>Activating the device a request names, if it names one.\<close>

definition activate_named :: "('r, 'tx) deps \<Rightarrow> bytes option \<Rightarrow> ('r, 'tx, unit) rpc" where
  "activate_named D device_id =
     (case device_id of None \<Rightarrow> rpc_return () | Some d \<Rightarrow> rpc_call (activate_device D d))"

definition rpc_get_task ::
    "'tx grpc_env \<Rightarrow> ('r, 'tx) deps \<Rightarrow> credentials \<Rightarrow> bytes \<Rightarrow> bytes option \<Rightarrow> ('r, 'tx, 'tx rpc_response) rpc" where
  "rpc_get_task G D c task_id device_id =
     rpc_bind (check_client_auth G c False) (\<lambda>_.
     rpc_bind (rpc_unwrap (uuid_from_slice task_id)) (\<lambda>task_id.
     rpc_bind (activate_named D device_id) (\<lambda>_.
     rpc_bind (rpc_call (get_formatted_task D task_id device_id)) (\<lambda>task. rpc_return (Task_Response task)))))"

text \<open>Decoding all messages or none.\<close>

fun decode_messages :: "'tx grpc_env \<Rightarrow> bytes list \<Rightarrow> client_message list option" where
  "decode_messages G [] = Some []"
| "decode_messages G (b # bs) =
     (case decode_client_message G b of
        None \<Rightarrow> None
      | Some m \<Rightarrow> map_option (\<lambda>ms. m # ms) (decode_messages G bs))"

definition rpc_update_task ::
    "'tx grpc_env \<Rightarrow> ('r, 'tx) deps \<Rightarrow> credentials \<Rightarrow> bytes \<Rightarrow> bytes list \<Rightarrow> u32 \<Rightarrow> ('r, 'tx, 'tx rpc_response) rpc" where
  "rpc_update_task G D c task data attempt =
     rpc_bind (require_device G c) (\<lambda>device_id.
     rpc_bind (rpc_unwrap (uuid_from_slice task)) (\<lambda>task_id.
       if data = [] then rpc_fail (Status (InvalidArgument ''Data must not be empty''))
       else case decode_messages G data of
           None \<Rightarrow> rpc_fail (Status (InvalidArgument ''Invalid ClientMessage data.''))
         | Some messages \<Rightarrow>
             rpc_bind (rpc_call (activate_device D device_id)) (\<lambda>_.
             rpc_bind (rpc_call (update_task D task_id device_id messages attempt)) (\<lambda>_.
               rpc_return (Resp ''OK'')))))"

definition rpc_get_tasks ::
    "'tx grpc_env \<Rightarrow> ('r, 'tx) deps \<Rightarrow> credentials \<Rightarrow> bytes option \<Rightarrow> ('r, 'tx, 'tx rpc_response) rpc" where
  "rpc_get_tasks G D c device_id =
     rpc_bind (check_client_auth G c False) (\<lambda>_.
     rpc_bind (activate_named D device_id) (\<lambda>_.
     rpc_bind (rpc_call (case device_id of
         Some d \<Rightarrow> get_formatted_active_device_tasks D d
       | None \<Rightarrow> get_formatted_tasks D)) (\<lambda>tasks. rpc_return (Tasks_Response tasks))))"

definition rpc_get_groups ::
    "'tx grpc_env \<Rightarrow> ('r, 'tx) deps \<Rightarrow> credentials \<Rightarrow> bytes option \<Rightarrow> ('r, 'tx, 'tx rpc_response) rpc" where
  "rpc_get_groups G D c device_id =
     rpc_bind (check_client_auth G c False) (\<lambda>_.
     rpc_bind (activate_named D device_id) (\<lambda>_.
     rpc_bind (rpc_call (case device_id of Some d \<Rightarrow> get_device_groups D d | None \<Rightarrow> get_groups D)) (\<lambda>groups.
       rpc_return (Groups_Response (map proto_group_from_model groups)))))"

definition rpc_group ::
    "'tx grpc_env \<Rightarrow> ('r, 'tx) deps \<Rightarrow> credentials \<Rightarrow> string \<Rightarrow> bytes list \<Rightarrow> u32 \<Rightarrow> i32 \<Rightarrow> i32 \<Rightarrow>
     ('r, 'tx, 'tx rpc_response) rpc" where
  "rpc_group G D c name device_ids threshold protocol key_type =
     rpc_bind (check_client_auth G c False) (\<lambda>_.
     rpc_bind (rpc_unwrap (protocol_try_from protocol)) (\<lambda>protocol.
     rpc_bind (rpc_unwrap (key_try_from key_type)) (\<lambda>key_type.
     rpc_bind (rpc_try (add_group_task D name device_ids threshold (protocol_type_of_proto protocol)
         (key_type_of_proto key_type) None)) (\<lambda>added.
       case added of
         Inr task \<Rightarrow> rpc_return (Task_Response task)
       | Inl _ \<Rightarrow> rpc_fail (Status (FailedPrecondition ''Request failed''))))))"

definition proto_device_of :: "device \<times> u64 \<Rightarrow> proto_device" where
  "proto_device_of = (\<lambda>(device, last_active).
     \<lparr>pd_identifier = dev_id device, pd_name = dev_name device,
      pd_kind = proto_device_kind_number (proto_of_device_kind (dev_kind device)),
      pd_certificate = dev_certificate device, pd_last_active = last_active\<rparr>)"

definition rpc_get_devices ::
    "'tx grpc_env \<Rightarrow> ('r, 'tx) deps \<Rightarrow> credentials \<Rightarrow> ('r, 'tx, 'tx rpc_response) rpc" where
  "rpc_get_devices G D c =
     rpc_bind (check_client_auth G c False) (\<lambda>_.
     rpc_bind (rpc_call (get_devices D)) (\<lambda>devices.
       rpc_return (Devices_Response (map proto_device_of devices))))"

definition rpc_log :: "'tx grpc_env \<Rightarrow> ('r, 'tx) deps \<Rightarrow> credentials \<Rightarrow> ('r, 'tx, 'tx rpc_response) rpc" where
  "rpc_log G D c =
     rpc_bind (check_client_auth G c False) (\<lambda>_.
     rpc_bind (activate_named D (extract_device_id G c)) (\<lambda>_. rpc_return (Resp ''OK'')))"

text \<open>The errors of a decision and of an acknowledgement are only logged.\<close>

definition rpc_decide_task ::
    "'tx grpc_env \<Rightarrow> ('r, 'tx) deps \<Rightarrow> credentials \<Rightarrow> bytes \<Rightarrow> bool \<Rightarrow> ('r, 'tx, 'tx rpc_response) rpc" where
  "rpc_decide_task G D c task accept =
     rpc_bind (require_device G c) (\<lambda>device_id.
     rpc_bind (rpc_unwrap (uuid_from_slice task)) (\<lambda>task_id.
     rpc_bind (rpc_call (activate_device D device_id)) (\<lambda>_.
     rpc_bind (rpc_try (decide_task D task_id device_id accept)) (\<lambda>_. rpc_return (Resp ''OK'')))))"

definition rpc_acknowledge_task ::
    "'tx grpc_env \<Rightarrow> ('r, 'tx) deps \<Rightarrow> credentials \<Rightarrow> bytes \<Rightarrow> ('r, 'tx, 'tx rpc_response) rpc" where
  "rpc_acknowledge_task G D c task =
     rpc_bind (require_device G c) (\<lambda>device_id.
     rpc_bind (rpc_call (activate_device D device_id)) (\<lambda>_.
     rpc_bind (rpc_unwrap (uuid_from_slice task)) (\<lambda>task_id.
     rpc_bind (rpc_try (acknowledge_task D task_id device_id)) (\<lambda>_. rpc_return (Resp ''OK'')))))"

definition rpc_subscribe_updates ::
    "'tx grpc_env \<Rightarrow> credentials \<Rightarrow> ('r, 'tx, 'tx rpc_response) rpc" where
  "rpc_subscribe_updates G c =
     rpc_bind (require_device G c) (\<lambda>device_id.
       let tx = mpsc_channel G 8
       in rpc_bind (rpc_call (add_subscriber device_id tx)) (\<lambda>_. rpc_return (Subscribe_Updates_Stream tx)))"

section \<open>The service\<close>

datatype rpc_request =
    Rpc_Get_Server_Info
  | Rpc_Register string bytes
  | Rpc_Sign bytes string bytes
  | Rpc_Decrypt bytes string bytes string
  | Rpc_Get_Task bytes "bytes option"
  | Rpc_Update_Task bytes "bytes list" u32
  | Rpc_Get_Tasks "bytes option"
  | Rpc_Get_Groups "bytes option"
  | Rpc_Group string "bytes list" u32 i32 i32
  | Rpc_Get_Devices
  | Rpc_Log
  | Rpc_Decide_Task bytes bool
  | Rpc_Acknowledge_Task bytes
  | Rpc_Subscribe_Updates

fun meesign_service ::
    "'tx grpc_env \<Rightarrow> ('r, 'tx) deps \<Rightarrow> credentials \<Rightarrow> rpc_request \<Rightarrow> ('r, 'tx, 'tx rpc_response) rpc" where
  "meesign_service G D c Rpc_Get_Server_Info = rpc_get_server_info G c"
| "meesign_service G D c (Rpc_Register name csr) = rpc_register G D c name csr"
| "meesign_service G D c (Rpc_Sign g n d) = rpc_sign G D c g n d"
| "meesign_service G D c (Rpc_Decrypt g n d ty) = rpc_decrypt G D c g n d ty"
| "meesign_service G D c (Rpc_Get_Task i d) = rpc_get_task G D c i d"
| "meesign_service G D c (Rpc_Update_Task i data a) = rpc_update_task G D c i data a"
| "meesign_service G D c (Rpc_Get_Tasks d) = rpc_get_tasks G D c d"
| "meesign_service G D c (Rpc_Get_Groups d) = rpc_get_groups G D c d"
| "meesign_service G D c (Rpc_Group n ds th p k) = rpc_group G D c n ds th p k"
| "meesign_service G D c Rpc_Get_Devices = rpc_get_devices G D c"
| "meesign_service G D c Rpc_Log = rpc_log G D c"
| "meesign_service G D c (Rpc_Decide_Task i a) = rpc_decide_task G D c i a"
| "meesign_service G D c (Rpc_Acknowledge_Task i) = rpc_acknowledge_task G D c i"
| "meesign_service G D c Rpc_Subscribe_Updates = rpc_subscribe_updates G c"

end
