(* ===== verification/Timer.thy ===== *)
theory Timer
  imports Server_Runs
begin

text \<open>
  The timer of \<^verbatim>\<open>src/interfaces/timer.rs\<close>: once a second it restarts the stale tasks and looks after the subscriptions.
\<close>

section \<open>A tick\<close>

definition check_tasks :: "('r, 'tx) deps \<Rightarrow> ('r, 'tx, unit) handler" where
  "check_tasks D = restart_stale_tasks D"

text \<open>The loop over the subscribers: a closed channel is noted, the device of any other counts as active.\<close>

fun scan_subscribers :: "('r, 'tx) deps \<Rightarrow> (bytes \<times> 'tx) list \<Rightarrow> ('r, 'tx, bytes list) handler" where
  "scan_subscribers D [] = eff_return []"
| "scan_subscribers D ((device_id, tx) # rest) =
     (if is_closed (dp_chan D) tx
      then eff_bind (scan_subscribers D rest) (\<lambda>remove. eff_return (device_id # remove))
      else eff_bind (activate_device D device_id) (\<lambda>_. scan_subscribers D rest))"

fun remove_subscribers :: "bytes list \<Rightarrow> ('r, 'tx, unit) handler" where
  "remove_subscribers [] = eff_return ()"
| "remove_subscribers (device_id # rest) = eff_bind (remove_subscriber device_id) (\<lambda>_. remove_subscribers rest)"

definition check_subscribers :: "('r, 'tx) deps \<Rightarrow> ('r, 'tx, unit) handler" where
  "check_subscribers D =
     eff_bind (eff_gets ss_subscribers) (\<lambda>subscribers.
     eff_bind (scan_subscribers D subscribers) remove_subscribers)"

text \<open>
  One round of the loop. The error of \<^verbatim>\<open>check_tasks\<close> is unwrapped, so it is a panic; as \<^verbatim>\<open>main\<close> joins the
  timer with the gRPC server, a panic here ends the process.
\<close>

definition timer_tick :: "('r, 'tx) deps \<Rightarrow> ('r, 'tx, unit) handler" where
  "timer_tick D s =
     (case check_tasks D s of
        (Inl _, s') \<Rightarrow> (Inl Panic, s')
      | (Inr _, s') \<Rightarrow> check_subscribers D s')"

text \<open>\<^verbatim>\<open>run_timer\<close> never returns; its first rounds:\<close>

fun run_timer :: "('r, 'tx) deps \<Rightarrow> nat \<Rightarrow> ('r, 'tx, unit) handler" where
  "run_timer D 0 = eff_return ()"
| "run_timer D (Suc n) = eff_bind (timer_tick D) (\<lambda>_. run_timer D n)"

section \<open>Subscriptions\<close>

text \<open>What a tick does with the state besides the tasks.\<close>

lemma activate_device_state:
  "activate_device D d s = (Inr (), s\<lparr>ss_device_last_activations := (ss_device_last_activations s)
     (d \<mapsto> system_time (dp_env D) (w_calls (ss_world s))), ss_world := snd (next_call (ss_world s))\<rparr>)"
  by (simp add: activate_device_def get_timestamp_def env_call_def next_call_def eff_bind_def eff_modify_def)

definition closed_devices :: "('r, 'tx) deps \<Rightarrow> (bytes \<times> 'tx) list \<Rightarrow> bytes list" where
  "closed_devices D subs = map fst (filter (\<lambda>(_, tx). is_closed (dp_chan D) tx) subs)"

definition open_devices :: "('r, 'tx) deps \<Rightarrow> (bytes \<times> 'tx) list \<Rightarrow> bytes set" where
  "open_devices D subs = fst ` set (filter (\<lambda>(_, tx). \<not> is_closed (dp_chan D) tx) subs)"

text \<open>The devices that were activated in a state or later, with the time of some call of the clock, and the others unchanged.\<close>

definition activated_since ::
    "('r, 'tx) deps \<Rightarrow> ('r, 'tx) server_state \<Rightarrow> bytes set \<Rightarrow> (bytes \<rightharpoonup> u64) \<Rightarrow> bool" where
  "activated_since D s ds acts = (\<forall>d.
     if d \<in> ds then \<exists>n \<ge> w_calls (ss_world s). acts d = Some (system_time (dp_env D) n)
     else acts d = ss_device_last_activations s d)"

lemma activated_since_step:
  assumes "activated_since D (snd (activate_device D b s)) ds acts"
  shows "activated_since D s (insert b ds) acts"
  unfolding activated_since_def
proof
  fix d
  note a = assms[unfolded activated_since_def, THEN spec, of d]
  show "if d \<in> insert b ds then \<exists>n \<ge> w_calls (ss_world s). acts d = Some (system_time (dp_env D) n)
    else acts d = ss_device_last_activations s d"
  proof (cases "d \<in> ds")
    case True
    then obtain n where "Suc (w_calls (ss_world s)) \<le> n" "acts d = Some (system_time (dp_env D) n)"
      using a by (auto simp: activate_device_state next_call_def)
    with True show ?thesis by (auto intro: exI[of _ n])
  qed (use a in \<open>auto simp: activate_device_state\<close>)
qed

lemma scan_subscribers_result:
  "\<exists>acts w. scan_subscribers D subs s =
       (Inr (closed_devices D subs), s\<lparr>ss_device_last_activations := acts, ss_world := w\<rparr>) \<and>
     activated_since D s (open_devices D subs) acts"
proof (induction subs arbitrary: s)
  case Nil
  show ?case
    by (intro exI[of _ "ss_device_last_activations s"] exI[of _ "ss_world s"])
      (simp add: eff_return_def activated_since_def closed_devices_def open_devices_def)
next
  case (Cons p subs)
  obtain b tx where p: "p = (b, tx)" by fastforce
  show ?case
  proof (cases "is_closed (dp_chan D) tx")
    case True
    then have "closed_devices D (p # subs) = b # closed_devices D subs" "open_devices D (p # subs) = open_devices D subs"
      by (simp_all add: p closed_devices_def open_devices_def)
    moreover obtain acts w where "scan_subscribers D subs s =
        (Inr (closed_devices D subs), s\<lparr>ss_device_last_activations := acts, ss_world := w\<rparr>)"
      "activated_since D s (open_devices D subs) acts"
      using Cons.IH by blast
    ultimately show ?thesis
      using True p by (intro exI[of _ acts] exI[of _ w]) (simp add: eff_bind_def eff_return_def)
  next
    case False
    let ?s = "snd (activate_device D b s)"
    have split: "closed_devices D (p # subs) = closed_devices D subs" "open_devices D (p # subs) = insert b (open_devices D subs)"
      using False by (simp_all add: p closed_devices_def open_devices_def)
    obtain acts w where ih: "scan_subscribers D subs ?s =
        (Inr (closed_devices D subs), ?s\<lparr>ss_device_last_activations := acts, ss_world := w\<rparr>)"
      "activated_since D ?s (open_devices D subs) acts"
      using Cons.IH by blast
    show ?thesis
      using ih(1) False p activated_since_step[OF ih(2)] unfolding split
      by (intro exI[of _ acts] exI[of _ w]) (simp add: eff_bind_def activate_device_state)
  qed
qed

lemma remove_subscribers_result:
  "remove_subscribers ds s = (Inr (), s\<lparr>ss_subscribers := fold hm_remove ds (ss_subscribers s)\<rparr>)"
  by (induction ds arbitrary: s) (simp_all add: eff_return_def eff_bind_def remove_subscriber_def eff_modify_def)

lemma check_subscribers_result:
  assumes "hm_wf (ss_subscribers s)"
  shows "\<exists>acts w subs. check_subscribers D s =
      (Inr (), s\<lparr>ss_subscribers := subs, ss_device_last_activations := acts, ss_world := w\<rparr>) \<and>
    map_of subs = (\<lambda>d. case map_of (ss_subscribers s) d of
      Some tx \<Rightarrow> if is_closed (dp_chan D) tx then None else Some tx | None \<Rightarrow> None) \<and>
    activated_since D s (dom (map_of subs)) acts"
proof -
  let ?subs = "ss_subscribers s"
  let ?new = "fold hm_remove (closed_devices D ?subs) ?subs"
  obtain acts w where sc: "scan_subscribers D ?subs s =
      (Inr (closed_devices D ?subs), s\<lparr>ss_device_last_activations := acts, ss_world := w\<rparr>)"
    "activated_since D s (open_devices D ?subs) acts"
    using scan_subscribers_result by blast
  have set: "(d, tx) \<in> set ?subs \<longleftrightarrow> map_of ?subs d = Some tx" for d tx
    using assms by (auto dest: map_of_SomeD)
  then have closed: "d \<in> set (closed_devices D ?subs) \<longleftrightarrow> (\<exists>tx. map_of ?subs d = Some tx \<and> is_closed (dp_chan D) tx)"
    and opened: "d \<in> open_devices D ?subs \<longleftrightarrow> (\<exists>tx. map_of ?subs d = Some tx \<and> \<not> is_closed (dp_chan D) tx)" for d
    by (force simp: closed_devices_def open_devices_def image_iff)+
  have new: "map_of ?new = (\<lambda>d. case map_of ?subs d of
      Some tx \<Rightarrow> if is_closed (dp_chan D) tx then None else Some tx | None \<Rightarrow> None)"
    using closed by (auto simp: map_of_hm_removes fun_eq_iff split: option.splits)
  then have "dom (map_of ?new) = open_devices D ?subs"
    using opened by (auto simp: dom_def split: option.splits if_splits)
  with sc new show ?thesis
    by (intro exI[of _ acts] exI[of _ w] exI[of _ ?new])
      (simp add: check_subscribers_def eff_bind_def eff_gets_def remove_subscribers_result)
qed

end
