(* ===== verification/Task_Frames.thy ===== *)
theory Task_Frames
  imports Server_Runs
begin

text \<open>
  What the operations of the server leave alone: an operation on a task changes no other cached task, and
  a task that is being voted on is changed only by a decision on it.
\<close>

section \<open>Effects on one task\<close>

definition others_kept :: "uuid \<Rightarrow> ('r, 'm) task_store_scheme \<Rightarrow> ('r, 'm) task_store_scheme \<Rightarrow> bool" where
  "others_kept i s s' = (\<forall>j t. j \<noteq> i \<longrightarrow> cs_task_cache s j = Some t \<longrightarrow> cs_task_cache s' j = Some t)"

lemma others_kept_order [simp]: "reflp (others_kept i)" "transp (others_kept i)"
  by (auto simp: others_kept_def reflp_def transp_def)

named_theorems others_intros \<open>effects on one task only\<close>

lemma others_bind [others_intros]:
  "eff_within (others_kept i) m \<Longrightarrow> (\<And>x. eff_within (others_kept i) (f x)) \<Longrightarrow> eff_within (others_kept i) (eff_bind m f)"
  by (rule eff_within_bind) simp_all

lemma eff_withinI: "(\<And>s r s'. m s = (r, s') \<Longrightarrow> R s s') \<Longrightarrow> eff_within R m"
  unfolding eff_within_def by (metis prod.collapse)

lemma eff_within_snd: "eff_within R m \<Longrightarrow> R s (snd (m s))"
  by (simp add: eff_within_def)

lemma eff_within_mono: "eff_within R m \<Longrightarrow> (\<And>s s'. R s s' \<Longrightarrow> Q s s') \<Longrightarrow> eff_within Q m"
  by (simp add: eff_within_def)

lemma cache_keptD: "cache_kept s s' \<Longrightarrow> cs_task_cache s j = Some t \<Longrightarrow> cs_task_cache s' j = Some t"
  by (auto simp: cache_kept_def map_le_def dom_def)

lemma others_same: "eff_within cache_same m \<Longrightarrow> eff_within (others_kept i) m"
  by (erule eff_within_mono) (simp add: cache_same_def others_kept_def)

lemma others_pure [others_intros]:
  "eff_within (others_kept i) (eff_return x)" "eff_within (others_kept i) (eff_fail e)"
  "eff_within (others_kept i) (eff_lift r)" "eff_within (others_kept i) (call_repo f)"
  "eff_within (others_kept i) (send_updates D task)" "eff_within (others_kept i) (send_cached D j)"
  "eff_within (others_kept i) (set_task_last_update D j)" "eff_within (others_kept i) (choose_active_shares D v)"
  "eff_within (others_kept i) (run_local rt g)"
  by (intro others_same same_intros)+

lemma others_put [others_intros]: "eff_within (others_kept i) (put_task i t)"
  by (auto simp: eff_within_def put_task_def eff_modify_def others_kept_def)

lemma others_run_cached [others_intros]: "eff_within (others_kept i) (run_cached i rt f)"
  by (auto simp: eff_within_def run_cached_def others_kept_def split: prod.splits)

lemma others_steps [others_intros]:
  "eff_within (others_kept i) (fail_task D i x)" "eff_within (others_kept i) (finish_task D i n f)"
  "eff_within (others_kept i) (apply_round_update D i u)" "eff_within (others_kept i) (apply_start_update D i u rt)"
  "eff_within (others_kept i) (apply_restart_update D i j u)"
  unfolding fail_task_def finish_task_def apply_round_update_def apply_start_update_def apply_restart_update_def
  by (auto intro!: others_intros split: task_result.splits round_update.splits simp: fail_task_def finish_task_def)

lemma others_start [others_intros]: "eff_within (others_kept i) (start_accepted_task D i v)"
  unfolding start_accepted_task_def by (auto intro!: others_intros split: prod.splits)

lemma others_decision [others_intros]: "eff_within (others_kept i) (apply_decision D i v u)"
  by (cases u) (auto simp: apply_decision_def intro!: others_intros)

lemma holds_get_task:
  "eff_triple (holds i t) (get_task E R i) (\<lambda>t' s. t' = t \<and> holds i t s) (\<lambda>_. True)"
proof (rule eff_tripleI)
  fix s t' s' assume c: "holds i t s" and g: "get_task E R i s = (Inr t', s')"
  have "holds i t s'" using cache_keptD[OF eff_withinD[OF kept_get_task g] c] .
  with get_task_cached[OF g] show "t' = t \<and> holds i t s'" by simp
qed simp

lemma sample_get_task:
  "holds i t s \<Longrightarrow> get_task (dp_env sample_deps) (dp_repo sample_deps) i s = (Inr t, s)"
  by (simp add: get_task_def ensure_cached_tasks_def hydrate_tasks_def eff_bind_def eff_defs call_repo_def
      sample_deps_def sample_repo_def)

section \<open>Voting tasks\<close>

definition votings_kept :: "('r, 'm) task_store_scheme \<Rightarrow> ('r, 'm) task_store_scheme \<Rightarrow> bool" where
  "votings_kept s s' = (\<forall>i v. cs_task_cache s i = Some (Voting_Task v) \<longrightarrow> cs_task_cache s' i = Some (Voting_Task v))"

lemma votings_kept_order [simp]: "reflp votings_kept" "transp votings_kept"
  by (auto simp: votings_kept_def reflp_def transp_def)

lemma votings_cache: "eff_within cache_kept m \<Longrightarrow> eff_within votings_kept m"
  by (erule eff_within_mono) (simp add: votings_kept_def cache_keptD)

lemma votings_same: "eff_within cache_same m \<Longrightarrow> eff_within votings_kept m"
  by (erule eff_within_mono) (simp add: cache_same_def votings_kept_def)

text \<open>A handler that first reads its task and goes on only when it is not being voted on.\<close>

lemma votings_read:
  assumes "\<And>t. phase_of t = Ph_Voting \<Longrightarrow> \<exists>e. f t = eff_fail e" "\<And>t. eff_within (others_kept i) (f t)"
  shows "eff_within votings_kept (eff_bind (get_task E R i) f)"
proof (rule eff_withinI)
  fix s r s' assume run: "eff_bind (get_task E R i) f s = (r, s')"
  obtain rt s1 where g: "get_task E R i s = (rt, s1)" by fastforce
  have k: "cache_kept s s1" using eff_withinD[OF kept_get_task g] .
  then have v1: "votings_kept s s1"
    using votings_cache[OF kept_get_task] g by (auto dest: eff_withinD)
  show "votings_kept s s'"
  proof (cases rt)
    case (Inr t)
    have c: "cs_task_cache s1 i = Some t" using get_task_cached g Inr by metis
    show ?thesis
    proof (cases "phase_of t = Ph_Voting")
      case True
      then show ?thesis using run g Inr assms(1)[OF True] v1 by (auto simp: eff_bind_def eff_fail_def)
    next
      case False
      have "f t s1 = (r, s')" using run g Inr by (simp add: eff_bind_def)
      then have "others_kept i s1 s'" using eff_withinD[OF assms(2)] by blast
      with v1 c False show ?thesis
        unfolding votings_kept_def others_kept_def by (metis option.inject phase_of.simps(1))
    qed
  qed (use run g v1 in \<open>auto simp: eff_bind_def\<close>)
qed

lemma votings_handlers:
  "eff_within votings_kept (update_task D i d ms a)" "eff_within votings_kept (acknowledge_task D i d)"
  "eff_within votings_kept (restart_task D i)"
  unfolding update_task_def acknowledge_task_def restart_task_def
  by (rule votings_read; auto simp: Let_def elim!: phase_of.elims intro!: others_intros split: task.splits)+

lemma votings_bind:
  "eff_within votings_kept m \<Longrightarrow> (\<And>x. eff_within votings_kept (f x)) \<Longrightarrow> eff_within votings_kept (eff_bind m f)"
  by (rule eff_within_bind) simp_all

lemma votings_restart_all: "eff_within votings_kept (restart_all D ids)"
  by (induction ids) (auto intro!: votings_bind votings_handlers)

lemma votings_restart_stale: "eff_within votings_kept (restart_stale_tasks D)"
  unfolding restart_stale_tasks_def by (intro votings_bind votings_restart_all votings_same same_intros)

section \<open>Decisions\<close>

text \<open>The task is no longer being voted on, or it is the given one.\<close>

definition voting_only :: "uuid \<Rightarrow> voting_task \<Rightarrow> ('r, 'm) task_store_scheme \<Rightarrow> bool" where
  "voting_only i v s = (\<forall>v'. cs_task_cache s i = Some (Voting_Task v') \<longrightarrow> v' = v)"

abbreviation keeps_voting :: "uuid \<Rightarrow> voting_task \<Rightarrow> (('r, 'm) task_store_scheme, 'a) eff \<Rightarrow> bool" where
  "keeps_voting i v m \<equiv> eff_triple (voting_only i v) m (\<lambda>_. voting_only i v) (voting_only i v)"

named_theorems voting_intros \<open>effects after which a task is a given voting task or is not voted on\<close>

lemma voting_same: "eff_within cache_same m \<Longrightarrow> keeps_voting i v m"
  by (intro eff_tripleI) (auto simp: cache_same_def voting_only_def dest!: eff_withinD)

lemma voting_bind [voting_intros]:
  "keeps_voting i v m \<Longrightarrow> (\<And>x. keeps_voting i v (f x)) \<Longrightarrow> keeps_voting i v (eff_bind m f)"
  by (rule eff_triple_bind)

lemma voting_pure [voting_intros]:
  "keeps_voting i v (eff_return x)" "keeps_voting i v (eff_fail e)" "keeps_voting i v (eff_lift r)"
  "keeps_voting i v (call_repo g)" "keeps_voting i v (send_updates D task)" "keeps_voting i v (run_local rt h)"
  "keeps_voting i v (choose_active_shares D w)"
  by (intro voting_same same_intros)+

lemma voting_put [voting_intros]: "phase_of t \<noteq> Ph_Voting \<Longrightarrow> keeps_voting i v (put_task i t)"
  unfolding put_task_def by (intro eff_triple_modify) (auto simp: voting_only_def)

lemma voting_start [voting_intros]: "keeps_voting i v (start_accepted_task D i w)"
proof -
  have "keeps_voting i v (apply_start_update D i u rt)" for u rt
    by (cases u) (auto simp: apply_start_update_def fail_task_def intro!: voting_intros)
  then show ?thesis unfolding start_accepted_task_def by (auto intro!: voting_intros)
qed

lemma voting_decision [voting_intros]: "keeps_voting i v (apply_decision D i w u)"
  by (cases u) (auto simp: apply_decision_def intro!: voting_intros)

text \<open>A decision changes no voting task but its own, and that one as its voting task takes the vote.\<close>

lemma decide_task_votes:
  assumes "cs_task_cache s j = Some (Voting_Task v)" "cs_task_cache (snd (decide_task D i d accept s)) j = Some (Voting_Task v')"
  shows "v' = v \<or> j = i \<and> v' = snd (decide v d accept)"
proof -
  obtain r s1 where g: "get_task (dp_env D) (dp_repo D) i s = (r, s1)" by fastforce
  have kept: "cs_task_cache s1 j = Some (Voting_Task v)"
    using cache_keptD[OF eff_withinD[OF kept_get_task g] assms(1)] .
  show ?thesis
  proof (cases "\<exists>w. r = Inr (Voting_Task w)")
    case False
    then have "snd (decide_task D i d accept s) = s1"
      using g by (auto simp: decide_task_def eff_bind_def eff_fail_def split: sum.splits task.splits)
    with assms(2) kept show ?thesis by simp
  next
    case True
    then obtain w where r: "r = Inr (Voting_Task w)" ..
    obtain q w' where d: "decide w d accept = (q, w')" by fastforce
    define m where "m = eff_bind (set_task_last_update D i) (\<lambda>_. eff_bind (put_task i (Voting_Task w')) (\<lambda>_.
      eff_bind (eff_lift q) (\<lambda>u. eff_bind (call_repo (repo_set_task_decision (dp_repo D) i d accept)) (\<lambda>_.
        apply_decision D i w' u))))"
    have run: "decide_task D i d accept s = m s1"
      using g r d by (simp add: decide_task_def eff_bind_def m_def)
    show ?thesis
    proof (cases "j = i")
      case False
      have "eff_within (others_kept i) m" unfolding m_def by (intro others_intros)
      then have "others_kept i s1 (snd (m s1))" by (simp add: eff_within_def)
      with False kept assms(2) run show ?thesis by (auto simp: others_kept_def)
    next
      case True
      have put: "eff_triple P (put_task i (Voting_Task w')) (\<lambda>_. voting_only i w') (voting_only i w')" for P
        unfolding put_task_def by (intro eff_triple_modify) (auto simp: voting_only_def)
      have last: "\<exists>s2. set_task_last_update D i s1 = (Inr (), s2)"
        by (simp add: set_task_last_update_def get_timestamp_def env_call_def next_call_def eff_bind_def eff_modify_def)
      have "voting_only i w' (snd (eff_bind (put_task i (Voting_Task w')) (\<lambda>_. eff_bind (eff_lift q) (\<lambda>u.
          eff_bind (call_repo (repo_set_task_decision (dp_repo D) i d accept)) (\<lambda>_. apply_decision D i w' u))) s2))" for s2
        by (rule eff_triple_snd[where P = "\<lambda>_. True"], rule eff_triple_bind[OF put]) (intro voting_intros TrueI)+
      with last have "voting_only i w' (snd (m s1))" by (auto simp: m_def eff_bind_def)
      moreover have "w = v" using kept get_task_cached[OF g[unfolded r]] True by simp
      ultimately show ?thesis using assms(2) run True d by (auto simp: voting_only_def)
    qed
  qed
qed

end
