(* ===== verification/Tables.thy ===== *)
theory Tables
  imports Repository
begin

text \<open>
  The database behind the server: the tables of \<^verbatim>\<open>migrations/2025-08-27-171451_initial_schema\<close>
  with their keys and checks, and the SQL statements the repository is made of. A table
  is the list of its rows; a query without \<^verbatim>\<open>ORDER BY\<close> returns them in the order of the list, and what the
  server's theorems use of such a query does not depend on it.
\<close>

section \<open>Statements\<close>

type_synonym ('r, 'a) sql = "('r, 'a) repo_op"

definition sql_return :: "'a \<Rightarrow> ('r, 'a) sql" where
  "sql_return x = (\<lambda>db. (Inr x, db))"

definition sql_fail :: "persistence_error \<Rightarrow> ('r, 'a) sql" where
  "sql_fail e = (\<lambda>db. (Inl e, db))"

definition sql_query :: "('r \<Rightarrow> 'a) \<Rightarrow> ('r, 'a) sql" where
  "sql_query f = (\<lambda>db. (Inr (f db), db))"

definition sql_bind :: "('r, 'a) sql \<Rightarrow> ('a \<Rightarrow> ('r, 'b) sql) \<Rightarrow> ('r, 'b) sql" where
  "sql_bind m f = (\<lambda>db. case m db of (Inl e, db') \<Rightarrow> (Inl e, db') | (Inr x, db') \<Rightarrow> f x db')"

text \<open>\<^verbatim>\<open>connection.transaction\<close>: a block that fails leaves no trace.\<close>

definition sql_transaction :: "('r, 'a) sql \<Rightarrow> ('r, 'a) sql" where
  "sql_transaction m = (\<lambda>db. case m db of (Inl e, _) \<Rightarrow> (Inl e, db) | (Inr x, db') \<Rightarrow> (Inr x, db'))"

lemmas sql_defs = sql_return_def sql_fail_def sql_query_def sql_bind_def sql_transaction_def

text \<open>
  Why a statement is refused. The text of the error is the database's, and so are the
  identifiers it generates for rows without one: both are parameters.
\<close>

datatype violation =
    Unique_Violation | Foreign_Key_Violation | Check_Violation | Not_Found | Out_Of_Range | Invalid_Text

record database_env =
  violation_message :: "violation \<Rightarrow> string"
  uuid_generate_v4 :: "nat \<Rightarrow> uuid"

definition refuse :: "database_env \<Rightarrow> violation \<Rightarrow> ('r, 'a) sql" where
  "refuse P v = sql_fail (ExecutionError (violation_message P v))"

text \<open>A statement that is carried out only if it violates nothing.\<close>

definition checked :: "database_env \<Rightarrow> (('r \<Rightarrow> bool) \<times> violation) list \<Rightarrow> ('r, 'a) sql \<Rightarrow> ('r, 'a) sql" where
  "checked P constraints m = (\<lambda>db. case find (\<lambda>c. \<not> fst c db) constraints of
     Some (_, v) \<Rightarrow> refuse P v db | None \<Rightarrow> m db)"

text \<open>The database stores no text with the character zero in it.\<close>

definition text_ok :: "string \<Rightarrow> bool" where
  "text_ok s = (CHR 0x00 \<notin> set s)"

section \<open>Tables\<close>

record group_participant =
  gp_group_id :: bytes
  gp_device_id :: bytes
  gp_shares :: i32

record task_participant =
  tp_task_id :: uuid
  tp_device_id :: bytes
  tp_shares :: i32
  tp_decision :: "bool option"
  tp_acknowledgment :: "bool option"

record active_task_participant =
  ap_task_id :: uuid
  ap_device_id :: bytes
  ap_active_shares :: i32

record tables =
  db_device :: "device list"
  db_group :: "group_row list"
  db_group_participant :: "group_participant list"
  db_task :: "task_row list"
  db_task_participant :: "task_participant list"
  db_active_task_participant :: "active_task_participant list"
  db_task_result :: "task_result_row list"
  db_generated :: nat

definition empty_tables :: tables where
  "empty_tables = \<lparr>db_device = [], db_group = [], db_group_participant = [], db_task = [],
     db_task_participant = [], db_active_task_participant = [], db_task_result = [], db_generated = 0\<rparr>"

abbreviation gp_key :: "group_participant \<Rightarrow> bytes \<times> bytes" where
  "gp_key r \<equiv> (gp_group_id r, gp_device_id r)"

abbreviation tp_key :: "task_participant \<Rightarrow> uuid \<times> bytes" where
  "tp_key r \<equiv> (tp_task_id r, tp_device_id r)"

abbreviation ap_key :: "active_task_participant \<Rightarrow> uuid \<times> bytes" where
  "ap_key r \<equiv> (ap_task_id r, ap_device_id r)"

abbreviation known_devices :: "tables \<Rightarrow> bytes set" where
  "known_devices db \<equiv> dev_id ` set (db_device db)"

abbreviation known_groups :: "tables \<Rightarrow> bytes set" where
  "known_groups db \<equiv> grp_id ` set (db_group db)"

abbreviation known_tasks :: "tables \<Rightarrow> uuid set" where
  "known_tasks db \<equiv> tm_id ` set (db_task db)"

text \<open>The checks of the single tables.\<close>

definition group_check :: "group_row \<Rightarrow> bool" where
  "group_check g = (sint (grp_threshold g) > 0)"

definition task_check :: "task_row \<Rightarrow> bool" where
  "task_check r = (sint (tm_protocol_round r) \<ge> 0 \<and> sint (tm_attempt_count r) \<ge> 0 \<and> sint (tm_threshold r) > 0)"

definition task_result_check :: "task_result_row \<Rightarrow> bool" where
  "task_result_check r =
     (tr_is_successful r \<and> tr_data r \<noteq> None \<and> tr_error_message r = None \<or>
      \<not> tr_is_successful r \<and> tr_data r = None \<and> tr_error_message r \<noteq> None)"

text \<open>The constraints of the schema: primary keys, references and checks.\<close>

definition tables_ok :: "tables \<Rightarrow> bool" where
  "tables_ok db =
     (distinct (map dev_id (db_device db)) \<and> distinct (map grp_id (db_group db)) \<and>
      distinct (map gp_key (db_group_participant db)) \<and> distinct (map tm_id (db_task db)) \<and>
      distinct (map tp_key (db_task_participant db)) \<and>
      distinct (map ap_key (db_active_task_participant db)) \<and>
      distinct (map tr_task_id (db_task_result db)) \<and>
      (\<forall>g \<in> set (db_group db). group_check g) \<and> (\<forall>r \<in> set (db_task db). task_check r) \<and>
      (\<forall>r \<in> set (db_task_result db). task_result_check r \<and> tr_task_id r \<in> known_tasks db) \<and>
      (\<forall>r \<in> set (db_group_participant db).
         sint (gp_shares r) > 0 \<and> gp_group_id r \<in> known_groups db \<and> gp_device_id r \<in> known_devices db) \<and>
      (\<forall>r \<in> set (db_task db). \<forall>g. tm_group_id r = Some g \<longrightarrow> g \<in> known_groups db) \<and>
      (\<forall>r \<in> set (db_task_participant db).
         sint (tp_shares r) > 0 \<and> tp_task_id r \<in> known_tasks db \<and> tp_device_id r \<in> known_devices db) \<and>
      (\<forall>r \<in> set (db_active_task_participant db).
         sint (ap_active_shares r) > 0 \<and> ap_key r \<in> tp_key ` set (db_task_participant db)))"

section \<open>Changing the tables\<close>

definition insert_device :: "database_env \<Rightarrow> device \<Rightarrow> (tables, device) sql" where
  "insert_device P d = checked P
     [(\<lambda>_. text_ok (dev_name d), Invalid_Text), (\<lambda>db. dev_id d \<notin> known_devices db, Unique_Violation)]
     (\<lambda>db. (Inr d, db\<lparr>db_device := db_device db @ [d]\<rparr>))"

definition insert_group :: "database_env \<Rightarrow> group_row \<Rightarrow> (tables, nat) sql" where
  "insert_group P g = checked P
     [(\<lambda>_. text_ok (grp_name g) \<and> (\<forall>note \<in> set_option (grp_note g). text_ok note), Invalid_Text),
      (\<lambda>_. group_check g, Check_Violation), (\<lambda>db. grp_id g \<notin> known_groups db, Unique_Violation)]
     (\<lambda>db. (Inr 1, db\<lparr>db_group := db_group db @ [g]\<rparr>))"

text \<open>A statement inserts all of its rows or none.\<close>

definition insert_group_participants :: "database_env \<Rightarrow> group_participant list \<Rightarrow> (tables, nat) sql" where
  "insert_group_participants P rows = checked P
     [(\<lambda>_. list_all (\<lambda>r. sint (gp_shares r) > 0) rows, Check_Violation),
      (\<lambda>db. distinct (map gp_key (db_group_participant db @ rows)), Unique_Violation),
      (\<lambda>db. list_all (\<lambda>r. gp_group_id r \<in> known_groups db \<and> gp_device_id r \<in> known_devices db) rows,
       Foreign_Key_Violation)]
     (\<lambda>db. (Inr (length rows), db\<lparr>db_group_participant := db_group_participant db @ rows\<rparr>))"

text \<open>A task inserted without an identifier gets a generated one.\<close>

definition generate_id :: "database_env \<Rightarrow> uuid option \<Rightarrow> (tables, uuid) sql" where
  "generate_id P task_id = (\<lambda>db. case task_id of
     Some i \<Rightarrow> (Inr i, db)
   | None \<Rightarrow> (Inr (uuid_generate_v4 P (db_generated db)), db\<lparr>db_generated := Suc (db_generated db)\<rparr>))"

definition insert_task :: "database_env \<Rightarrow> task_row \<Rightarrow> (tables, uuid) sql" where
  "insert_task P r = checked P
     [(\<lambda>_. text_ok (tm_name r) \<and> (\<forall>note \<in> set_option (tm_note r). text_ok note), Invalid_Text),
      (\<lambda>_. task_check r, Check_Violation), (\<lambda>db. tm_id r \<notin> known_tasks db, Unique_Violation),
      (\<lambda>db. \<forall>g \<in> set_option (tm_group_id r). g \<in> known_groups db, Foreign_Key_Violation)]
     (\<lambda>db. (Inr (tm_id r), db\<lparr>db_task := db_task db @ [r]\<rparr>))"

definition insert_task_participants :: "database_env \<Rightarrow> task_participant list \<Rightarrow> (tables, nat) sql" where
  "insert_task_participants P rows = checked P
     [(\<lambda>_. list_all (\<lambda>r. sint (tp_shares r) > 0) rows, Check_Violation),
      (\<lambda>db. distinct (map tp_key (db_task_participant db @ rows)), Unique_Violation),
      (\<lambda>db. list_all (\<lambda>r. tp_task_id r \<in> known_tasks db \<and> tp_device_id r \<in> known_devices db) rows,
       Foreign_Key_Violation)]
     (\<lambda>db. (Inr (length rows), db\<lparr>db_task_participant := db_task_participant db @ rows\<rparr>))"

text \<open>\<^verbatim>\<open>ON CONFLICT (task_id, device_id) DO NOTHING\<close>: a row whose key is taken is skipped.\<close>

fun insert_new_active :: "active_task_participant list \<Rightarrow> active_task_participant list \<Rightarrow>
    active_task_participant list" where
  "insert_new_active [] present = present"
| "insert_new_active (r # rows) present =
     insert_new_active rows (if ap_key r \<in> ap_key ` set present then present else present @ [r])"

definition insert_active_task_participants ::
    "database_env \<Rightarrow> active_task_participant list \<Rightarrow> (tables, unit) sql" where
  "insert_active_task_participants P rows = checked P
     [(\<lambda>_. list_all (\<lambda>r. sint (ap_active_shares r) > 0) rows, Check_Violation),
      (\<lambda>db. list_all (\<lambda>r. ap_key r \<in> ap_key ` set (db_active_task_participant db) \<or>
          ap_key r \<in> tp_key ` set (db_task_participant db)) rows, Foreign_Key_Violation)]
     (\<lambda>db. (Inr (), db\<lparr>db_active_task_participant :=
        insert_new_active rows (db_active_task_participant db)\<rparr>))"

text \<open>
  \<^verbatim>\<open>ON CONFLICT (task_id) DO UPDATE\<close> with a changeset: a field that is \<^verbatim>\<open>None\<close> is not part of the
  changeset, so the column keeps its value.
\<close>

definition changed_result :: "task_result_row \<Rightarrow> task_result_row \<Rightarrow> task_result_row" where
  "changed_result new old =
     \<lparr>tr_task_id = tr_task_id new, tr_is_successful = tr_is_successful new,
      tr_data = (case tr_data new of None \<Rightarrow> tr_data old | Some d \<Rightarrow> Some d),
      tr_error_message = (case tr_error_message new of None \<Rightarrow> tr_error_message old | Some m \<Rightarrow> Some m)\<rparr>"

definition upsert_task_result :: "database_env \<Rightarrow> task_result_row \<Rightarrow> (tables, unit) sql" where
  "upsert_task_result P r = (\<lambda>db.
     let present = filter (\<lambda>old. tr_task_id old = tr_task_id r) (db_task_result db)
     in checked P
       [(\<lambda>_. \<forall>m \<in> set_option (tr_error_message r). text_ok m, Invalid_Text),
        (\<lambda>_. list_all task_result_check (r # map (changed_result r) present), Check_Violation),
        (\<lambda>db. tr_task_id r \<in> known_tasks db, Foreign_Key_Violation)]
       (\<lambda>db. (Inr (), db\<lparr>db_task_result :=
          if present = [] then db_task_result db @ [r]
          else map (\<lambda>old. if tr_task_id old = tr_task_id r then changed_result r old else old)
            (db_task_result db)\<rparr>)) db)"

text \<open>\<^verbatim>\<open>UPDATE\<close> of the rows with a key, returning the changed rows.\<close>

definition update_tasks :: "database_env \<Rightarrow> uuid \<Rightarrow> (task_row \<Rightarrow> task_row) \<Rightarrow> (tables, task_row list) sql" where
  "update_tasks P task_id f = (\<lambda>db.
     let changed = map f (filter (\<lambda>r. tm_id r = task_id) (db_task db))
     in checked P [(\<lambda>_. list_all task_check changed, Check_Violation)]
       (\<lambda>db. (Inr changed, db\<lparr>db_task := map (\<lambda>r. if tm_id r = task_id then f r else r) (db_task db)\<rparr>)) db)"

definition update_task_participants ::
    "uuid \<Rightarrow> bytes \<Rightarrow> (task_participant \<Rightarrow> task_participant) \<Rightarrow> (tables, unit) sql" where
  "update_task_participants task_id device_id f = (\<lambda>db.
     (Inr (), db\<lparr>db_task_participant :=
        map (\<lambda>r. if tp_task_id r = task_id \<and> tp_device_id r = device_id then f r else r) (db_task_participant db)\<rparr>))"

text \<open>\<^verbatim>\<open>get_result\<close>: the first row, or the error that there is none.\<close>

definition get_result :: "database_env \<Rightarrow> 'a list \<Rightarrow> ('r, 'a) sql" where
  "get_result P rows = (case rows of [] \<Rightarrow> refuse P Not_Found | r # _ \<Rightarrow> sql_return r)"

end
