(* ===== verification/Postgres.thy ===== *)
theory Postgres
  imports Tables
begin

text \<open>
  \<^verbatim>\<open>PostgresRepository\<close> of \<^verbatim>\<open>src/persistence/postgres_repository.rs\<close> and its parts \<^verbatim>\<open>device.rs\<close>,
  \<^verbatim>\<open>group.rs\<close> and \<^verbatim>\<open>task.rs\<close>, on a database that can be reached. The integers of the tables are
  32 bit and signed; \<^verbatim>\<open>as\<close> between \<^verbatim>\<open>i32\<close> and \<^verbatim>\<open>u32\<close> keeps the bits.
\<close>

section \<open>Devices\<close>

definition pg_get_devices :: "(tables, device list) sql" where
  "pg_get_devices = sql_query db_device"

text \<open>The device of an identifier, as an inner join finds it.\<close>

definition joined_devices :: "tables \<Rightarrow> bytes \<Rightarrow> device list" where
  "joined_devices db device_id = filter (\<lambda>d. dev_id d = device_id) (db_device db)"

definition pg_get_group_participants :: "bytes \<Rightarrow> (tables, participant list) sql" where
  "pg_get_group_participants group_id = sql_query (\<lambda>db.
     concat (map (\<lambda>r. map (\<lambda>d. \<lparr>part_device = d, part_shares = gp_shares r\<rparr>) (joined_devices db (gp_device_id r)))
       (filter (\<lambda>r. gp_group_id r = group_id) (db_group_participant db))))"

definition pg_get_tasks_participants :: "uuid list \<Rightarrow> (tables, (uuid \<times> participant) list) sql" where
  "pg_get_tasks_participants task_ids = sql_query (\<lambda>db.
     sort_key fst (concat (map (\<lambda>r. concat (map (\<lambda>t.
         map (\<lambda>d. (tm_id t, \<lparr>part_device = d, part_shares = tp_shares r\<rparr>)) (joined_devices db (tp_device_id r)))
       (filter (\<lambda>t. tm_id t = tp_task_id r \<and> tm_id t \<in> set task_ids) (db_task db))))
       (db_task_participant db))))"

definition pg_add_device ::
    "database_env \<Rightarrow> bytes \<Rightarrow> string \<Rightarrow> device_kind \<Rightarrow> bytes \<Rightarrow> (tables, device) sql" where
  "pg_add_device P identifier name kind certificate =
     (if \<not> is_name_valid name then sql_fail (InvalidArgumentError ''Invalid device name: {name}'')
      else if identifier = [] then sql_fail (InvalidArgumentError ''Empty identifier'')
      else if certificate = [] then sql_fail (InvalidArgumentError ''Empty certificate'')
      else insert_device P \<lparr>dev_id = identifier, dev_name = name, dev_kind = kind, dev_certificate = certificate\<rparr>)"

section \<open>Groups\<close>

text \<open>The participants of each group, collected in a map from which each group takes its own.\<close>

definition collect_participants :: "group_participant list \<Rightarrow> (bytes, (bytes \<times> u32) list) hashmap" where
  "collect_participants rows = fold (\<lambda>r. hm_push (gp_group_id r) (gp_device_id r, gp_shares r)) rows []"

fun take_participants ::
    "group_row list \<Rightarrow> (bytes, (bytes \<times> u32) list) hashmap \<Rightarrow> group list" where
  "take_participants [] m = []"
| "take_participants (g # gs) m =
     group_row.extend g \<lparr>grp_participant_ids_shares = (case map_of m (grp_id g) of None \<Rightarrow> [] | Some ps \<Rightarrow> ps)\<rparr> #
     take_participants gs (hm_remove (grp_id g) m)"

definition pg_get_groups :: "(tables, group list) sql" where
  "pg_get_groups = sql_query (\<lambda>db.
     take_participants (db_group db) (collect_participants (db_group_participant db)))"

definition pg_get_group :: "bytes \<Rightarrow> (tables, group option) sql" where
  "pg_get_group group_identifier = sql_query (\<lambda>db.
     let participant_ids_shares = map (\<lambda>r. (gp_device_id r, gp_shares r))
           (filter (\<lambda>r. gp_group_id r = group_identifier) (db_group_participant db))
     in map_option (\<lambda>g. group_row.extend g \<lparr>grp_participant_ids_shares = participant_ids_shares\<rparr>)
          (find (\<lambda>g. grp_id g = group_identifier) (db_group db)))"

definition pg_get_device_groups :: "bytes \<Rightarrow> (tables, group list) sql" where
  "pg_get_device_groups device_id = sql_query (\<lambda>db.
     let rows = concat (map (\<lambda>r. map (\<lambda>_. r)
           (filter (\<lambda>r2. gp_group_id r2 = gp_group_id r \<and> gp_device_id r2 = device_id) (db_group_participant db)))
         (db_group_participant db));
         groups = concat (map (\<lambda>g. map (\<lambda>_. g)
           (filter (\<lambda>r. gp_group_id r = grp_id g \<and> gp_device_id r = device_id) (db_group_participant db)))
         (db_group db))
     in take_participants groups (collect_participants rows))"

text \<open>\<^verbatim>\<open>u32::try_into::<i32>\<close>.\<close>

definition try_into_i32 :: "u32 \<Rightarrow> ('r, i32) sql" where
  "try_into_i32 n = (if unat n < 2 ^ 31 then sql_return n else sql_fail TryFromIntError)"

definition task_devices :: "uuid \<Rightarrow> tables \<Rightarrow> (bytes \<times> i32) list" where
  "task_devices group_task_id db =
     concat (map (\<lambda>r. map (\<lambda>_. (tp_device_id r, tp_shares r))
       (filter (\<lambda>t. tm_id t = tp_task_id r \<and> tm_id t = group_task_id) (db_task db))) (db_task_participant db))"

text \<open>
  The number of rows a successful \<^verbatim>\<open>INSERT\<close> reports is the number of rows given, which is what the
  assertion on it checks.
\<close>

definition pg_add_group ::
    "database_env \<Rightarrow> bytes \<Rightarrow> uuid \<Rightarrow> string \<Rightarrow> u32 \<Rightarrow> protocol_type \<Rightarrow> key_type \<Rightarrow> bytes option \<Rightarrow>
     string option \<Rightarrow> (tables, group) sql" where
  "pg_add_group P identifier group_task_id name threshold protocol key_type certificate note =
     sql_transaction (sql_bind (try_into_i32 threshold) (\<lambda>threshold.
       if identifier = [] then sql_fail (InvalidArgumentError ''Empty identifier'')
       else sql_bind (insert_group P \<lparr>grp_id = identifier, grp_name = name, grp_threshold = threshold,
           grp_protocol = protocol, grp_key_type = key_type, grp_certificate = certificate, grp_note = note\<rparr>) (\<lambda>_.
         sql_bind (sql_query (task_devices group_task_id)) (\<lambda>devices.
         sql_bind (insert_group_participants P (map (\<lambda>(device_id, shares).
             \<lparr>gp_group_id = identifier, gp_device_id = device_id, gp_shares = shares\<rparr>) devices)) (\<lambda>_.
         sql_bind (pg_get_group identifier) (\<lambda>found.
           case found of
             None \<Rightarrow> sql_fail (DataInconsistencyError ''Already created group was not found!'')
           | Some g \<Rightarrow> sql_return g))))))"

section \<open>Tasks\<close>

text \<open>A task row with its result, the left outer join the models are read from.\<close>

definition with_result :: "tables \<Rightarrow> task_row \<Rightarrow> task_model list" where
  "with_result db r =
     (case filter (\<lambda>x. tr_task_id x = tm_id r) (db_task_result db) of
        [] \<Rightarrow> [task_row.extend r \<lparr>tm_result = None\<rparr>]
      | results \<Rightarrow> map (\<lambda>x. task_row.extend r \<lparr>tm_result = Some x\<rparr>) results)"

definition pg_get_task :: "uuid \<Rightarrow> (tables, task_model option) sql" where
  "pg_get_task task_id = sql_query (\<lambda>db.
     case concat (map (with_result db) (filter (\<lambda>r. tm_id r = task_id) (db_task db))) of
       [] \<Rightarrow> None | model # _ \<Rightarrow> Some model)"

definition new_task_participants :: "uuid \<Rightarrow> (bytes \<times> u32) list \<Rightarrow> task_participant list" where
  "new_task_participants task_id participants = map (\<lambda>(device_id, shares).
     \<lparr>tp_task_id = task_id, tp_device_id = device_id, tp_shares = shares, tp_decision = None,
      tp_acknowledgment = None\<rparr>) participants"

text \<open>What \<^verbatim>\<open>create_task\<close> and \<^verbatim>\<open>create_group_task\<close> do with the row they have built.\<close>

definition store_new_task ::
    "database_env \<Rightarrow> uuid option \<Rightarrow> (bytes \<times> u32) list \<Rightarrow> (uuid \<Rightarrow> task_row) \<Rightarrow> (tables, task_model) sql" where
  "store_new_task P task_id participants row =
     sql_bind (generate_id P task_id) (\<lambda>i.
     sql_bind (insert_task P (row i)) (\<lambda>task_id.
     sql_bind (insert_task_participants P (new_task_participants task_id participants)) (\<lambda>_.
     sql_bind (pg_get_task task_id) (\<lambda>found.
       case found of
         None \<Rightarrow> sql_fail (DataInconsistencyError ''Already created task can't be returned'')
       | Some model \<Rightarrow> sql_return model))))"

definition pg_create_task ::
    "database_env \<Rightarrow> uuid option \<Rightarrow> bytes \<Rightarrow> (bytes \<times> u32) list \<Rightarrow> u32 \<Rightarrow> string \<Rightarrow> bytes \<Rightarrow> bytes \<Rightarrow>
     task_type \<Rightarrow> key_type \<Rightarrow> protocol_type \<Rightarrow> (tables, task_model) sql" where
  "pg_create_task P task_id group_id participants threshold name task_data request task_type key_type protocol =
     sql_transaction
       (if \<not> is_name_valid name then sql_fail (InvalidArgumentError (''Invalid group name '' @ name))
        else store_new_task P task_id participants (\<lambda>i.
          \<lparr>tm_id = i, tm_protocol_round = 0, tm_attempt_count = 0, tm_threshold = threshold, tm_name = name,
           tm_task_data = Some task_data, tm_preprocessed = None, tm_request = request,
           tm_group_id = Some group_id, tm_task_type = task_type, tm_task_state = Created,
           tm_key_type = key_type, tm_protocol_type = protocol, tm_note = None,
           tm_group_certificates_sent = None\<rparr>))"

definition pg_create_group_task ::
    "database_env \<Rightarrow> uuid option \<Rightarrow> (bytes \<times> u32) list \<Rightarrow> u32 \<Rightarrow> string \<Rightarrow> protocol_type \<Rightarrow> key_type \<Rightarrow>
     bytes \<Rightarrow> string option \<Rightarrow> (tables, task_model) sql" where
  "pg_create_group_task P task_id participants threshold name protocol_type key_type request note =
     sql_transaction
       (if \<not> is_name_valid name then sql_fail (InvalidArgumentError (''Invalid group name '' @ name))
        else if \<not> (1 \<le> threshold \<and> threshold \<le> sum_list (map snd participants))
        then sql_fail (InvalidArgumentError (''Invalid threshold '' @ decimal (unat threshold)))
        else sql_bind (try_into_i32 threshold) (\<lambda>threshold. store_new_task P task_id participants (\<lambda>i.
          \<lparr>tm_id = i, tm_protocol_round = 0, tm_attempt_count = 0, tm_threshold = threshold, tm_name = name,
           tm_task_data = None, tm_preprocessed = None, tm_request = request, tm_group_id = None,
           tm_task_type = TT_Group, tm_task_state = Created, tm_key_type = key_type,
           tm_protocol_type = protocol_type, tm_note = note, tm_group_certificates_sent = Some False\<rparr>)))"

definition pg_get_tasks :: "(tables, uuid list) sql" where
  "pg_get_tasks = sql_query (\<lambda>db. sort (map tm_id (db_task db)))"

definition pg_get_task_models :: "uuid list \<Rightarrow> (tables, task_model list) sql" where
  "pg_get_task_models task_ids = sql_query (\<lambda>db.
     sort_key tm_id (concat (map (with_result db) (filter (\<lambda>r. tm_id r \<in> set task_ids) (db_task db)))))"

definition pg_get_active_device_tasks :: "bytes \<Rightarrow> (tables, uuid list) sql" where
  "pg_get_active_device_tasks device_id = sql_query (\<lambda>db.
     sort (concat (map (\<lambda>r. concat (map (\<lambda>model. map (\<lambda>_. tm_id model)
         (filter (\<lambda>p. tp_task_id p = tm_id model \<and> tp_device_id p = device_id \<and>
            (tm_result model = None \<or> tp_acknowledgment p = None \<or> tp_acknowledgment p = Some False))
           (db_task_participant db)))
       (with_result db r))) (db_task db))))"

definition pg_get_restart_candidates :: "(tables, uuid list) sql" where
  "pg_get_restart_candidates = sql_query (\<lambda>db.
     sort (concat (map (\<lambda>r. map tm_id (filter (\<lambda>model. tm_result model = None \<and>
         (tm_group_certificates_sent model = Some True \<or> sint (tm_protocol_round model) \<ge> 1))
       (with_result db r))) (db_task db))))"

definition pg_set_task_decision :: "uuid \<Rightarrow> bytes \<Rightarrow> bool \<Rightarrow> (tables, unit) sql" where
  "pg_set_task_decision task_id device_id accept =
     update_task_participants task_id device_id (\<lambda>r. r\<lparr>tp_decision := Some accept\<rparr>)"

text \<open>The vote a row stands for; the shares are cast to \<^verbatim>\<open>i8\<close>.\<close>

definition stored_vote :: "bool option \<Rightarrow> i32 \<Rightarrow> i8" where
  "stored_vote decision shares =
     (case decision of Some True \<Rightarrow> ucast shares | Some False \<Rightarrow> ucast (- shares) | None \<Rightarrow> 0)"

definition pg_get_task_decisions :: "uuid \<Rightarrow> (tables, (bytes, i8) hashmap) sql" where
  "pg_get_task_decisions task_id = sql_query (\<lambda>db.
     hm_collect (map (\<lambda>r. (tp_device_id r, stored_vote (tp_decision r) (tp_shares r)))
       (filter (\<lambda>r. tp_task_id r = task_id) (db_task_participant db))))"

definition pg_set_task_acknowledgement :: "uuid \<Rightarrow> bytes \<Rightarrow> (tables, unit) sql" where
  "pg_set_task_acknowledgement task_id device_id =
     update_task_participants task_id device_id (\<lambda>r. r\<lparr>tp_acknowledgment := Some True\<rparr>)"

definition pg_get_task_acknowledgements :: "uuid \<Rightarrow> (tables, bytes set) sql" where
  "pg_get_task_acknowledgements task_id = sql_query (\<lambda>db.
     set (map tp_device_id (filter (\<lambda>r. tp_acknowledgment r = Some True)
       (filter (\<lambda>r. tp_task_id r = task_id) (db_task_participant db)))))"

definition pg_get_task_active_shares :: "uuid \<Rightarrow> (tables, (bytes, u32) hashmap) sql" where
  "pg_get_task_active_shares task_id = sql_query (\<lambda>db.
     hm_collect (map (\<lambda>r. (ap_device_id r, ap_active_shares r))
       (filter (\<lambda>r. ap_task_id r = task_id) (db_active_task_participant db))))"

definition pg_set_task_active_shares ::
    "database_env \<Rightarrow> uuid \<Rightarrow> (bytes, u32) hashmap \<Rightarrow> (tables, unit) sql" where
  "pg_set_task_active_shares P task_id active_shares =
     insert_active_task_participants P (map (\<lambda>(device_id, shares).
       \<lparr>ap_task_id = task_id, ap_device_id = device_id, ap_active_shares = shares\<rparr>) active_shares)"

definition pg_set_task_result :: "database_env \<Rightarrow> uuid \<Rightarrow> string + bytes \<Rightarrow> (tables, unit) sql" where
  "pg_set_task_result P task_id result = upsert_task_result P (new_task_result result task_id)"

definition pg_set_task_group_certificates_sent ::
    "database_env \<Rightarrow> uuid \<Rightarrow> bool option \<Rightarrow> (tables, unit) sql" where
  "pg_set_task_group_certificates_sent P task_id sent =
     sql_bind (update_tasks P task_id (\<lambda>r. r\<lparr>tm_group_certificates_sent := sent\<rparr>)) (\<lambda>_. sql_return ())"

text \<open>\<^verbatim>\<open>round as i32\<close> of a \<^verbatim>\<open>u16\<close>, and \<^verbatim>\<open>as u16\<close> back.\<close>

definition pg_set_task_round :: "database_env \<Rightarrow> uuid \<Rightarrow> u16 \<Rightarrow> (tables, u16) sql" where
  "pg_set_task_round P task_id round =
     sql_bind (update_tasks P task_id (\<lambda>r. r\<lparr>tm_protocol_round := ucast round\<rparr>)) (\<lambda>rows.
     sql_bind (get_result P rows) (\<lambda>r. sql_return (ucast (tm_protocol_round r))))"

text \<open>The database refuses to count past the largest integer.\<close>

definition pg_increment_task_attempt_count :: "database_env \<Rightarrow> uuid \<Rightarrow> (tables, u32) sql" where
  "pg_increment_task_attempt_count P task_id =
     checked P [(\<lambda>db. list_all (\<lambda>r. sint (tm_attempt_count r) < 2 ^ 31 - 1)
         (filter (\<lambda>r. tm_id r = task_id) (db_task db)), Out_Of_Range)]
       (sql_bind (update_tasks P task_id (\<lambda>r. r\<lparr>tm_attempt_count := tm_attempt_count r + 1\<rparr>)) (\<lambda>rows.
        sql_bind (get_result P rows) (\<lambda>r. sql_return (tm_attempt_count r))))"

section \<open>The repository\<close>

definition postgres :: "database_env \<Rightarrow> tables repository" where
  "postgres P = \<lparr>
     repo_add_device = pg_add_device P,
     repo_get_devices = pg_get_devices,
     repo_get_group_participants = pg_get_group_participants,
     repo_get_tasks_participants = pg_get_tasks_participants,
     repo_add_group = pg_add_group P,
     repo_get_group = pg_get_group,
     repo_get_groups = pg_get_groups,
     repo_get_device_groups = pg_get_device_groups,
     repo_create_group_task = pg_create_group_task P,
     repo_create_threshold_task = pg_create_task P,
     repo_get_task_models = pg_get_task_models,
     repo_get_tasks = pg_get_tasks,
     repo_get_restart_candidates = pg_get_restart_candidates,
     repo_get_active_device_tasks = pg_get_active_device_tasks,
     repo_set_task_decision = pg_set_task_decision,
     repo_get_task_decisions = pg_get_task_decisions,
     repo_set_task_acknowledgement = pg_set_task_acknowledgement,
     repo_get_task_acknowledgements = pg_get_task_acknowledgements,
     repo_set_task_active_shares = pg_set_task_active_shares P,
     repo_get_task_active_shares = pg_get_task_active_shares,
     repo_set_task_round = pg_set_task_round P,
     repo_increment_task_attempt_count = pg_increment_task_attempt_count P,
     repo_set_task_result = pg_set_task_result P,
     repo_set_task_group_certificates_sent = pg_set_task_group_certificates_sent P\<rparr>"

lemma postgres_simps [simp]:
  "repo_get_group (postgres P) = pg_get_group"
  "repo_get_group_participants (postgres P) = pg_get_group_participants"
  "repo_get_tasks_participants (postgres P) = pg_get_tasks_participants"
  "repo_get_task_models (postgres P) = pg_get_task_models"
  "repo_get_task_decisions (postgres P) = pg_get_task_decisions"
  "repo_get_task_acknowledgements (postgres P) = pg_get_task_acknowledgements"
  "repo_get_task_active_shares (postgres P) = pg_get_task_active_shares"
  "repo_create_group_task (postgres P) = pg_create_group_task P"
  "repo_create_threshold_task (postgres P) = pg_create_task P"
  "repo_set_task_decision (postgres P) = pg_set_task_decision"
  "repo_set_task_acknowledgement (postgres P) = pg_set_task_acknowledgement"
  "repo_set_task_active_shares (postgres P) = pg_set_task_active_shares P"
  "repo_set_task_result (postgres P) = pg_set_task_result P"
  "repo_set_task_round (postgres P) = pg_set_task_round P"
  "repo_increment_task_attempt_count (postgres P) = pg_increment_task_attempt_count P"
  "repo_set_task_group_certificates_sent (postgres P) = pg_set_task_group_certificates_sent P"
  "repo_add_group (postgres P) = pg_add_group P"
  "repo_add_device (postgres P) = pg_add_device P"
  by (simp_all add: postgres_def)

end
