(* ===== verification/Postgres_Constraints.thy ===== *)
theory Postgres_Constraints
  imports Postgres
begin

text \<open>Every operation of the repository keeps the constraints of the schema.\<close>

section \<open>Statements\<close>

named_theorems keeps_intros \<open>statements that keep the constraints of the schema\<close>

definition keeps :: "(tables, 'a) sql \<Rightarrow> bool" where
  "keeps m = (\<forall>db. tables_ok db \<longrightarrow> tables_ok (snd (m db)))"

lemma keepsD: "keeps m \<Longrightarrow> tables_ok db \<Longrightarrow> m db = (r, db') \<Longrightarrow> tables_ok db'"
  by (metis keeps_def snd_conv)

lemma keeps_pure [keeps_intros]: "keeps (sql_return x)" "keeps (sql_fail e)" "keeps (sql_query f)" "keeps (refuse P v)"
  by (simp_all add: keeps_def sql_defs refuse_def)

lemma keeps_bind [keeps_intros]: "keeps m \<Longrightarrow> (\<And>x. keeps (f x)) \<Longrightarrow> keeps (sql_bind m f)"
  by (fastforce simp: keeps_def sql_bind_def split: prod.splits sum.splits)

lemma keeps_transaction [keeps_intros]: "keeps m \<Longrightarrow> keeps (sql_transaction m)"
  by (fastforce simp: keeps_def sql_transaction_def split: prod.splits sum.splits)

lemma checked_cases:
  "(\<exists>v. checked P cs m db = refuse P v db) \<or> checked P cs m db = m db \<and> (\<forall>c \<in> set cs. fst c db)"
  by (auto simp: checked_def find_None_iff split: option.splits)

lemma keeps_checked:
  assumes "\<And>db. tables_ok db \<Longrightarrow> \<forall>c \<in> set cs. fst c db \<Longrightarrow> tables_ok (snd (m db))"
  shows "keeps (checked P cs m)"
  unfolding keeps_def
proof (intro allI impI)
  fix db assume "tables_ok db"
  then show "tables_ok (snd (checked P cs m db))"
    using checked_cases[of P cs m db] assms by (auto simp: refuse_def sql_fail_def)
qed

lemma keeps_insert_device [keeps_intros]: "keeps (insert_device P d)"
  unfolding insert_device_def by (rule keeps_checked) (auto simp: tables_ok_def)

lemma keeps_insert_group [keeps_intros]: "keeps (insert_group P g)"
  unfolding insert_group_def by (rule keeps_checked) (auto simp: tables_ok_def)

lemma keeps_insert_group_participants [keeps_intros]: "keeps (insert_group_participants P rows)"
  unfolding insert_group_participants_def by (rule keeps_checked) (auto simp: tables_ok_def list_all_iff)

lemma keeps_generate_id [keeps_intros]: "keeps (generate_id P i)"
  by (simp add: keeps_def generate_id_def tables_ok_def split: option.splits)

lemma keeps_insert_task [keeps_intros]: "keeps (insert_task P r)"
  unfolding insert_task_def by (rule keeps_checked) (auto simp: tables_ok_def)

lemma keeps_insert_task_participants [keeps_intros]: "keeps (insert_task_participants P rows)"
  unfolding insert_task_participants_def by (rule keeps_checked) (auto simp: tables_ok_def list_all_iff)

lemma insert_new_active_set:
  "set present \<subseteq> set (insert_new_active rows present)"
  "set (insert_new_active rows present) \<subseteq> set present \<union> set rows"
  by (induction rows present rule: insert_new_active.induct) (auto split: if_splits)

lemma insert_new_active_distinct:
  "distinct (map ap_key present) \<Longrightarrow> distinct (map ap_key (insert_new_active rows present))"
  by (induction rows present rule: insert_new_active.induct) auto

text \<open>A row whose key is not taken and not given twice is inserted; a taken key stays as it is.\<close>

lemma insert_new_active_inserted:
  assumes "r \<in> set (insert_new_active rows present)" "r \<notin> set present"
  shows "ap_key r \<notin> ap_key ` set present"
  using assms
proof (induction rows present rule: insert_new_active.induct)
  case (2 q rows present)
  then show ?case
    by (cases "ap_key q \<in> ap_key ` set present"; cases "r = q") auto
qed simp

lemma keeps_insert_active [keeps_intros]: "keeps (insert_active_task_participants P rows)"
  unfolding insert_active_task_participants_def
proof (rule keeps_checked)
  fix db :: tables
  let ?ps = "db_active_task_participant db"
  assume ok: "tables_ok db" and c: "\<forall>c \<in> set [(\<lambda>_. list_all (\<lambda>r. sint (ap_active_shares r) > 0) rows, Check_Violation),
      (\<lambda>db. list_all (\<lambda>r. ap_key r \<in> ap_key ` set (db_active_task_participant db) \<or>
          ap_key r \<in> tp_key ` set (db_task_participant db)) rows, Foreign_Key_Violation)]. fst c db"
  have "sint (ap_active_shares r) > 0 \<and> ap_key r \<in> tp_key ` set (db_task_participant db)"
    if r: "r \<in> set (insert_new_active rows ?ps)" for r
  proof (cases "r \<in> set ?ps")
    case False
    then have "r \<in> set rows" "ap_key r \<notin> ap_key ` set ?ps"
      using r insert_new_active_set(2)[of rows ?ps] insert_new_active_inserted[OF r] by auto
    then show ?thesis using c by (auto simp: list_all_iff)
  qed (use ok in \<open>auto simp: tables_ok_def\<close>)
  moreover have "distinct (map ap_key (insert_new_active rows ?ps))"
    using ok by (intro insert_new_active_distinct) (simp add: tables_ok_def)
  ultimately show "tables_ok (snd (Inr (), db\<lparr>db_active_task_participant := insert_new_active rows ?ps\<rparr>))"
    using ok by (simp add: tables_ok_def)
qed

lemma changed_result_id [simp]: "tr_task_id (changed_result r old) = tr_task_id r"
  by (simp add: changed_result_def)

lemma map_update_keys:
  "(\<And>x. P x \<Longrightarrow> key (f x) = key x) \<Longrightarrow> map key (map (\<lambda>x. if P x then f x else x) xs) = map key xs"
  by (induction xs) auto

lemma image_update_keys:
  "(\<And>x. P x \<Longrightarrow> key (f x) = key x) \<Longrightarrow> key ` set (map (\<lambda>x. if P x then f x else x) xs) = key ` set xs"
  by (induction xs) auto

lemma keeps_upsert [keeps_intros]: "keeps (upsert_task_result P r)"
  unfolding keeps_def
proof (intro allI impI)
  fix db assume ok: "tables_ok db"
  let ?present = "filter (\<lambda>old. tr_task_id old = tr_task_id r) (db_task_result db)"
  let ?cs = "[(\<lambda>_ :: tables. \<forall>m \<in> set_option (tr_error_message r). text_ok m, Invalid_Text),
        (\<lambda>_. list_all task_result_check (r # map (changed_result r) ?present), Check_Violation),
        (\<lambda>db. tr_task_id r \<in> known_tasks db, Foreign_Key_Violation)]"
  have keys: "map tr_task_id (map (\<lambda>old. if tr_task_id old = tr_task_id r then changed_result r old else old)
      (db_task_result db)) = map tr_task_id (db_task_result db)"
    by (rule map_update_keys) simp
  consider v where "upsert_task_result P r db = refuse P v db"
    | "upsert_task_result P r db = (Inr (), db\<lparr>db_task_result :=
          if ?present = [] then db_task_result db @ [r]
          else map (\<lambda>old. if tr_task_id old = tr_task_id r then changed_result r old else old)
            (db_task_result db)\<rparr>)" "\<forall>c \<in> set ?cs. fst c db"
    unfolding upsert_task_result_def Let_def using checked_cases[of P ?cs _ db] by blast
  then show "tables_ok (snd (upsert_task_result P r db))"
  proof cases
    case 2
    then show ?thesis
      using ok keys by (auto simp: tables_ok_def filter_empty_conv list_all_iff simp del: map_map)
  qed (simp add: refuse_def sql_fail_def ok)
qed

lemma update_tasks_cases:
  obtains v where "update_tasks P i f db = refuse P v db"
  | "update_tasks P i f db = (Inr (map f (filter (\<lambda>r. tm_id r = i) (db_task db))),
       db\<lparr>db_task := map (\<lambda>r. if tm_id r = i then f r else r) (db_task db)\<rparr>)"
    "\<And>r. r \<in> set (db_task db) \<Longrightarrow> tm_id r = i \<Longrightarrow> task_check (f r)"
proof (cases "list_all task_check (map f (filter (\<lambda>r. tm_id r = i) (db_task db)))")
  case True
  then have "update_tasks P i f db = (Inr (map f (filter (\<lambda>r. tm_id r = i) (db_task db))),
      db\<lparr>db_task := map (\<lambda>r. if tm_id r = i then f r else r) (db_task db)\<rparr>)"
    by (simp add: update_tasks_def checked_def Let_def)
  with True show ?thesis using that(2) by (auto simp: list_all_iff)
next
  case False
  then have "update_tasks P i f db = refuse P Check_Violation db"
    by (simp add: update_tasks_def checked_def Let_def)
  then show ?thesis by (rule that(1))
qed

lemma keeps_update_tasks:
  assumes "\<And>r. tm_id (f r) = tm_id r" "\<And>r. tm_group_id (f r) = tm_group_id r"
  shows "keeps (update_tasks P i f)"
  unfolding keeps_def
proof (intro allI impI)
  fix db assume ok: "tables_ok db"
  let ?rows = "map (\<lambda>r. if tm_id r = i then f r else r) (db_task db)"
  have keys: "map tm_id ?rows = map tm_id (db_task db)" "tm_id ` set ?rows = known_tasks db"
    by (rule map_update_keys image_update_keys, simp add: assms)+
  show "tables_ok (snd (update_tasks P i f db))"
  proof (cases rule: update_tasks_cases[of P i f db])
    case 2
    then show ?thesis
      using ok keys assms by (simp add: tables_ok_def del: map_map set_map) auto
  qed (simp add: refuse_def sql_fail_def ok)
qed

lemma keeps_update_task_participants:
  assumes "\<And>r. tp_key (f r) = tp_key r" "\<And>r. tp_shares (f r) = tp_shares r"
  shows "keeps (update_task_participants i d f)"
  unfolding keeps_def
proof (intro allI impI)
  fix db assume ok: "tables_ok db"
  let ?rows = "map (\<lambda>r. if tp_task_id r = i \<and> tp_device_id r = d then f r else r) (db_task_participant db)"
  have keys: "map tp_key ?rows = map tp_key (db_task_participant db)"
    by (rule map_update_keys) (use assms in simp)
  have sets: "tp_key ` set ?rows = tp_key ` set (db_task_participant db)"
    by (rule image_update_keys) (use assms in simp)
  have "tp_task_id (f r) = tp_task_id r" "tp_device_id (f r) = tp_device_id r" for r
    using assms(1)[of r] by simp_all
  then have "\<forall>r \<in> set ?rows. sint (tp_shares r) > 0 \<and> tp_task_id r \<in> known_tasks db \<and> tp_device_id r \<in> known_devices db"
    using ok assms(2) by (auto simp: tables_ok_def)
  with ok keys sets show "tables_ok (snd (update_task_participants i d f db))"
    unfolding update_task_participants_def tables_ok_def by (simp del: map_map set_map)
qed

section \<open>Operations\<close>

lemma keeps_ops [keeps_intros]:
  "keeps (get_result P rows)" "keeps (try_into_i32 n)" "keeps (pg_get_task i)" "keeps (pg_get_group g)"
  by (auto simp: get_result_def try_into_i32_def pg_get_task_def pg_get_group_def intro!: keeps_intros split: list.splits)

lemma keeps_store_new_task [keeps_intros]: "keeps (store_new_task P i ps row)"
  unfolding store_new_task_def by (auto intro!: keeps_intros split: option.splits)

lemma keeps_writes [keeps_intros]:
  "keeps (pg_add_device P i n k c)"
  "keeps (pg_add_group P g i n th p kt cert nt)"
  "keeps (pg_create_task P ti g ps th n td req tt kt p)"
  "keeps (pg_create_group_task P ti ps th n p kt req nt)"
  "keeps (pg_set_task_decision i d a)"
  "keeps (pg_set_task_acknowledgement i d)"
  "keeps (pg_set_task_active_shares P i m)"
  "keeps (pg_set_task_result P i res)"
  "keeps (pg_set_task_group_certificates_sent P i b)"
  "keeps (pg_set_task_round P i n')"
  unfolding pg_add_device_def pg_add_group_def pg_create_task_def pg_create_group_task_def pg_set_task_decision_def
    pg_set_task_acknowledgement_def pg_set_task_active_shares_def pg_set_task_result_def
    pg_set_task_group_certificates_sent_def pg_set_task_round_def
  by (auto intro!: keeps_intros keeps_update_tasks keeps_update_task_participants split: option.splits)

lemma keeps_checked_keeps: "keeps m \<Longrightarrow> keeps (checked P cs m)"
  by (rule keeps_checked) (simp add: keeps_def)

lemma keeps_increment [keeps_intros]: "keeps (pg_increment_task_attempt_count P i)"
  unfolding pg_increment_task_attempt_count_def
  by (intro keeps_checked_keeps keeps_intros keeps_update_tasks) simp_all

end
