(* ===== verification/Active_Shares.thy ===== *)
theory Active_Shares
  imports Server_Tasks
begin

text \<open>
  Which shares take part in an accepted task: what \<^verbatim>\<open>choose_active_shares\<close> of \<^verbatim>\<open>src/state.rs\<close>
  guarantees, from the votes to the indices.
\<close>

section \<open>The devices that are connected\<close>

lemma get_device_last_activation_result:
  "\<exists>s'. get_device_last_activation D d s =
     (Inr (case ss_device_last_activations s d of Some t \<Rightarrow> t
        | None \<Rightarrow> system_time (dp_env D) (w_calls (ss_world s))), s') \<and>
   cs_repo s' = cs_repo s \<and> (ss_device_last_activations s d \<noteq> None \<longrightarrow>
     ss_device_last_activations s' = ss_device_last_activations s)"
  by (auto simp: get_device_last_activation_def get_timestamp_def env_call_def next_call_def eff_bind_def
      split: option.splits)

lemma connected_participants_result:
  "\<exists>cs s'. connected_participants D bound ps s = (Inr cs, s') \<and> mset cs \<subseteq># mset ps \<and>
     cs_repo s' = cs_repo s \<and>
     ((\<forall>p \<in> set ps. ss_device_last_activations s (part_id p) \<noteq> None) \<longrightarrow>
        cs = filter (\<lambda>p. the (ss_device_last_activations s (part_id p)) > bound) ps)"
proof (induction ps arbitrary: s)
  case (Cons p ps)
  obtain s1 where s1: "get_device_last_activation D (part_id p) s =
      (Inr (case ss_device_last_activations s (part_id p) of Some t \<Rightarrow> t
        | None \<Rightarrow> system_time (dp_env D) (w_calls (ss_world s))), s1)"
    "cs_repo s1 = cs_repo s" "ss_device_last_activations s (part_id p) \<noteq> None \<longrightarrow>
     ss_device_last_activations s1 = ss_device_last_activations s"
    using get_device_last_activation_result[of D "part_id p" s] by blast
  obtain cs s2 where s2: "connected_participants D bound ps s1 = (Inr cs, s2)" "mset cs \<subseteq># mset ps"
    "cs_repo s2 = cs_repo s1"
    "(\<forall>p \<in> set ps. ss_device_last_activations s1 (part_id p) \<noteq> None) \<longrightarrow>
        cs = filter (\<lambda>p. the (ss_device_last_activations s1 (part_id p)) > bound) ps"
    using Cons.IH[of s1] by blast
  have "mset cs \<subseteq># add_mset p (mset ps)"
    using s2(2) by (rule subset_mset.order_trans) simp
  with s1 s2 show ?case
    by (cases "ss_device_last_activations s (part_id p)") (auto simp: eff_bind_def eff_return_def)
qed (simp add: eff_return_def)

section \<open>The shares that can be chosen\<close>

lemma share_devices_mono:
  assumes "mset ps \<subseteq># mset qs"
  shows "mset (share_devices ps) \<subseteq># mset (share_devices qs)"
proof -
  have sum: "mset (share_devices ps) = (\<Sum>p \<in># mset ps. mset (replicate (unat (part_shares p)) (part_device p)))"
    for ps by (induction ps) (auto simp: share_devices_def)
  from assms obtain M where "mset qs = mset ps + M" by (metis mset_subset_eq_exists_conv)
  then show ?thesis by (simp add: sum)
qed

lemma length_share_devices: "length (share_devices ps) = share_sum ps"
  by (simp add: share_devices_def share_sum_def length_concat comp_def)

lemma share_sum_mono: "mset ps \<subseteq># mset qs \<Longrightarrow> share_sum ps \<le> share_sum qs"
  using share_devices_mono[of ps qs] size_mset_mono by (metis length_share_devices size_mset)

lemma share_sum_filter:
  "share_sum (filter P ps) = (\<Sum>p\<leftarrow>ps. if P p then unat (part_shares p) else 0)"
  by (induction ps) (auto simp: share_sum_def)

abbreviation accepting :: "voting_task \<Rightarrow> participant list" where
  "accepting v \<equiv> filter (\<lambda>p. device_accepted v (part_id p)) (ti_participants (vt_task_info v))"

text \<open>The candidates hold enough shares whichever way they are picked.\<close>

lemma candidates_suffice:
  assumes v: "votes_ok v" "unat (vt_accept_threshold v) \<le> shares_for v"
    and c: "mset connected \<subseteq># mset (accepting v)"
    and k: "candidates = (if sum_list (map part_shares connected) \<ge> vt_accept_threshold v
               then connected else (accepting v))"
  shows "mset candidates \<subseteq># mset (accepting v)" "unat (vt_accept_threshold v) \<le> share_sum candidates"
    "unat (vt_accept_threshold v) \<le> share_sum connected \<Longrightarrow> candidates = connected"
proof -
  have acc: "mset (accepting v) \<subseteq># mset (ti_participants (vt_task_info v))" by (simp add: mset_filter)
  then have "share_sum connected < 2 ^ 32"
    using votes_okD(3)[OF v(1)] share_sum_mono[OF c] share_sum_mono[OF acc] by linarith
  then have u: "unat (sum_list (map part_shares connected)) = share_sum connected"
    by (simp add: share_sum_def unat_sum_list)
  have "share_sum (accepting v) = shares_for v" by (simp add: share_sum_filter shares_for_def)
  with u v(2) k show "unat (vt_accept_threshold v) \<le> share_sum candidates"
    by (auto simp: word_le_nat_alt)
  show "mset candidates \<subseteq># mset (accepting v)" using c k by auto
  show "unat (vt_accept_threshold v) \<le> share_sum connected \<Longrightarrow> candidates = connected"
    using k u by (simp add: word_le_nat_alt)
qed


section \<open>The choice\<close>

lemma chosen_shares_ok:
  assumes "choose_multiple_ok E" "votes_ok v" "mset candidates \<subseteq># mset (accepting v)"
    and "unat (vt_accept_threshold v) \<le> share_sum candidates"
    and "chosen = choose_multiple E n (share_devices candidates) (unat (vt_accept_threshold v))"
  shows "length chosen = unat (vt_accept_threshold v)" "shares_of (ti_participants (vt_task_info v)) chosen"
    "set chosen \<subseteq> part_device ` set candidates" "\<forall>d \<in> set chosen. device_accepted v (dev_id d)"
proof -
  have ch: "mset chosen \<subseteq># mset (share_devices candidates)"
    "length chosen = min (unat (vt_accept_threshold v)) (share_sum candidates)"
    using assms(1,5) by (auto simp: choose_multiple_ok_def length_share_devices)
  then show "length chosen = unat (vt_accept_threshold v)" using assms(4) by simp
  have "set chosen \<subseteq> set (share_devices candidates)" using ch(1) by (metis set_mset_mono set_mset_mset)
  then show d: "set chosen \<subseteq> part_device ` set candidates" by (auto simp: share_devices_def)
  have "set candidates \<subseteq> set (accepting v)" using assms(3) by (metis set_mset_mono set_mset_mset)
  with d show "\<forall>d \<in> set chosen. device_accepted v (dev_id d)" by auto
  have "mset candidates \<subseteq># mset (ti_participants (vt_task_info v))"
    using assms(3) by (metis mset_filter multiset_filter_subset subset_mset.order_trans)
  with ch(1) show "shares_of (ti_participants (vt_task_info v)) chosen"
    using votes_okD(1,3)[OF assms(2)] share_devices_mono subset_mset.order_trans
    unfolding shares_of_def by blast
qed

text \<open>The accepting participants that were active in the last five seconds, when the activity of all is known.\<close>

definition activations_known :: "('r, 'tx) server_state \<Rightarrow> voting_task \<Rightarrow> bool" where
  "activations_known s v = (\<forall>p \<in> set (accepting v). ss_device_last_activations s (part_id p) \<noteq> None)"

definition recently_active :: "('r, 'tx) deps \<Rightarrow> ('r, 'tx) server_state \<Rightarrow> voting_task \<Rightarrow> participant list" where
  "recently_active D s v = filter (\<lambda>p. the (ss_device_last_activations s (part_id p)) >
     system_time (dp_env D) (w_calls (ss_world s)) - 5) (accepting v)"

text \<open>The database refuses to store shares, or has taken the number of chosen shares of each device.\<close>

definition store_fails :: "('r, 'tx) deps \<Rightarrow> voting_task \<Rightarrow> ('r, 'tx) server_state \<Rightarrow> persistence_error \<Rightarrow> bool" where
  "store_fails D v s e = (\<exists>shares. fst (repo_set_task_active_shares (dp_repo D) (ti_id (vt_task_info v))
     shares (cs_repo s)) = Inl e)"

definition shares_stored :: "('r, 'tx) deps \<Rightarrow> voting_task \<Rightarrow> ('r, 'tx) server_state \<Rightarrow> device list \<Rightarrow> 'r \<Rightarrow> bool" where
  "shares_stored D v s chosen repo = (repo_set_task_active_shares (dp_repo D) (ti_id (vt_task_info v))
     (count_shares chosen) (cs_repo s) = (Inr (), repo))"

lemma choose_active_shares_cases:
  assumes E: "choose_multiple_ok (dp_env D)" and v: "votes_ok v" "unat (vt_accept_threshold v) \<le> shares_for v"
    and r: "choose_active_shares D v s = (r, s')"
  shows "\<exists>chosen. length chosen = unat (vt_accept_threshold v) \<and>
    shares_of (ti_participants (vt_task_info v)) chosen \<and> (\<forall>d \<in> set chosen. device_accepted v (dev_id d)) \<and>
    (activations_known s v \<and> unat (vt_accept_threshold v) \<le> share_sum (recently_active D s v) \<longrightarrow>
       set chosen \<subseteq> part_device ` set (recently_active D s v)) \<and>
    ((\<exists>e. r = Inl (Err (PersistenceError e)) \<and> store_fails D v s e) \<or>
     r = index_shares (ti_participants (vt_task_info v)) chosen \<and> shares_stored D v s chosen (cs_repo s'))"
proof -
  let ?now = "system_time (dp_env D) (w_calls (ss_world s))"
  define s1 where "s1 = s\<lparr>ss_world := snd (next_call (ss_world s))\<rparr>"
  have now: "get_timestamp D s = (Inr ?now, s1)"
    by (simp add: get_timestamp_def env_call_def next_call_def s1_def)
  obtain cs s2 where c: "connected_participants D (?now - 5) (accepting v) s1 = (Inr cs, s2)"
    "mset cs \<subseteq># mset (accepting v)" "cs_repo s2 = cs_repo s1"
    "(\<forall>p \<in> set (accepting v). ss_device_last_activations s1 (part_id p) \<noteq> None) \<longrightarrow>
        cs = filter (\<lambda>p. the (ss_device_last_activations s1 (part_id p)) > ?now - 5) (accepting v)"
    using connected_participants_result[of D "?now - 5" "accepting v" s1] by blast
  define candidates where
    "candidates = (if sum_list (map part_shares cs) \<ge> vt_accept_threshold v then cs else accepting v)"
  note k = candidates_suffice[OF v c(2) candidates_def]
  define chosen where "chosen = choose_multiple (dp_env D) (w_calls (ss_world s2)) (share_devices candidates)
    (unat (vt_accept_threshold v))"
  note ok = chosen_shares_ok[OF E v(1) k(1,2) chosen_def]
  define s3 where "s3 = s2\<lparr>ss_world := snd (next_call (ss_world s2))\<rparr>"
  have pick: "env_call (\<lambda>n. choose_multiple (dp_env D) n (share_devices candidates)
      (unat (vt_accept_threshold v))) s2 = (Inr chosen, s3)"
    by (simp add: env_call_def next_call_def chosen_def s3_def)
  have "choose_active_shares D v s = eff_bind (call_repo (repo_set_task_active_shares (dp_repo D)
      (ti_id (vt_task_info v)) (count_shares chosen)))
      (\<lambda>_. eff_lift (index_shares (ti_participants (vt_task_info v)) chosen)) s3"
    unfolding choose_active_shares_def Let_def
    by (subst eff_bind_def, simp only: now prod.case sum.case,
        subst eff_bind_def, simp only: c(1) prod.case sum.case candidates_def[symmetric],
        subst eff_bind_def, simp only: pick prod.case sum.case)
  moreover have "cs_repo s3 = cs_repo s" using c(3) by (simp add: s3_def s1_def)
  ultimately have "(\<exists>e. r = Inl (Err (PersistenceError e)) \<and> store_fails D v s e) \<or>
     r = index_shares (ti_participants (vt_task_info v)) chosen \<and> shares_stored D v s chosen (cs_repo s')"
    using r by (cases "repo_set_task_active_shares (dp_repo D) (ti_id (vt_task_info v)) (count_shares chosen) (cs_repo s)";
        cases "fst (repo_set_task_active_shares (dp_repo D) (ti_id (vt_task_info v)) (count_shares chosen) (cs_repo s))")
      (auto simp: eff_bind_def call_repo_def eff_lift_def shares_stored_def store_fails_def
        intro: exI[of _ "count_shares chosen"])
  moreover have "candidates = recently_active D s v"
    if "activations_known s v" "unat (vt_accept_threshold v) \<le> share_sum (recently_active D s v)"
    using that c(4) k(3) by (simp add: activations_known_def recently_active_def s1_def del: filter_filter)
  ultimately show ?thesis using ok by (intro exI[of _ chosen]) auto
qed

section \<open>Properties\<close>

text \<open>A signing task that the device with three shares has accepted.\<close>

definition sample_accepted :: voting_task where
  "sample_accepted = sample_voting\<lparr>vt_decisions := [([7], 3), ([5], - 1)]\<rparr>"

lemma sample_accepted_ok: "votes_ok sample_accepted" "unat (vt_accept_threshold sample_accepted) \<le> shares_for sample_accepted"
  by (simp_all add: sample_accepted_def sample_voting_defs votes_ok_def participants_ok_def share_sum_def
      shares_for_def device_accepted_def)

text \<open>C10. Choosing the active shares of an accepted task yields a complete set of parties: exactly as many
  shares as the threshold asks for, under distinct indices, no device with more than it has, and only
  devices that accepted the task. If the activity of the accepting devices is known and those active in
  the last five seconds hold enough shares, only they are chosen. The number of shares of each chosen
  device is in the database when the choice is returned, and the only way to fail is that the
  database refuses to store it.\<close>

theorem accepting_devices_fill_the_threshold:
  assumes "choose_multiple_ok (dp_env D)" "votes_ok v" "unat (vt_accept_threshold v) \<le> shares_for v"
    and "choose_active_shares D v s = (r, s')"
  shows "(\<exists>e. r = Inl (Err (PersistenceError e)) \<and> store_fails D v s e) \<or>
    (\<exists>active. r = Inr active \<and> hm_wf active \<and> length active = unat (vt_accept_threshold v) \<and>
       shares_of (ti_participants (vt_task_info v)) (map snd active) \<and>
       (\<forall>d \<in> snd ` set active. device_accepted v (dev_id d)) \<and>
       (activations_known s v \<and> unat (vt_accept_threshold v) \<le> share_sum (recently_active D s v) \<longrightarrow>
          snd ` set active \<subseteq> part_device ` set (recently_active D s v)) \<and>
       shares_stored D v s (map snd active) (cs_repo s'))"
proof -
  obtain chosen where c: "length chosen = unat (vt_accept_threshold v)"
    "shares_of (ti_participants (vt_task_info v)) chosen" "\<forall>d \<in> set chosen. device_accepted v (dev_id d)"
    "activations_known s v \<and> unat (vt_accept_threshold v) \<le> share_sum (recently_active D s v) \<longrightarrow>
       set chosen \<subseteq> part_device ` set (recently_active D s v)"
    "(\<exists>e. r = Inl (Err (PersistenceError e)) \<and> store_fails D v s e) \<or>
     r = index_shares (ti_participants (vt_task_info v)) chosen \<and> shares_stored D v s chosen (cs_repo s')"
    using choose_active_shares_cases[OF assms] by blast
  obtain active where a: "index_shares (ti_participants (vt_task_info v)) chosen = Inr active" "hm_wf active"
    "map snd active = chosen"
    using index_shares_indexes[OF c(2)] by (auto simp: indexes_def)
  have "length active = length chosen" "snd ` set active = set chosen"
    using arg_cong[OF a(3), of length] arg_cong[OF a(3), of set] by simp_all
  with c(1,3,4) a(2) have fill: "hm_wf active" "length active = unat (vt_accept_threshold v)"
    "\<forall>d \<in> snd ` set active. device_accepted v (dev_id d)"
    "activations_known s v \<and> unat (vt_accept_threshold v) \<le> share_sum (recently_active D s v) \<longrightarrow>
       snd ` set active \<subseteq> part_device ` set (recently_active D s v)" by simp_all
  from c(5) show ?thesis
  proof
    assume "r = index_shares (ti_participants (vt_task_info v)) chosen \<and> shares_stored D v s chosen (cs_repo s')"
    with a(1,3) fill c(2) show ?thesis by (intro disjI2 exI[of _ active]) (simp only: simp_thms)
  qed (rule disjI1)
qed

theorem accepting_devices_fill_the_threshold_witness:
  "\<exists>active s'. choose_active_shares sample_deps sample_accepted (sample_server (Voting_Task sample_accepted)) =
     (Inr active, s') \<and> length active = 2"
proof -
  obtain r s' where c: "choose_active_shares sample_deps sample_accepted
      (sample_server (Voting_Task sample_accepted)) = (r, s')" by fastforce
  have "\<not> store_fails sample_deps sample_accepted (sample_server (Voting_Task sample_accepted)) e" for e
    by (simp add: store_fails_def sample_deps_def sample_repo_def)
  then show ?thesis
    using accepting_devices_fill_the_threshold[OF _ sample_accepted_ok c] c
    by (auto simp: sample_deps_def sample_env_choose_ok sample_accepted_def sample_voting_def)
qed

end
