(* ===== verification/Stored_Tasks.thy ===== *)
theory Stored_Tasks
  imports Active_Shares
begin

text \<open>
  What the server relies on the database for: the record it keeps of each task, as an
  interface with the laws of reading and writing it, and what follows for a server that is restarted:
  the voting task in memory and the record in the database stay in step, and the task read back from the
  record is the one that was voted on.
\<close>

section \<open>The record of a task\<close>

record stored_task =
  sd_model :: task_model
  sd_participants :: "participant list"
  sd_decision :: "bytes \<rightharpoonup> bool"
  sd_acknowledged :: "bytes set"
  sd_active :: "bytes \<rightharpoonup> u32"

definition recorded_vote :: "bool option \<Rightarrow> u32 \<Rightarrow> i8" where
  "recorded_vote decision shares =
     (case decision of None \<Rightarrow> 0 | Some accept \<Rightarrow> if accept then ucast shares else - ucast shares)"

definition recorded_votes :: "stored_task \<Rightarrow> (bytes, i8) hashmap" where
  "recorded_votes d =
     map (\<lambda>p. (part_id p, recorded_vote (sd_decision d (part_id p)) (part_shares p))) (sd_participants d)"

text \<open>The changes of a record, and a record that is new.\<close>

definition record_decision :: "bytes \<Rightarrow> bool \<Rightarrow> stored_task \<Rightarrow> stored_task" where
  "record_decision device_id accept d =
     (if device_id \<in> part_id ` set (sd_participants d)
      then d\<lparr>sd_decision := (sd_decision d)(device_id \<mapsto> accept)\<rparr> else d)"

definition record_active :: "(bytes, u32) hashmap \<Rightarrow> stored_task \<Rightarrow> stored_task" where
  "record_active shares d = d\<lparr>sd_active := map_of shares ++ sd_active d\<rparr>"

definition new_record :: "task_model \<Rightarrow> participant list \<Rightarrow> stored_task" where
  "new_record model participants = \<lparr>sd_model = model, sd_participants = participants,
     sd_decision = Map.empty, sd_acknowledged = {}, sd_active = Map.empty\<rparr>"

definition group_model ::
    "uuid \<Rightarrow> u32 \<Rightarrow> string \<Rightarrow> protocol_type \<Rightarrow> key_type \<Rightarrow> bytes \<Rightarrow> string option \<Rightarrow> task_model" where
  "group_model task_id threshold name protocol_type key_type request note =
     \<lparr>tm_id = task_id, tm_protocol_round = 0, tm_attempt_count = 0, tm_threshold = threshold, tm_name = name,
      tm_task_data = None, tm_preprocessed = None, tm_request = request, tm_group_id = None,
      tm_task_type = TT_Group, tm_task_state = Created, tm_key_type = key_type,
      tm_protocol_type = protocol_type, tm_note = note, tm_group_certificates_sent = Some False,
      tm_result = None\<rparr>"

definition threshold_model ::
    "uuid \<Rightarrow> bytes \<Rightarrow> u32 \<Rightarrow> string \<Rightarrow> bytes \<Rightarrow> bytes \<Rightarrow> task_type \<Rightarrow> key_type \<Rightarrow> protocol_type \<Rightarrow> task_model" where
  "threshold_model task_id group_id threshold name task_data request task_type key_type protocol_type =
     \<lparr>tm_id = task_id, tm_protocol_round = 0, tm_attempt_count = 0, tm_threshold = threshold, tm_name = name,
      tm_task_data = Some task_data, tm_preprocessed = None, tm_request = request,
      tm_group_id = Some group_id, tm_task_type = task_type, tm_task_state = Created,
      tm_key_type = key_type, tm_protocol_type = protocol_type, tm_note = None,
      tm_group_certificates_sent = None, tm_result = None\<rparr>"

section \<open>A record that is in step with a voting task\<close>

definition threshold_stored :: "task_model \<Rightarrow> voting_task \<Rightarrow> task_type \<Rightarrow> group \<Rightarrow> bytes \<Rightarrow> bool" where
  "threshold_stored model v task_type grp data =
     (tm_task_type model = task_type \<and> tm_group_id model = Some (grp_id grp) \<and> tm_task_data model = Some data \<and>
      tm_threshold model = grp_threshold grp \<and> vt_accept_threshold v = grp_threshold grp)"

definition context_stored :: "task_model \<Rightarrow> voting_task \<Rightarrow> bool" where
  "context_stored model v =
     (case vt_running_task_context v of
        Ctx_Group threshold note \<Rightarrow> tm_task_type model = TT_Group \<and> tm_threshold model = threshold \<and>
          tm_note model = note \<and> vt_accept_threshold v = total_shares (vt_task_info v)
      | Ctx_SignChallenge grp data \<Rightarrow> threshold_stored model v TT_SignChallenge grp data
      | Ctx_SignPdf grp data \<Rightarrow> threshold_stored model v TT_SignPdf grp data
      | Ctx_Decrypt grp data \<Rightarrow> threshold_stored model v TT_Decrypt grp data)"

definition vote_in :: "voting_task \<Rightarrow> bytes \<Rightarrow> i8" where
  "vote_in v device_id = (case map_of (vt_decisions v) device_id of None \<Rightarrow> 0 | Some vote \<Rightarrow> vote)"

definition tracks :: "stored_task \<Rightarrow> voting_task \<Rightarrow> bool" where
  "tracks d v =
     (tm_result (sd_model d) = None \<and>
      task_info_of_model (sd_model d) (ti_participants (vt_task_info v)) = (vt_task_info v)\<lparr>ti_observers := []\<rparr> \<and>
      mset (sd_participants d) = mset (ti_participants (vt_task_info v)) \<and> context_stored (sd_model d) v \<and>
      (\<forall>p \<in> set (ti_participants (vt_task_info v)).
         recorded_vote (sd_decision d (part_id p)) (part_shares p) = vote_in v (part_id p)))"

fun context_group :: "running_task_context \<Rightarrow> group option" where
  "context_group (Ctx_Group _ _) = None"
| "context_group (Ctx_SignChallenge grp _) = Some grp"
| "context_group (Ctx_SignPdf grp _) = Some grp"
| "context_group (Ctx_Decrypt grp _) = Some grp"

text \<open>The database knows a voting task: it has a record in step with it, and the group that is to do the task.\<close>

definition tracked ::
    "('r \<Rightarrow> bool) \<Rightarrow> ('r \<Rightarrow> uuid \<Rightarrow> stored_task option) \<Rightarrow> ('r \<Rightarrow> bytes \<Rightarrow> group option) \<Rightarrow>
     'r \<Rightarrow> voting_task \<Rightarrow> bool" where
  "tracked ok stored groups r v =
     (ok r \<and> (\<exists>d. stored r (ti_id (vt_task_info v)) = Some d \<and> tracks d v) \<and>
      (\<forall>grp. context_group (vt_running_task_context v) = Some grp \<longrightarrow> groups r (grp_id grp) = Some grp))"

text \<open>The same task at the same point of the vote; only its observers may be gone.\<close>

definition same_voting :: "voting_task \<Rightarrow> voting_task \<Rightarrow> bool" where
  "same_voting v v' =
     (mset (ti_participants (vt_task_info v')) = mset (ti_participants (vt_task_info v)) \<and>
      vt_task_info v' = (vt_task_info v)\<lparr>ti_participants := ti_participants (vt_task_info v'), ti_observers := []\<rparr> \<and>
      vt_accept_threshold v' = vt_accept_threshold v \<and>
      vt_running_task_context v' = vt_running_task_context v \<and>
      (\<forall>p \<in> set (ti_participants (vt_task_info v)). vote_in v' (part_id p) = vote_in v (part_id p)))"

lemma vote_in_decides:
  "device_accepted v d \<longleftrightarrow> sint (vote_in v d) > 0" "device_rejected v d \<longleftrightarrow> sint (vote_in v d) < 0"
  by (auto simp: device_accepted_def device_rejected_def vote_in_def split: option.splits)

lemma same_voting_shares:
  assumes "same_voting v v'"
  shows "shares_for v' = shares_for v" "shares_against v' = shares_against v"
proof -
  let ?ps = "ti_participants (vt_task_info v)" and ?qs = "ti_participants (vt_task_info v')"
  have m: "mset ?qs = mset ?ps" and votes: "\<And>p. p \<in> set ?ps \<Longrightarrow> vote_in v' (part_id p) = vote_in v (part_id p)"
    using assms by (auto simp: same_voting_def)
  have "shares_for v' = (\<Sum>p\<leftarrow>?ps. if device_accepted v' (part_id p) then unat (part_shares p) else 0)"
    unfolding shares_for_def using m by (rule sum_list_order)
  also have "\<dots> = shares_for v"
    unfolding shares_for_def using votes
    by (intro arg_cong[where f = sum_list] map_cong) (simp_all add: vote_in_decides)
  finally show "shares_for v' = shares_for v" .
  have "shares_against v' = (\<Sum>p\<leftarrow>?ps. if device_rejected v' (part_id p) then unat (part_shares p) else 0)"
    unfolding shares_against_def using m by (rule sum_list_order)
  also have "\<dots> = shares_against v"
    unfolding shares_against_def using votes
    by (intro arg_cong[where f = sum_list] map_cong) (simp_all add: vote_in_decides)
  finally show "shares_against v' = shares_against v" .
qed

section \<open>Decisions keep the record in step\<close>

lemma tracks_participants:
  "tracks d v \<Longrightarrow> set (sd_participants d) = set (ti_participants (vt_task_info v))"
  by (auto simp: tracks_def dest: mset_eq_setD)

lemma record_decision_tracks:
  assumes "tracks d v" "votes_ok v" "decide v device_id accept = (Inr u, v')"
  shows "tracks (record_decision device_id accept d) v'"
proof -
  let ?ps = "ti_participants (vt_task_info v)"
  note f = decide_frame[OF assms(3)]
  obtain p where find: "find (\<lambda>p. part_id p = device_id) ?ps = Some p"
    using assms(3) by (auto simp: decide_def split: option.splits)
  then have p: "p \<in> set ?ps" "part_id p = device_id" by (auto simp: find_Some_iff)
  have uniq: "q = p" if "q \<in> set ?ps" "part_id q = device_id" for q
    using that p votes_okD(1)[OF assms(2)] by (auto simp: distinct_map dest: inj_onD)
  have v': "vt_decisions v' = hm_insert device_id (if accept then ucast (part_shares p) else - ucast (part_shares p))
      (vt_decisions v)"
    using assms(3) find by (auto simp: decide_def Let_def split: prod.splits)
  have "recorded_vote (sd_decision (record_decision device_id accept d) (part_id q)) (part_shares q) =
      vote_in v' (part_id q)" if q: "q \<in> set ?ps" for q
  proof (cases "part_id q = device_id")
    case True
    with uniq[OF q] have "q = p" by simp
    moreover have "device_id \<in> part_id ` set (sd_participants d)"
      using p tracks_participants[OF assms(1)] by force
    ultimately show ?thesis using p by (simp add: record_decision_def recorded_vote_def vote_in_def v')
  next
    case False
    with q assms(1) show ?thesis by (auto simp: tracks_def record_decision_def vote_in_def v')
  qed
  moreover have "sd_model (record_decision device_id accept d) = sd_model d"
    "sd_participants (record_decision device_id accept d) = sd_participants d"
    by (simp_all add: record_decision_def)
  ultimately show ?thesis
    using assms(1) f by (auto simp: tracks_def context_stored_def threshold_stored_def split: running_task_context.splits)
qed

section \<open>Reading the votes back\<close>

text \<open>The votes a record gives, whichever order the database returns them in.\<close>

lemma recorded_votes_wf:
  assumes "tracks d v" "votes_ok v" "mset m = mset (recorded_votes d)"
  shows "hm_wf m" "\<And>p. p \<in> set (ti_participants (vt_task_info v)) \<Longrightarrow> map_of m (part_id p) = Some (vote_in v (part_id p))"
proof -
  let ?ps = "ti_participants (vt_task_info v)"
  have ms: "mset (sd_participants d) = mset ?ps" using assms(1) by (simp add: tracks_def)
  have "mset (map fst m) = mset (map part_id ?ps)"
    using arg_cong[OF assms(3), of "image_mset fst"] arg_cong[OF ms, of "image_mset part_id"]
    by (simp add: recorded_votes_def comp_def multiset.map_comp)
  then show wf: "hm_wf m"
    using votes_okD(1)[OF assms(2)] by (metis mset_eq_imp_distinct_iff)
  fix p assume p: "p \<in> set ?ps"
  then have "(part_id p, vote_in v (part_id p)) \<in> set (recorded_votes d)"
    using assms(1) tracks_participants[OF assms(1)]
    by (force simp: recorded_votes_def tracks_def)
  with assms(3) wf show "map_of m (part_id p) = Some (vote_in v (part_id p))"
    by (metis map_of_is_SomeI set_mset_mset)
qed

lemma recorded_votes_count:
  assumes "tracks d v" "votes_ok v" "mset m = mset (recorded_votes d)"
  shows "unat (fst (accepts_rejects m)) = shares_for v"
proof -
  let ?ps = "ti_participants (vt_task_info v)" and ?w = "v\<lparr>vt_decisions := m\<rparr>"
  note m = recorded_votes_wf[OF assms]
  have keys: "hm_keys m = part_id ` set ?ps"
    using arg_cong[OF assms(3), of set_mset] tracks_participants[OF assms(1)]
    by (force simp: recorded_votes_def)
  have "\<exists>p \<in> set ?ps. part_id p = k \<and> x \<in> {0, ucast (part_shares p), - ucast (part_shares p)}"
    if kx: "(k, x) \<in> set m" for k x
  proof -
    have "k \<in> hm_keys m" using kx by force
    then obtain p where p: "p \<in> set ?ps" "part_id p = k" using keys by auto
    have "x = vote_in v k" using kx m(1) m(2)[OF p(1)] p(2) by (auto dest: map_of_is_SomeI)
    moreover have "recorded_vote (sd_decision d k) (part_shares p) = vote_in v k"
      using assms(1) p by (auto simp: tracks_def)
    ultimately show ?thesis using p by (auto simp: recorded_vote_def split: option.splits if_splits)
  qed
  with assms(2) m(1) have ok: "votes_ok ?w" by (auto simp: votes_ok_def)
  have "device_accepted ?w (part_id p) = device_accepted v (part_id p)" if "p \<in> set ?ps" for p
    using m(2)[OF that] by (simp add: vote_in_decides) (simp add: vote_in_def)
  then have same: "shares_for ?w = shares_for v"
    unfolding shares_for_def by (intro arg_cong[where f = sum_list] map_cong) simp_all
  have "shares_for ?w < 2 ^ 32" "shares_against ?w < 2 ^ 32"
    using shares_for_against_bound[of ?w] votes_okD(3)[OF ok] by linarith+
  then show ?thesis
    using accepts_rejects_weight[of m "fst (accepts_rejects m)" "snd (accepts_rejects m)"] accept_weight_shares[OF ok]
      reject_weight_shares[OF ok] same by simp
qed

lemma count_shares_wf: "hm_wf (count_shares ds)"
proof -
  have "hm_wf (fold (\<lambda>d. hm_bump (dev_id d)) ds m)" if "hm_wf m" for m :: "(bytes, u32) hashmap"
    using that by (induction ds arbitrary: m) (auto simp: hm_bump_def)
  then show ?thesis by (simp add: count_shares_def)
qed

section \<open>The interface of the database\<close>

text \<open>
  Votes that come one after the other while none decides the task, as the voting task takes them and as
  the server does.
\<close>

fun votes_taken :: "voting_task \<Rightarrow> (bytes \<times> bool) list \<Rightarrow> voting_task option" where
  "votes_taken v [] = Some v"
| "votes_taken v ((device_id, accept) # votes) =
     (case decide v device_id accept of (Inr Undecided, v') \<Rightarrow> votes_taken v' votes | _ \<Rightarrow> None)"

fun take_votes :: "('r, 'tx) deps \<Rightarrow> uuid \<Rightarrow> (bytes \<times> bool) list \<Rightarrow> ('r, 'tx, unit) handler" where
  "take_votes D task_id [] = eff_return ()"
| "take_votes D task_id ((device_id, accept) # votes) =
     eff_bind (decide_task D task_id device_id accept) (\<lambda>_. take_votes D task_id votes)"

lemma undecided_below:
  assumes "votes_ok v" "decide v device_id accept = (Inr Undecided, v')"
  shows "shares_for v' < unat (vt_accept_threshold v')"
proof -
  let ?ps = "ti_participants (vt_task_info v)"
  have "find (\<lambda>p. part_id p = device_id) ?ps \<noteq> None"
    using assms(2) by (cases "find (\<lambda>p. part_id p = device_id) ?ps") (simp_all add: decide_def)
  then have "device_id \<in> part_id ` set ?ps" unfolding find_None_iff by blast
  then obtain a b where "unat a = shares_for v'" "Inr Undecided = Inr (if a \<ge> vt_accept_threshold v' then Accepted
       else if b \<ge> reject_threshold v' then
         Decision_Declined \<lparr>dt_task_info = vt_task_info v', dt_accepts = a, dt_rejects = b\<rparr>
       else Undecided)"
    using decide_classifies[OF assms(1) _ assms(2)] by blast
  then show ?thesis by (auto simp: word_le_nat_alt not_le split: if_splits)
qed

text \<open>A voting task as the server creates it: nobody has voted and its context says what it is.\<close>

definition new_voting :: "voting_task \<Rightarrow> bool" where
  "new_voting v =
     (vt_decisions v = [] \<and> ti_attempts (vt_task_info v) = 0 \<and>
      (case vt_running_task_context v of
         Ctx_Group _ _ \<Rightarrow> ti_task_type (vt_task_info v) = TT_Group \<and> vt_accept_threshold v = total_shares (vt_task_info v)
       | Ctx_SignChallenge grp _ \<Rightarrow> ti_task_type (vt_task_info v) = TT_SignChallenge \<and> vt_accept_threshold v = grp_threshold grp
       | Ctx_SignPdf grp _ \<Rightarrow> ti_task_type (vt_task_info v) = TT_SignPdf \<and> vt_accept_threshold v = grp_threshold grp
       | Ctx_Decrypt grp _ \<Rightarrow> ti_task_type (vt_task_info v) = TT_Decrypt \<and> vt_accept_threshold v = grp_threshold grp))"

definition new_participants :: "(bytes \<Rightarrow> device option) \<Rightarrow> (bytes \<times> u32) list \<Rightarrow> participant list \<Rightarrow> bool" where
  "new_participants devices ids_shares ps =
     (mset (map (\<lambda>p. (part_id p, part_shares p)) ps) = mset ids_shares \<and>
      (\<forall>p \<in> set ps. devices (part_id p) = Some (part_device p)))"

locale task_database =
  fixes R :: "'r repository" and ok :: "'r \<Rightarrow> bool"
    and stored :: "'r \<Rightarrow> uuid \<Rightarrow> stored_task option" and groups :: "'r \<Rightarrow> bytes \<Rightarrow> group option"
    and devices :: "'r \<Rightarrow> bytes \<Rightarrow> device option"
  assumes read_models: "ok r \<Longrightarrow> repo_get_task_models R [i] r =
      (Inr (case stored r i of None \<Rightarrow> [] | Some d \<Rightarrow> [sd_model d]), r)"
    and read_nothing: "ok r \<Longrightarrow> repo_get_task_models R [] r = (Inr [], r)"
      "ok r \<Longrightarrow> repo_get_tasks_participants R [] r = (Inr [], r)"
    and read_participants: "ok r \<Longrightarrow> stored r i = Some d \<Longrightarrow>
      \<exists>ps. repo_get_tasks_participants R [i] r = (Inr (map (Pair i) ps), r) \<and> mset ps = mset (sd_participants d)"
    and read_decisions: "ok r \<Longrightarrow> stored r i = Some d \<Longrightarrow>
      \<exists>m. repo_get_task_decisions R i r = (Inr m, r) \<and> mset m = mset (recorded_votes d)"
    and read_group: "ok r \<Longrightarrow> repo_get_group R g r = (Inr (groups r g), r)"
    and read_active: "ok r \<Longrightarrow> stored r i = Some d \<Longrightarrow>
      \<exists>m. repo_get_task_active_shares R i r = (Inr m, r) \<and> hm_wf m \<and> map_of m = sd_active d"
    and stored_id: "ok r \<Longrightarrow> stored r i = Some d \<Longrightarrow> tm_id (sd_model d) = i"
    and write_decision: "ok r \<Longrightarrow> \<exists>r'. repo_set_task_decision R i b accept r = (Inr (), r') \<and> ok r' \<and>
      groups r' = groups r \<and> devices r' = devices r \<and>
      stored r' = (stored r)(i := map_option (record_decision b accept) (stored r i))"
    and write_active: "ok r \<Longrightarrow> repo_set_task_active_shares R i m r = (Inr (), r') \<Longrightarrow> hm_wf m \<Longrightarrow> ok r' \<and>
      groups r' = groups r \<and> devices r' = devices r \<and>
      stored r' = (stored r)(i := map_option (record_active m) (stored r i))"
    and create_group: "ok r \<Longrightarrow> repo_create_group_task R (Some i) ids_shares threshold name pt kt request note r = (Inr x, r') \<Longrightarrow>
      ok r' \<and> groups r' = groups r \<and> devices r' = devices r \<and>
      (\<exists>ps. new_participants (devices r) ids_shares ps \<and>
         stored r' = (stored r)(i \<mapsto> new_record (group_model i threshold name pt kt request note) ps))"
    and create_threshold: "ok r \<Longrightarrow>
      repo_create_threshold_task R (Some i) g ids_shares threshold name data request tt kt pt r = (Inr x, r') \<Longrightarrow>
      ok r' \<and> groups r' = groups r \<and> devices r' = devices r \<and>
      (\<exists>ps. new_participants (devices r) ids_shares ps \<and>
         stored r' = (stored r)(i \<mapsto> new_record (threshold_model i g threshold name data request tt kt pt) ps))"
begin

abbreviation in_step :: "'r \<Rightarrow> voting_task \<Rightarrow> bool" where
  "in_step \<equiv> tracked ok stored groups"

lemma cached_get:
  assumes "ok (cs_repo s)" "cs_task_cache s i = Some t"
  shows "get_task E R i s = (Inr t, s)"
  using assms read_nothing
  by (simp add: get_task_def ensure_cached_tasks_def hydrate_tasks_def eff_bind_def eff_defs call_repo_def)

lemma hydrated_get:
  assumes "ok (cs_repo s)" "cs_task_cache s i = None" "stored (cs_repo s) i = Some d" "sd_participants d \<noteq> []"
    and "\<And>ps. mset ps = mset (sd_participants d) \<Longrightarrow>
      \<exists>t. task_from_model R (task_info_of_model (sd_model d) ps) (sd_model d) s = (Inr t, s) \<and>
        ti_id (get_task_info t) = i \<and> Q t"
  shows "\<exists>t. get_task E R i s = (Inr t, s\<lparr>cs_task_cache := (cs_task_cache s)(i \<mapsto> t)\<rparr>) \<and> Q t"
proof -
  obtain ps where ps: "repo_get_tasks_participants R [i] (cs_repo s) = (Inr (map (Pair i) ps), cs_repo s)"
    "mset ps = mset (sd_participants d)"
    using read_participants[OF assms(1,3)] by blast
  obtain t where t: "task_from_model R (task_info_of_model (sd_model d) ps) (sd_model d) s = (Inr t, s)"
    "ti_id (get_task_info t) = i" "Q t"
    using assms(5)[OF ps(2)] by blast
  have push: "map_of (group_participants (map (Pair i) qs) m) i =
      (if qs = [] then map_of m i else Some ((case map_of m i of None \<Rightarrow> [] | Some rs \<Rightarrow> rs) @ qs))" for qs m
    by (induction qs arbitrary: m) (auto split: option.splits)
  have "ps \<noteq> []" using ps(2) assms(4) by auto
  then have part: "map_of (group_participants (map (Pair i) ps) []) i = Some ps" by (simp add: push)
  show ?thesis
    using assms(1-3) read_models[OF assms(1), of i] stored_id[OF assms(1,3)] ps(1) t part
    by (intro exI[of _ t]) (simp add: get_task_def ensure_cached_tasks_def hydrate_tasks_def eff_bind_def eff_defs
        call_repo_def cache_vacant_def Let_def)
qed

text \<open>A task that is still being voted on comes back as the task it was.\<close>

lemma voting_model:
  assumes t: "ok (cs_repo s)" "stored (cs_repo s) (ti_id (vt_task_info v)) = Some d" "tracks d v"
    and g: "\<And>grp. context_group (vt_running_task_context v) = Some grp \<Longrightarrow> groups (cs_repo s) (grp_id grp) = Some grp"
    and v: "votes_ok v" "shares_for v < unat (vt_accept_threshold v)"
    and ps: "mset ps = mset (sd_participants d)"
  shows "\<exists>v'. task_from_model R (task_info_of_model (sd_model d) ps) (sd_model d) s = (Inr (Voting_Task v'), s) \<and>
    vt_task_info v' = task_info_of_model (sd_model d) ps \<and> same_voting v v'"
proof -
  let ?info = "task_info_of_model (sd_model d) ps" and ?i = "ti_id (vt_task_info v)"
  obtain m where m: "repo_get_task_decisions R ?i (cs_repo s) = (Inr m, cs_repo s)" "mset m = mset (recorded_votes d)"
    using read_decisions[OF t(1,2)] by blast
  have id: "tm_id (sd_model d) = ?i" using stored_id[OF t(1,2)] .
  have msps: "mset ps = mset (ti_participants (vt_task_info v))" using ps t(3) by (simp add: tracks_def)
  have total: "total_shares ?info = total_shares (vt_task_info v)"
    unfolding total_shares_def using sum_list_order[OF msps] by (simp add: task_info_of_model_def)
  have few: "fst (accepts_rejects m) < vt_accept_threshold v"
    using recorded_votes_count[OF t(3) v(1) m(2)] v(2) by (simp add: word_less_nat_alt)
  define v' where "v' = \<lparr>vt_task_info = ?info, vt_decisions = m, vt_accept_threshold = vt_accept_threshold v,
    vt_running_task_context = vt_running_task_context v\<rparr>"
  have "task_info_of_model (sd_model d) (ti_participants (vt_task_info v)) = (vt_task_info v)\<lparr>ti_observers := []\<rparr>"
    using t(3) by (simp add: tracks_def)
  then have info: "?info = (vt_task_info v)\<lparr>ti_participants := ps, ti_observers := []\<rparr>"
    by (cases "vt_task_info v") (simp add: task_info_of_model_def)
  then have "same_voting v v'"
    using msps recorded_votes_wf(2)[OF t(3) v(1) m(2)] by (simp add: same_voting_def v'_def vote_in_def)
  moreover have "task_from_model R ?info (sd_model d) s = (Inr (Voting_Task v'), s)"
    using t(3) g few m(1) read_group[OF t(1)] id total
    by (cases "vt_running_task_context v"; cases "accepts_rejects m")
      (auto simp: tracks_def context_stored_def threshold_stored_def task_from_model_def store_group_task_from_model_def
        threshold_task_from_model_def threshold_context_def eff_bind_def eff_defs call_repo_def Let_def v'_def)
  ultimately show ?thesis by (intro exI[of _ v']) (simp add: v'_def)
qed

lemma voting_survives:
  assumes "in_step (cs_repo s) v" "votes_ok v" "shares_for v < unat (vt_accept_threshold v)"
    and "cs_task_cache s (ti_id (vt_task_info v)) = None"
  shows "\<exists>v'. get_task E R (ti_id (vt_task_info v)) s =
      (Inr (Voting_Task v'), s\<lparr>cs_task_cache := (cs_task_cache s)(ti_id (vt_task_info v) \<mapsto> Voting_Task v')\<rparr>) \<and>
    same_voting v v'"
proof -
  obtain d where d: "ok (cs_repo s)" "stored (cs_repo s) (ti_id (vt_task_info v)) = Some d" "tracks d v"
    and g: "\<And>grp. context_group (vt_running_task_context v) = Some grp \<Longrightarrow> groups (cs_repo s) (grp_id grp) = Some grp"
    using assms(1) by (auto simp: tracked_def)
  have "ti_participants (vt_task_info v) \<noteq> []"
    using votes_okD(4,5)[OF assms(2)] by (auto simp: share_sum_def)
  then have ne: "sd_participants d \<noteq> []" using tracks_participants[OF d(3)] by auto
  have "\<exists>t. get_task E R (ti_id (vt_task_info v)) s =
      (Inr t, s\<lparr>cs_task_cache := (cs_task_cache s)(ti_id (vt_task_info v) \<mapsto> t)\<rparr>) \<and>
      (\<exists>v'. t = Voting_Task v' \<and> same_voting v v')"
  proof (rule hydrated_get[OF d(1) assms(4) d(2) ne], goal_cases)
    case (1 ps)
    then show ?case
      using voting_model[OF d g assms(2,3) 1] stored_id[OF d(1,2)]
      by (force simp: task_info_of_model_def)
  qed
  then show ?thesis by blast
qed

text \<open>Creating a task puts it in step.\<close>

lemma new_participants_same:
  assumes "new_participants (devices r) (map (\<lambda>p. (part_id p, part_shares p)) qs) ps"
    and "\<forall>p \<in> set qs. devices r (part_id p) = Some (part_device p)"
  shows "mset ps = mset qs"
proof -
  define f where "f = (\<lambda>(i, n). \<lparr>part_device = the (devices r i), part_shares = n\<rparr>)"
  have inv: "map f (map (\<lambda>p. (part_id p, part_shares p)) xs) = xs"
    if "\<forall>p \<in> set xs. devices r (part_id p) = Some (part_device p)" for xs
    using that by (induction xs) (auto simp: f_def)
  have "image_mset f (mset (map (\<lambda>p. (part_id p, part_shares p)) ps)) =
      image_mset f (mset (map (\<lambda>p. (part_id p, part_shares p)) qs))"
    using assms(1) by (simp only: new_participants_def)
  then have "mset (map f (map (\<lambda>p. (part_id p, part_shares p)) ps)) =
      mset (map f (map (\<lambda>p. (part_id p, part_shares p)) qs))"
    by (simp only: mset_map)
  moreover have "\<forall>p \<in> set ps. devices r (part_id p) = Some (part_device p)"
    using assms(1) by (simp add: new_participants_def)
  ultimately show ?thesis using inv[of ps] inv[of qs] assms(2) by (simp only: simp_thms)
qed

lemma new_record_tracks:
  assumes "new_voting v" "mset ps = mset (ti_participants (vt_task_info v))" "tm_result model = None"
    and "task_info_of_model model (ti_participants (vt_task_info v)) = (vt_task_info v)\<lparr>ti_observers := []\<rparr>"
    and "context_stored model v"
  shows "tracks (new_record model ps) v"
  using assms by (simp add: tracks_def new_record_def recorded_vote_def vote_in_def new_voting_def)

lemma created_in_step:
  assumes "new_voting v" "ok r'" "groups r' = groups r"
    and "\<exists>ps. new_participants (devices r) (map (\<lambda>p. (part_id p, part_shares p)) (ti_participants (vt_task_info v))) ps \<and>
      stored r' = (stored r)(ti_id (vt_task_info v) \<mapsto> new_record model ps)"
    and "\<forall>p \<in> set (ti_participants (vt_task_info v)). devices r (part_id p) = Some (part_device p)"
    and "\<And>grp. context_group (vt_running_task_context v) = Some grp \<Longrightarrow> groups r (grp_id grp) = Some grp"
    and "tm_result model = None" "context_stored model v"
    and "task_info_of_model model (ti_participants (vt_task_info v)) = (vt_task_info v)\<lparr>ti_observers := []\<rparr>"
  shows "in_step r' v"
proof -
  obtain ps where ps: "new_participants (devices r) (map (\<lambda>p. (part_id p, part_shares p)) (ti_participants (vt_task_info v))) ps"
    "stored r' = (stored r)(ti_id (vt_task_info v) \<mapsto> new_record model ps)"
    using assms(4) by blast
  have "tracks (new_record model ps) v"
    using new_record_tracks[OF assms(1) new_participants_same[OF ps(1) assms(5)] assms(7,9,8)] .
  with assms(2,3,6) ps(2) show ?thesis by (simp add: tracked_def)
qed

text \<open>The two ways a task is created, and the cache in the end.\<close>

lemma persist_task_cases:
  assumes "persist_task R v s = (Inr x, s')"
  obtains (group) threshold nt y where "vt_running_task_context v = Ctx_Group threshold nt"
      "repo_create_group_task R (Some (ti_id (vt_task_info v)))
        (map (\<lambda>p. (part_id p, part_shares p)) (ti_participants (vt_task_info v))) threshold (ti_name (vt_task_info v))
        (ti_protocol_type (vt_task_info v)) (ti_key_type (vt_task_info v)) (ti_request (vt_task_info v)) nt (cs_repo s) =
        (Inr y, cs_repo s')"
      "cs_task_cache s' = (cs_task_cache s)(ti_id (vt_task_info v) \<mapsto> Voting_Task v)"
  | (threshold) ty grp data y where "(ty, vt_running_task_context v) \<in>
        {(TT_SignChallenge, Ctx_SignChallenge grp data), (TT_SignPdf, Ctx_SignPdf grp data), (TT_Decrypt, Ctx_Decrypt grp data)}"
      "repo_create_threshold_task R (Some (ti_id (vt_task_info v))) (grp_id grp)
        (map (\<lambda>p. (part_id p, part_shares p)) (ti_participants (vt_task_info v))) (grp_threshold grp)
        (ti_name (vt_task_info v)) data (ti_request (vt_task_info v)) ty (ti_key_type (vt_task_info v))
        (ti_protocol_type (vt_task_info v)) (cs_repo s) = (Inr y, cs_repo s')"
      "cs_task_cache s' = (cs_task_cache s)(ti_id (vt_task_info v) \<mapsto> Voting_Task v)"
proof -
  note defs = persist_task_def persist_group_task_def persist_threshold_task_def call_repo_def put_task_def Let_def
    eff_bind_def eff_defs
  have res: "res_of_persistence z = Inr y \<longleftrightarrow> z = Inr y" for z :: "persistence_error + task_model" and y
    by (cases z) auto
  show ?thesis
    using assms that unfolding defs
    by (cases "vt_running_task_context v") (fastforce simp: res split: prod.splits sum.splits)+
qed

lemma persisted_in_step:
  assumes "persist_task R v s = (Inr x, s')" "ok (cs_repo s)" "new_voting v"
    and "\<forall>p \<in> set (ti_participants (vt_task_info v)). devices (cs_repo s) (part_id p) = Some (part_device p)"
    and "\<And>grp. context_group (vt_running_task_context v) = Some grp \<Longrightarrow> groups (cs_repo s) (grp_id grp) = Some grp"
  shows "in_step (cs_repo s') v \<and> cs_task_cache s' = (cs_task_cache s)(ti_id (vt_task_info v) \<mapsto> Voting_Task v)"
  using assms(1)
proof (cases rule: persist_task_cases)
  case (group th nt y)
  have c: "ok (cs_repo s')" "groups (cs_repo s') = groups (cs_repo s)" "devices (cs_repo s') = devices (cs_repo s)"
    "\<exists>ps. new_participants (devices (cs_repo s)) (map (\<lambda>p. (part_id p, part_shares p)) (ti_participants (vt_task_info v))) ps \<and>
      stored (cs_repo s') = (stored (cs_repo s))(ti_id (vt_task_info v) \<mapsto> new_record (group_model (ti_id (vt_task_info v)) th
        (ti_name (vt_task_info v)) (ti_protocol_type (vt_task_info v)) (ti_key_type (vt_task_info v))
        (ti_request (vt_task_info v)) nt) ps)"
    using create_group[OF assms(2) group(2)] by blast+
  have "in_step (cs_repo s') v"
    by (rule created_in_step[OF assms(3) c(1,2,4) assms(4,5)])
      (use assms(3) group(1) in \<open>auto simp: group_model_def task_info_of_model_def context_stored_def new_voting_def\<close>)
  with group(3) show ?thesis by simp
next
  case (threshold ty grp data y)
  have c: "ok (cs_repo s')" "groups (cs_repo s') = groups (cs_repo s)" "devices (cs_repo s') = devices (cs_repo s)"
    "\<exists>ps. new_participants (devices (cs_repo s)) (map (\<lambda>p. (part_id p, part_shares p)) (ti_participants (vt_task_info v))) ps \<and>
      stored (cs_repo s') = (stored (cs_repo s))(ti_id (vt_task_info v) \<mapsto> new_record (threshold_model (ti_id (vt_task_info v))
        (grp_id grp) (grp_threshold grp) (ti_name (vt_task_info v)) data (ti_request (vt_task_info v)) ty
        (ti_key_type (vt_task_info v)) (ti_protocol_type (vt_task_info v))) ps)"
    using create_threshold[OF assms(2) threshold(2)] by blast+
  have "in_step (cs_repo s') v"
    by (rule created_in_step[OF assms(3) c(1,2,4) assms(4,5)])
      (use assms(3) threshold(1) in \<open>auto simp: threshold_model_def task_info_of_model_def context_stored_def
        threshold_stored_def new_voting_def\<close>)
  with threshold(3) show ?thesis by simp
qed

text \<open>A vote that decides nothing yet is taken, and the record stays in step.\<close>

lemma decided_in_step:
  assumes "dp_repo D = R" "in_step (cs_repo s) v" "votes_ok v"
    and "cs_task_cache s (ti_id (vt_task_info v)) = Some (Voting_Task v)"
    and "decide v device_id accept = (Inr Undecided, v')"
  shows "\<exists>s'. decide_task D (ti_id (vt_task_info v)) device_id accept s = (Inr (), s') \<and> in_step (cs_repo s') v' \<and>
    cs_task_cache s' = (cs_task_cache s)(ti_id (vt_task_info v) \<mapsto> Voting_Task v')"
proof -
  let ?i = "ti_id (vt_task_info v)"
  note f = decide_frame[OF assms(5)]
  obtain d where d: "ok (cs_repo s)" "stored (cs_repo s) ?i = Some d" "tracks d v"
    using assms(2) by (auto simp: tracked_def)
  obtain r' where r': "repo_set_task_decision R ?i device_id accept (cs_repo s) = (Inr (), r')" "ok r'"
    "groups r' = groups (cs_repo s)"
    "stored r' = (stored (cs_repo s))(?i := map_option (record_decision device_id accept) (stored (cs_repo s) ?i))"
    using write_decision[OF d(1), of ?i device_id accept] by blast
  have step: "in_step r' v'"
    using r' d f assms(2) record_decision_tracks[OF d(3) assms(3,5)] by (auto simp: tracked_def)
  obtain s1 where s1: "set_task_last_update D ?i s = (Inr (), s1)" "cs_repo s1 = cs_repo s" "cs_task_cache s1 = cs_task_cache s"
    by (simp add: set_task_last_update_def get_timestamp_def env_call_def next_call_def eff_bind_def eff_modify_def)
  have send: "\<exists>s3. send_updates D t s2 = (Inr (), s3) \<and> cs_repo s3 = cs_repo s2 \<and> cs_task_cache s3 = cs_task_cache s2" for t s2
    by (simp add: send_updates_def eff_modify_def split: prod.splits)
  obtain s3 where "send_updates D (Voting_Task v') (s1\<lparr>cs_task_cache := (cs_task_cache s1)(?i \<mapsto> Voting_Task v'), cs_repo := r'\<rparr>) =
      (Inr (), s3)" "cs_repo s3 = r'" "cs_task_cache s3 = (cs_task_cache s)(?i \<mapsto> Voting_Task v')"
    using send[of "Voting_Task v'" "s1\<lparr>cs_task_cache := (cs_task_cache s1)(?i \<mapsto> Voting_Task v'), cs_repo := r'\<rparr>"] s1(3) by auto
  with s1 r'(1) cached_get[OF d(1) assms(4)] assms(1,5) step show ?thesis
    by (intro exI[of _ s3]) (simp add: decide_task_def eff_bind_def put_task_def eff_modify_def eff_lift_def call_repo_def apply_decision_def)
qed

lemma votes_in_step:
  assumes "dp_repo D = R" "in_step (cs_repo s) v" "votes_ok v" "shares_for v < unat (vt_accept_threshold v)"
    and "cs_task_cache s (ti_id (vt_task_info v)) = Some (Voting_Task v)"
    and "votes_taken v votes = Some w"
  shows "\<exists>s'. take_votes D (ti_id (vt_task_info v)) votes s = (Inr (), s') \<and> in_step (cs_repo s') w \<and> votes_ok w \<and>
    shares_for w < unat (vt_accept_threshold w) \<and> ti_id (vt_task_info w) = ti_id (vt_task_info v) \<and>
    cs_task_cache s' (ti_id (vt_task_info v)) = Some (Voting_Task w)"
  using assms
proof (induction votes arbitrary: v s)
  case Nil
  then show ?case by (simp add: eff_return_def)
next
  case (Cons vote votes)
  obtain b accept v' where vote: "vote = (b, accept)" and d: "decide v b accept = (Inr Undecided, v')"
    "votes_taken v' votes = Some w"
    using Cons.prems(6) by (cases vote) (auto split: prod.splits sum.splits decision_update.splits)
  note f = decide_frame[OF d(1)]
  obtain s1 where s1: "decide_task D (ti_id (vt_task_info v)) b accept s = (Inr (), s1)" "in_step (cs_repo s1) v'"
    "cs_task_cache s1 = (cs_task_cache s)(ti_id (vt_task_info v) \<mapsto> Voting_Task v')"
    using decided_in_step[OF Cons.prems(1,2,3,5) d(1)] by blast
  from Cons.IH[OF Cons.prems(1) s1(2) votes_ok_decide[OF Cons.prems(3) d(1)] undecided_below[OF Cons.prems(3) d(1)] _ d(2)]
  show ?case using s1 f by (simp add: vote eff_bind_def)
qed

text \<open>A task that has been created and voted on comes back from the database as it is in memory.\<close>

lemma vote_resumed:
  assumes "dp_repo D = R" "ok (cs_repo s)" "new_voting v" "votes_ok v" "persist_task R v s = (Inr x, s1)"
    and "\<forall>p \<in> set (ti_participants (vt_task_info v)). devices (cs_repo s) (part_id p) = Some (part_device p)"
    and "\<And>grp. context_group (vt_running_task_context v) = Some grp \<Longrightarrow> groups (cs_repo s) (grp_id grp) = Some grp"
    and "votes_taken v votes = Some w"
  shows "\<exists>s2 w'. take_votes D (ti_id (vt_task_info v)) votes s1 = (Inr (), s2) \<and>
    cs_task_cache s2 (ti_id (vt_task_info v)) = Some (Voting_Task w) \<and>
    get_task E R (ti_id (vt_task_info v)) (s2\<lparr>cs_task_cache := Map.empty\<rparr>) =
      (Inr (Voting_Task w'), s2\<lparr>cs_task_cache := [ti_id (vt_task_info v) \<mapsto> Voting_Task w']\<rparr>) \<and>
    same_voting w w'"
proof -
  note p = persisted_in_step[OF assms(5,2,3,6,7)]
  have "shares_for v = 0"
    using assms(3) by (induction "ti_participants (vt_task_info v)") (auto simp: shares_for_def device_accepted_def new_voting_def)
  then have "shares_for v < unat (vt_accept_threshold v)" using votes_okD(4)[OF assms(4)] by simp
  with votes_in_step[OF assms(1) _ assms(4) _ _ assms(8)] p obtain s2 where
    s2: "take_votes D (ti_id (vt_task_info v)) votes s1 = (Inr (), s2)" "in_step (cs_repo s2) w" "votes_ok w"
    "shares_for w < unat (vt_accept_threshold w)" "ti_id (vt_task_info w) = ti_id (vt_task_info v)"
    "cs_task_cache s2 (ti_id (vt_task_info v)) = Some (Voting_Task w)"
    by (metis fun_upd_same)
  have "\<exists>w'. get_task E R (ti_id (vt_task_info w)) (s2\<lparr>cs_task_cache := Map.empty\<rparr>) = (Inr (Voting_Task w'),
      (s2\<lparr>cs_task_cache := Map.empty\<rparr>)\<lparr>cs_task_cache := (cs_task_cache (s2\<lparr>cs_task_cache := Map.empty\<rparr>))
        (ti_id (vt_task_info w) \<mapsto> Voting_Task w')\<rparr>) \<and> same_voting w w'"
    by (rule voting_survives) (use s2 in simp_all)
  then show ?thesis using s2(1,5,6) by auto
qed

text \<open>
  The parties of an accepted task are in the record when they are chosen, and the communicator rebuilt from it
  has them.
\<close>

lemma parties_survive:
  assumes D: "dp_repo D = R" "choose_multiple_ok (dp_env D)"
    and v: "votes_ok v" "unat (vt_accept_threshold v) \<le> shares_for v"
    and t: "ok (cs_repo s)" "stored (cs_repo s) (ti_id (vt_task_info v)) = Some d" "tracks d v" "sd_active d = Map.empty"
    and r: "choose_active_shares D v s = (Inr active, s')"
    and c: "communicator_new (vt_accept_threshold v) (proto_of_protocol_type (ti_protocol_type (vt_task_info v))) active = Inr c"
    and qs: "mset qs = mset (sd_participants d)"
  shows "\<exists>d' c'. stored (cs_repo s') (ti_id (vt_task_info v)) = Some d' \<and> tracks d' v \<and>
    hydrate_communicator R (sd_model d') qs s' = (Inr c', s') \<and> equal_parties c c'"
proof -
  let ?i = "ti_id (vt_task_info v)" and ?ps = "ti_participants (vt_task_info v)"
  obtain chosen where ch: "shares_of ?ps chosen" "index_shares ?ps chosen = Inr active"
    "repo_set_task_active_shares R ?i (count_shares chosen) (cs_repo s) = (Inr (), cs_repo s')"
    using choose_active_shares_cases[OF D(2) v r] D(1) unfolding shares_stored_def
    by (metis sum.distinct(1))
  have w: "ok (cs_repo s')" "stored (cs_repo s') ?i = Some (record_active (count_shares chosen) d)"
    using write_active[OF t(1) ch(3) count_shares_wf] t(2) by simp_all
  let ?d = "record_active (count_shares chosen) d"
  have d': "sd_active ?d = map_of (count_shares chosen)" "sd_model ?d = sd_model d" "tracks ?d v"
    using t(3,4) by (simp_all add: record_active_def tracks_def)
  obtain m where m: "repo_get_task_active_shares R ?i (cs_repo s') = (Inr m, cs_repo s')"
    "map_of m = map_of (count_shares chosen)"
    using read_active[OF w] d'(1) by auto
  have id: "tm_id (sd_model d) = ?i" using stored_id[OF t(1,2)] .
  have "model_threshold ?ps (sd_model d) = vt_accept_threshold v"
    using t(3) by (auto simp: tracks_def context_stored_def threshold_stored_def model_threshold_def total_shares_def
        split: running_task_context.splits)
  moreover have "tm_protocol_type (sd_model d) = ti_protocol_type (vt_task_info v)"
    using arg_cong[of _ _ ti_protocol_type, OF conjunct1[OF conjunct2[OF t(3)[unfolded tracks_def]]]]
    by (simp add: task_info_of_model_def)
  ultimately have c: "communicator_new (model_threshold ?ps (sd_model d))
      (proto_of_protocol_type (tm_protocol_type (sd_model d))) active = Inr c" using c by simp
  have "mset qs = mset ?ps" using qs t(3) by (simp add: tracks_def)
  from rebuilt_communicator[OF ch(1,2) c this m(2) m(1)[folded id]] w(2) d' show ?thesis
    using equal_parties_order by (force simp: id)
qed

end

end
