(* ===== verification/Postgres_Laws.thy ===== *)
theory Postgres_Laws
  imports Postgres_Constraints Stored_Tasks
begin

text \<open>
  The PostgreSQL repository keeps the contract of \<^verbatim>\<open>Stored_Tasks\<close>: the record of a task is
  read off the tables, every query returns what the record says and every update changes just the record it is
  meant for. With the contract come the facts about a server that is restarted.
\<close>

section \<open>The record of a task in the tables\<close>

definition task_parts :: "tables \<Rightarrow> uuid \<Rightarrow> participant list" where
  "task_parts db i = concat (map (\<lambda>p. map (\<lambda>d. \<lparr>part_device = d, part_shares = tp_shares p\<rparr>)
     (joined_devices db (tp_device_id p))) (filter (\<lambda>p. tp_task_id p = i) (db_task_participant db)))"

definition task_decision :: "tables \<Rightarrow> uuid \<Rightarrow> bytes \<rightharpoonup> bool" where
  "task_decision db i = (\<lambda>b. Option.bind (find (\<lambda>p. tp_key p = (i, b)) (db_task_participant db)) tp_decision)"

definition task_acknowledged :: "tables \<Rightarrow> uuid \<Rightarrow> bytes set" where
  "task_acknowledged db i = set (map tp_device_id
     (filter (\<lambda>p. tp_acknowledgment p = Some True) (filter (\<lambda>p. tp_task_id p = i) (db_task_participant db))))"

definition task_active :: "tables \<Rightarrow> uuid \<Rightarrow> bytes \<rightharpoonup> u32" where
  "task_active db i = (\<lambda>b. map_option ap_active_shares
     (find (\<lambda>a. ap_key a = (i, b)) (db_active_task_participant db)))"

definition stored_record :: "tables \<Rightarrow> uuid \<Rightarrow> stored_task option" where
  "stored_record db i = map_option (\<lambda>r.
     \<lparr>sd_model = task_row.extend r \<lparr>tm_result = find (\<lambda>x. tr_task_id x = i) (db_task_result db)\<rparr>,
      sd_participants = task_parts db i, sd_decision = task_decision db i,
      sd_acknowledged = task_acknowledged db i, sd_active = task_active db i\<rparr>)
     (find (\<lambda>r. tm_id r = i) (db_task db))"

definition stored_group :: "tables \<Rightarrow> bytes \<Rightarrow> group option" where
  "stored_group db g = map_option (\<lambda>r. group_row.extend r \<lparr>grp_participant_ids_shares =
       map (\<lambda>p. (gp_device_id p, gp_shares p)) (filter (\<lambda>p. gp_group_id p = g) (db_group_participant db))\<rparr>)
     (find (\<lambda>r. grp_id r = g) (db_group db))"

definition stored_device :: "tables \<Rightarrow> bytes \<Rightarrow> device option" where
  "stored_device db i = find (\<lambda>d. dev_id d = i) (db_device db)"

section \<open>Rows under their keys\<close>

lemma filter_key:
  "distinct (map k xs) \<Longrightarrow> filter (\<lambda>x. k x = i) xs = (case find (\<lambda>x. k x = i) xs of None \<Rightarrow> [] | Some x \<Rightarrow> [x])"
proof (induction xs)
  case (Cons x xs)
  have "k x = i \<Longrightarrow> filter (\<lambda>x. k x = i) xs = []" using Cons.prems by (auto simp: filter_empty_conv image_iff)
  with Cons show ?case by auto
qed simp

lemma find_key: "distinct (map k xs) \<Longrightarrow> x \<in> set xs \<Longrightarrow> find (\<lambda>y. k y = k x) xs = Some x"
  by (induction xs) (auto simp: image_iff)

lemma find_member: "find (\<lambda>x. k x = i) xs = Some x \<Longrightarrow> k x = i \<and> x \<in> set xs"
  by (auto simp: find_Some_iff)

lemma find_known: "find (\<lambda>x. k x = i) xs = None \<longleftrightarrow> i \<notin> k ` set xs"
  by (auto simp: find_None_iff)

lemma tables_okD:
  assumes "tables_ok db"
  shows "distinct (map dev_id (db_device db))" "distinct (map grp_id (db_group db))" "distinct (map tm_id (db_task db))"
    "distinct (map tp_key (db_task_participant db))" "distinct (map ap_key (db_active_task_participant db))"
    "distinct (map tr_task_id (db_task_result db))"
    "\<And>p. p \<in> set (db_task_participant db) \<Longrightarrow> tp_task_id p \<in> known_tasks db \<and> tp_device_id p \<in> known_devices db"
    "\<And>a. a \<in> set (db_active_task_participant db) \<Longrightarrow> ap_key a \<in> tp_key ` set (db_task_participant db)"
    "\<And>x. x \<in> set (db_task_result db) \<Longrightarrow> tr_task_id x \<in> known_tasks db"
  using assms by (auto simp: tables_ok_def)

lemma joined_device:
  assumes "tables_ok db" "i \<in> known_devices db"
  obtains d where "joined_devices db i = [d]" "dev_id d = i" "stored_device db i = Some d"
proof -
  obtain d where d: "find (\<lambda>d. dev_id d = i) (db_device db) = Some d"
    using assms(2) by (metis find_known not_Some_eq)
  then have "dev_id d = i" by (auto simp: find_Some_iff)
  with that d show ?thesis
    by (simp add: joined_devices_def filter_key[OF tables_okD(1)[OF assms(1)]] stored_device_def)
qed

text \<open>The participants of a task are its rows, each with its device.\<close>

lemma task_parts_rows:
  assumes "tables_ok db"
  shows "map (\<lambda>p. (part_id p, f (part_id p) (part_shares p))) (task_parts db i) =
    map (\<lambda>p. (tp_device_id p, f (tp_device_id p) (tp_shares p))) (filter (\<lambda>p. tp_task_id p = i) (db_task_participant db))"
proof -
  have "map (\<lambda>p. (part_id p, f (part_id p) (part_shares p))) (concat (map (\<lambda>p. map (\<lambda>d. \<lparr>part_device = d, part_shares = tp_shares p\<rparr>)
      (joined_devices db (tp_device_id p))) rows)) = map (\<lambda>p. (tp_device_id p, f (tp_device_id p) (tp_shares p))) rows"
    if "set rows \<subseteq> set (db_task_participant db)" for rows
    using that
  proof (induction rows)
    case (Cons p rows)
    then have "tp_device_id p \<in> known_devices db" using tables_okD(7)[OF assms, of p] by simp
    then obtain d where "joined_devices db (tp_device_id p) = [d]" "dev_id d = tp_device_id p"
      using joined_device[OF assms] by metis
    with Cons show ?case by simp
  qed simp
  then show ?thesis unfolding task_parts_def by simp
qed

lemma distinct_task_parts:
  assumes "tables_ok db"
  shows "distinct (map part_id (task_parts db i))"
proof -
  have "map part_id (task_parts db i) = map tp_device_id (filter (\<lambda>p. tp_task_id p = i) (db_task_participant db))"
    using arg_cong[OF task_parts_rows[OF assms, of "\<lambda>_ _. ()" i], of "map fst"] by (simp add: comp_def)
  moreover have "distinct (map tp_device_id (filter (\<lambda>p. tp_task_id p = i) rows))"
    if "distinct (map tp_key rows)" for rows
    using that by (induction rows) (auto simp: image_iff)
  ultimately show ?thesis using tables_okD(4)[OF assms] by simp
qed

section \<open>Reading\<close>

lemma with_result_unique:
  assumes "tables_ok db"
  shows "with_result db r = [task_row.extend r \<lparr>tm_result = find (\<lambda>x. tr_task_id x = tm_id r) (db_task_result db)\<rparr>]"
  unfolding with_result_def filter_key[OF tables_okD(6)[OF assms]] by (simp split: option.splits)

lemma pg_read_models:
  assumes "tables_ok db"
  shows "pg_get_task_models [i] db = (Inr (case stored_record db i of None \<Rightarrow> [] | Some d \<Rightarrow> [sd_model d]), db)"
proof -
  have only: "filter (\<lambda>r. tm_id r \<in> set [i]) (db_task db) =
      (case find (\<lambda>r. tm_id r = i) (db_task db) of None \<Rightarrow> [] | Some r \<Rightarrow> [r])"
    using filter_key[OF tables_okD(3)[OF assms], of i] by simp
  show ?thesis
  proof (cases "find (\<lambda>r. tm_id r = i) (db_task db)")
    case (Some r)
    then have "tm_id r = i" using find_member by metis
    with Some show ?thesis
      unfolding pg_get_task_models_def sql_query_def only with_result_unique[OF assms] stored_record_def by simp
  qed (unfold pg_get_task_models_def sql_query_def only stored_record_def, simp)
qed

lemma pg_read_participants:
  assumes "tables_ok db" "stored_record db i = Some d"
  shows "pg_get_tasks_participants [i] db = (Inr (map (Pair i) (sd_participants d)), db)"
proof -
  obtain r where r: "find (\<lambda>r. tm_id r = i) (db_task db) = Some r" "sd_participants d = task_parts db i"
    using assms(2) by (auto simp: stored_record_def)
  have join: "filter (\<lambda>t. tm_id t = tp_task_id p \<and> tm_id t \<in> set [i]) (db_task db) = (if tp_task_id p = i then [r] else [])" for p
  proof (cases "tp_task_id p = i")
    case True
    then have "filter (\<lambda>t. tm_id t = tp_task_id p \<and> tm_id t \<in> set [i]) (db_task db) = filter (\<lambda>t. tm_id t = i) (db_task db)"
      by (intro filter_cong) auto
    with True show ?thesis by (simp add: filter_key[OF tables_okD(3)[OF assms(1)]] r(1))
  qed (auto simp: filter_empty_conv)
  have i: "tm_id r = i" using find_member[OF r(1)] by simp
  have "concat (map (\<lambda>p. concat (map (\<lambda>t. map (\<lambda>d. (tm_id t, \<lparr>part_device = d, part_shares = tp_shares p\<rparr>))
      (joined_devices db (tp_device_id p))) (filter (\<lambda>t. tm_id t = tp_task_id p \<and> tm_id t \<in> set [i]) (db_task db)))) rows) =
    map (Pair i) (concat (map (\<lambda>p. map (\<lambda>d. \<lparr>part_device = d, part_shares = tp_shares p\<rparr>)
      (joined_devices db (tp_device_id p))) (filter (\<lambda>p. tp_task_id p = i) rows)))" for rows
    unfolding join using i by (induction rows) auto
  then have "concat (map (\<lambda>p. concat (map (\<lambda>t. map (\<lambda>d. (tm_id t, \<lparr>part_device = d, part_shares = tp_shares p\<rparr>))
      (joined_devices db (tp_device_id p))) (filter (\<lambda>t. tm_id t = tp_task_id p \<and> tm_id t \<in> set [i]) (db_task db))))
      (db_task_participant db)) = map (Pair i) (task_parts db i)"
    unfolding task_parts_def .
  moreover have "sort_key fst (map (Pair i) xs) = map (Pair i) xs" for xs :: "participant list"
    by (rule sort_key_id_if_sorted) (induction xs, auto)
  ultimately show ?thesis unfolding pg_get_tasks_participants_def sql_query_def r(2) by simp
qed

lemma stored_vote_recorded: "stored_vote decision shares = recorded_vote decision shares"
proof -
  have "uint (ucast (- shares) :: i8) = uint (- ucast shares :: i8)"
    by (simp add: uint_word_ariths unsigned_ucast_eq take_bit_eq_mod mod_mod_cancel mod_minus_eq)
  then have "ucast (- shares) = (- ucast shares :: i8)" by (rule unsigned_word_eqI)
  then show ?thesis by (simp add: stored_vote_def recorded_vote_def split: option.splits)
qed

lemma pg_read_decisions:
  assumes "tables_ok db" "stored_record db i = Some d"
  shows "pg_get_task_decisions i db = (Inr (recorded_votes d), db)"
proof -
  let ?rows = "filter (\<lambda>p. tp_task_id p = i) (db_task_participant db)"
  have d: "sd_participants d = task_parts db i"
    "sd_decision d = task_decision db i"
    using assms(2) by (auto simp: stored_record_def)
  have dec: "sd_decision d (tp_device_id p) = tp_decision p" if "p \<in> set ?rows" for p
    using that find_key[OF tables_okD(4)[OF assms(1)], of p] by (auto simp: d(2) task_decision_def)
  have votes: "recorded_votes d = map (\<lambda>r. (tp_device_id r, stored_vote (tp_decision r) (tp_shares r))) ?rows"
    unfolding recorded_votes_def d(1) task_parts_rows[OF assms(1), of "\<lambda>b. recorded_vote (sd_decision d b)"]
    using dec by (simp add: stored_vote_recorded)
  have "map fst (recorded_votes d) = map part_id (task_parts db i)"
    by (simp add: recorded_votes_def d(1) comp_def)
  then have "hm_wf (recorded_votes d)" using distinct_task_parts[OF assms(1)] by simp
  then show ?thesis
    by (simp add: pg_get_task_decisions_def sql_query_def flip: votes)
qed

lemma map_of_find:
  "map_of (map (\<lambda>x. (k x, v x)) xs) b = map_option v (find (\<lambda>x. k x = b) xs)"
  by (induction xs) auto

lemma find_filter: "find P (filter Q xs) = find (\<lambda>x. Q x \<and> P x) xs"
  by (induction xs) auto

lemma pg_read_active:
  assumes "tables_ok db" "stored_record db i = Some d"
  shows "\<exists>m. pg_get_task_active_shares i db = (Inr m, db) \<and> hm_wf m \<and> map_of m = sd_active d"
proof -
  let ?l = "map (\<lambda>r. (ap_device_id r, ap_active_shares r)) (filter (\<lambda>r. ap_task_id r = i) (db_active_task_participant db))"
  have "distinct (map ap_device_id (filter (\<lambda>r. ap_task_id r = i) rows))" if "distinct (map ap_key rows)" for rows
    using that by (induction rows) (auto simp: image_iff)
  then have wf: "hm_wf ?l" using tables_okD(5)[OF assms(1)] by (simp add: comp_def)
  have "map_of ?l b = sd_active d b" for b
    using assms(2) by (auto simp: map_of_find find_filter stored_record_def task_active_def)
  then show ?thesis using wf by (auto simp: pg_get_task_active_shares_def sql_query_def)
qed

lemma pg_read_group: "pg_get_group g db = (Inr (stored_group db g), db)"
  by (simp add: pg_get_group_def sql_query_def stored_group_def)

lemma pg_stored_id: "stored_record db i = Some d \<Longrightarrow> tm_id (sd_model d) = i"
  by (auto simp: stored_record_def task_row.extend_def dest!: find_member)

lemma known_stored: "stored_record db i \<noteq> None \<longleftrightarrow> i \<in> known_tasks db"
  using find_known[of tm_id i "db_task db"] by (auto simp: stored_record_def)

section \<open>Writing\<close>

lemma find_update:
  assumes "\<And>x. k (f x) = k x"
  shows "find (\<lambda>x. k x = i) (map f xs) = map_option f (find (\<lambda>x. k x = i) xs)"
  using assms by (induction xs) auto

text \<open>An update of participant rows that keeps their keys and shares.\<close>

abbreviation with_rows :: "tables \<Rightarrow> (task_participant \<Rightarrow> task_participant) \<Rightarrow> tables" where
  "with_rows db f \<equiv> db\<lparr>db_task_participant := map f (db_task_participant db)\<rparr>"

lemma task_parts_updated:
  assumes "\<And>r. tp_key (f r) = tp_key r" "\<And>r. tp_shares (f r) = tp_shares r"
  shows "task_parts (with_rows db f) = task_parts db"
proof
  fix i
  have keys: "tp_task_id (f r) = tp_task_id r" "tp_device_id (f r) = tp_device_id r" for r
    using assms(1)[of r] by simp_all
  have "filter (\<lambda>p. tp_task_id p = i) (map f rows) = map f (filter (\<lambda>p. tp_task_id p = i) rows)" for rows
    by (induction rows) (auto simp: keys)
  then show "task_parts (with_rows db f) i = task_parts db i"
    by (simp add: task_parts_def joined_devices_def keys assms(2) comp_def)
qed

lemma task_acknowledged_updated:
  assumes "\<And>r. tp_key (f r) = tp_key r" "\<And>r. tp_acknowledgment (f r) = tp_acknowledgment r"
  shows "task_acknowledged (with_rows db f) = task_acknowledged db"
proof
  fix i
  have keys: "tp_task_id (f r) = tp_task_id r" "tp_device_id (f r) = tp_device_id r" for r
    using assms(1)[of r] by simp_all
  have "filter (\<lambda>p. tp_acknowledgment p = Some True) (filter (\<lambda>p. tp_task_id p = i) (map f rows)) =
      map f (filter (\<lambda>p. tp_acknowledgment p = Some True) (filter (\<lambda>p. tp_task_id p = i) rows))" for rows
    by (induction rows) (auto simp: keys assms(2))
  then show "task_acknowledged (with_rows db f) i = task_acknowledged db i"
    by (simp add: task_acknowledged_def keys image_image del: filter_filter set_filter)
qed

lemma participant_listed:
  assumes "tables_ok db"
  shows "b \<in> part_id ` set (task_parts db i) \<longleftrightarrow> find (\<lambda>p. tp_key p = (i, b)) (db_task_participant db) \<noteq> None"
proof -
  have "part_id ` set (task_parts db i) = tp_device_id ` set (filter (\<lambda>p. tp_task_id p = i) (db_task_participant db))"
    using arg_cong[OF task_parts_rows[OF assms, of "\<lambda>_ _. ()" i], of "\<lambda>l. fst ` set l"] by (simp add: image_image)
  then show ?thesis using find_known[of tp_key "(i, b)" "db_task_participant db"] by auto
qed

lemma task_decision_set:
  assumes "tables_ok db"
    and f: "f = (\<lambda>r. if tp_task_id r = i \<and> tp_device_id r = b then r\<lparr>tp_decision := Some accept\<rparr> else r)"
  shows "task_decision (with_rows db f) j = (if j = i \<and> b \<in> part_id ` set (task_parts db i)
    then (task_decision db j)(b \<mapsto> accept) else task_decision db j)" (is "?l = ?r")
proof
  fix c
  have finds: "find (\<lambda>p. tp_key p = key) (map f rows) = map_option f (find (\<lambda>p. tp_key p = key) rows)" for key rows
    using find_update[of tp_key f key rows] by (simp add: f)
  show "?l c = ?r c"
  proof (cases "find (\<lambda>p. tp_key p = (j, c)) (db_task_participant db)")
    case (Some p)
    with find_member[OF Some] participant_listed[OF assms(1), of b i] finds[of "(j, c)" "db_task_participant db"] show ?thesis
      by (auto simp: task_decision_def f)
  next
    case None
    with participant_listed[OF assms(1), of b i] finds[of "(j, c)" "db_task_participant db"] show ?thesis
      by (auto simp: task_decision_def f)
  qed
qed

lemma pg_write_decision:
  assumes "tables_ok db"
  shows "\<exists>db'. pg_set_task_decision i b accept db = (Inr (), db') \<and> tables_ok db' \<and>
    stored_group db' = stored_group db \<and> stored_device db' = stored_device db \<and>
    stored_record db' = (stored_record db)(i := map_option (record_decision b accept) (stored_record db i))"
proof -
  define f :: "task_participant \<Rightarrow> task_participant" where
    "f = (\<lambda>r. if tp_task_id r = i \<and> tp_device_id r = b then r\<lparr>tp_decision := Some accept\<rparr> else r)"
  have w: "pg_set_task_decision i b accept db = (Inr (), with_rows db f)"
    by (simp add: pg_set_task_decision_def update_task_participants_def f_def)
  have "task_parts (with_rows db f) = task_parts db" "task_acknowledged (with_rows db f) = task_acknowledged db"
    by (rule task_parts_updated task_acknowledged_updated; simp add: f_def)+
  moreover note task_decision_set[OF assms f_def]
  moreover have "task_active (with_rows db f) = task_active db" by (simp add: task_active_def fun_eq_iff)
  ultimately have "stored_record (with_rows db f) j =
      ((stored_record db)(i := map_option (record_decision b accept) (stored_record db i))) j" for j
    by (cases "find (\<lambda>r. tm_id r = j) (db_task db)") (auto simp: stored_record_def record_decision_def)
  moreover have "tables_ok (with_rows db f)" using keepsD[OF keeps_writes(5) assms w] .
  ultimately show ?thesis
    using w by (intro exI[of _ "with_rows db f"]) (simp add: fun_eq_iff stored_group_def stored_device_def)
qed

lemma find_insert_new:
  "find (\<lambda>a. ap_key a = k) (insert_new_active rows present) =
     (case find (\<lambda>a. ap_key a = k) present of Some a \<Rightarrow> Some a | None \<Rightarrow> find (\<lambda>a. ap_key a = k) rows)"
proof (induction rows present rule: insert_new_active.induct)
  case (2 r rows present)
  have app: "find P (xs @ ys) = (case find P xs of Some x \<Rightarrow> Some x | None \<Rightarrow> find P ys)" for P and xs ys :: "active_task_participant list"
    by (induction xs) auto
  show ?case
  proof (cases "ap_key r \<in> ap_key ` set present")
    case True
    then have "find (\<lambda>a. ap_key a = ap_key r) present \<noteq> None" using find_known[of ap_key "ap_key r" present] by simp
    with 2 True show ?thesis by (cases "ap_key r = k") (auto split: option.splits)
  next
    case False
    with 2 show ?thesis by (auto simp: app split: option.splits)
  qed
qed (simp split: option.splits)

lemma pg_write_active:
  assumes "tables_ok db" "pg_set_task_active_shares P i m db = (Inr (), db')"
  shows "tables_ok db' \<and> stored_group db' = stored_group db \<and> stored_device db' = stored_device db \<and>
    stored_record db' = (stored_record db)(i := map_option (record_active m) (stored_record db i))"
proof -
  let ?new = "map (\<lambda>(b, n). \<lparr>ap_task_id = i, ap_device_id = b, ap_active_shares = n\<rparr>) m"
  have db': "db' = db\<lparr>db_active_task_participant := insert_new_active ?new (db_active_task_participant db)\<rparr>"
    using assms(2) checked_cases[of P]
    by (auto simp: pg_set_task_active_shares_def insert_active_task_participants_def checked_def refuse_def sql_fail_def
        split: option.splits)
  have given: "map_option ap_active_shares (find (\<lambda>a. ap_key a = (j, b)) ?new) = (if j = i then map_of m b else None)" for j b
    by (induction m) auto
  have active: "task_active db' j = (if j = i then map_of m ++ task_active db i else task_active db j)" for j
  proof
    fix b
    show "task_active db' j b = (if j = i then map_of m ++ task_active db i else task_active db j) b"
      using given[of j b] find_insert_new[of "(j, b)" ?new "db_active_task_participant db"]
      by (auto simp: task_active_def db' map_add_def split: option.splits)
  qed
  have same: "task_parts db' = task_parts db" "task_decision db' = task_decision db" "task_acknowledged db' = task_acknowledged db"
    by (simp_all add: fun_eq_iff task_parts_def joined_devices_def task_decision_def task_acknowledged_def db')
  have "stored_record db' j = ((stored_record db)(i := map_option (record_active m) (stored_record db i))) j" for j
    using active[of j]
    by (cases "find (\<lambda>r. tm_id r = j) (db_task db)") (auto simp: stored_record_def record_active_def same, simp_all add: db')
  with keepsD[OF keeps_writes(7) assms] show ?thesis
    by (simp add: fun_eq_iff stored_group_def stored_device_def) (simp add: db')
qed

section \<open>Creating tasks\<close>

lemma sql_bind_Inr: "sql_bind m f db = (Inr y, db') \<longleftrightarrow> (\<exists>x db1. m db = (Inr x, db1) \<and> f x db1 = (Inr y, db'))"
  by (auto simp: sql_bind_def split: prod.splits sum.splits)

lemma sql_transaction_Inr: "sql_transaction m db = (Inr y, db') \<longleftrightarrow> m db = (Inr y, db')"
  by (auto simp: sql_transaction_def split: prod.splits sum.splits)

lemma checked_Inr: "checked P cs m db = (Inr y, db') \<Longrightarrow> m db = (Inr y, db') \<and> (\<forall>c \<in> set cs. fst c db)"
  using checked_cases[of P cs m db] by (auto simp: refuse_def sql_fail_def)

lemma store_new_task_Inr:
  assumes "store_new_task P (Some i) ids_shares row db = (Inr x, db')" "tm_id (row i) = i"
  shows "i \<notin> known_tasks db" "fst ` set ids_shares \<subseteq> known_devices db"
    "db' = db\<lparr>db_task := db_task db @ [row i],
       db_task_participant := db_task_participant db @ new_task_participants i ids_shares\<rparr>"
proof -
  let ?db = "db\<lparr>db_task := db_task db @ [row i]\<rparr>" and ?rows = "new_task_participants i ids_shares"
  obtain n db1 where t: "insert_task P (row i) db = (Inr i, ?db)" "i \<notin> known_tasks db"
    and p: "insert_task_participants P ?rows ?db = (Inr n, db1)" "db' = db1"
    using assms by (auto simp: store_new_task_def sql_bind_Inr generate_id_def insert_task_def pg_get_task_def
        sql_query_def sql_return_def sql_fail_def dest!: checked_Inr split: option.splits)
  show "i \<notin> known_tasks db" by (fact t(2))
  have c: "list_all (\<lambda>r. tp_task_id r \<in> known_tasks ?db \<and> tp_device_id r \<in> known_devices ?db) ?rows"
    "db1 = ?db\<lparr>db_task_participant := db_task_participant ?db @ ?rows\<rparr>"
    using p(1) by (auto simp: insert_task_participants_def dest!: checked_Inr)
  then show "fst ` set ids_shares \<subseteq> known_devices db"
    by (auto simp: list_all_iff new_task_participants_def)
  show "db' = db\<lparr>db_task := db_task db @ [row i], db_task_participant := db_task_participant db @ ?rows\<rparr>"
    using c(2) p(2) by simp
qed

lemma find_append: "find P (xs @ ys) = (case find P xs of Some x \<Rightarrow> Some x | None \<Rightarrow> find P ys)"
  by (induction xs) auto

text \<open>The participants of a new task: each of the devices named, as the database has it.\<close>

lemma new_parts:
  assumes "tables_ok db" "fst ` set ids_shares \<subseteq> known_devices db"
  shows "new_participants (stored_device db) ids_shares (concat (map (\<lambda>p. map (\<lambda>d. \<lparr>part_device = d, part_shares = tp_shares p\<rparr>)
    (joined_devices db (tp_device_id p))) (new_task_participants i ids_shares)))"
  using assms(2)
proof (induction ids_shares)
  case (Cons x xs)
  obtain b n where x: "x = (b, n)" by fastforce
  then have "b \<in> known_devices db" using Cons.prems by simp
  then obtain d where d: "joined_devices db b = [d]" "dev_id d = b" "stored_device db b = Some d"
    using joined_device[OF assms(1)] by metis
  with Cons x show ?case by (simp add: new_participants_def new_task_participants_def)
qed (simp add: new_participants_def new_task_participants_def)

lemma no_rows_of_unknown:
  assumes "tables_ok db" "i \<notin> known_tasks db"
  shows "filter (\<lambda>p. tp_task_id p = i) (db_task_participant db) = []"
    "find (\<lambda>x. tr_task_id x = i) (db_task_result db) = None"
    "find (\<lambda>a. ap_key a = (i, b)) (db_active_task_participant db) = None"
    "find (\<lambda>p. tp_key p = (i, b)) (db_task_participant db) = None"
proof -
  have p: "tp_task_id p \<noteq> i" if "p \<in> set (db_task_participant db)" for p
    using tables_okD(7)[OF assms(1) that] assms(2) by auto
  then show "filter (\<lambda>p. tp_task_id p = i) (db_task_participant db) = []"
    "find (\<lambda>p. tp_key p = (i, b)) (db_task_participant db) = None"
    by (auto simp: filter_empty_conv find_None_iff)
  show "find (\<lambda>x. tr_task_id x = i) (db_task_result db) = None"
    using tables_okD(9)[OF assms(1)] assms(2) by (auto simp: find_None_iff)
  show "find (\<lambda>a. ap_key a = (i, b)) (db_active_task_participant db) = None"
    using tables_okD(8)[OF assms(1)] p by (fastforce simp: find_None_iff)
qed

lemma created_record:
  assumes ok: "tables_ok db" and "store_new_task P (Some i) ids_shares row db = (Inr x, db')" "tm_id (row i) = i"
  shows "stored_group db' = stored_group db \<and> stored_device db' = stored_device db \<and>
    (\<exists>ps. new_participants (stored_device db) ids_shares ps \<and>
       stored_record db' = (stored_record db)(i \<mapsto> new_record (task_row.extend (row i) \<lparr>tm_result = None\<rparr>) ps))"
proof -
  note c = store_new_task_Inr[OF assms(2,3)]
  note none = no_rows_of_unknown[OF ok c(1)]
  let ?new = "new_task_participants i ids_shares"
  let ?ps = "concat (map (\<lambda>p. map (\<lambda>d. \<lparr>part_device = d, part_shares = tp_shares p\<rparr>) (joined_devices db (tp_device_id p))) ?new)"
  have joined: "joined_devices db' = joined_devices db" by (simp add: c(3) joined_devices_def fun_eq_iff)
  have mine: "filter (\<lambda>p. tp_task_id p = j) ?new = (if j = i then ?new else [])" for j
    by (auto simp: new_task_participants_def filter_empty_conv filter_id_conv)
  have parts: "task_parts db' j = (if j = i then ?ps else task_parts db j)" for j
    unfolding task_parts_def joined using none(1) by (simp add: mine c(3))
  have fresh: "find (\<lambda>p. tp_key p = (j, b)) ?new = None" if "j \<noteq> i" for j b
    using that by (auto simp: new_task_participants_def find_None_iff)
  have undecided: "Option.bind (find (\<lambda>p. tp_key p = (i, b)) ?new) tp_decision = None" for b
  proof (cases "find (\<lambda>p. tp_key p = (i, b)) ?new")
    case (Some p)
    moreover have "\<forall>q \<in> set ?new. tp_decision q = None" by (auto simp: new_task_participants_def)
    ultimately show ?thesis using find_member[OF Some] by simp
  qed simp
  have dec: "task_decision db' j = (if j = i then Map.empty else task_decision db j)" for j
    using none(4) fresh[of j] undecided
    by (simp add: task_decision_def c(3) find_append fun_eq_iff del: prod.inject split: option.splits)
  have acks: "task_acknowledged db' j = (if j = i then {} else task_acknowledged db j)" for j
    unfolding task_acknowledged_def c(3) using none(1)
    by (simp add: mine del: filter_filter) (auto simp: new_task_participants_def filter_empty_conv)
  have act: "task_active db' j = (if j = i then Map.empty else task_active db j)" for j
    using none(3) by (auto simp: task_active_def c(3) fun_eq_iff)
  have "stored_record db' j = ((stored_record db)(i \<mapsto> new_record (task_row.extend (row i) \<lparr>tm_result = None\<rparr>) ?ps)) j" for j
    using c(1) none(2) assms(3) find_known[of tm_id i "db_task db"]
    by (simp add: stored_record_def parts dec acks act new_record_def) (auto simp: c(3) find_append split: option.splits)
  with new_parts[OF ok c(2)] show ?thesis
    by (intro conjI exI[of _ ?ps]) (auto simp: c(3) stored_group_def stored_device_def fun_eq_iff)
qed

lemma pg_create_group:
  assumes "tables_ok db" "pg_create_group_task P (Some i) ids_shares th n pt kt req nt db = (Inr x, db')"
  shows "tables_ok db' \<and> stored_group db' = stored_group db \<and> stored_device db' = stored_device db \<and>
    (\<exists>ps. new_participants (stored_device db) ids_shares ps \<and>
       stored_record db' = (stored_record db)(i \<mapsto> new_record (group_model i th n pt kt req nt) ps))"
  using created_record[OF assms(1)] assms(2) keepsD[OF keeps_writes(4) assms]
  by (fastforce simp: pg_create_group_task_def sql_transaction_Inr sql_bind_Inr try_into_i32_def sql_return_def sql_fail_def
      group_model_def task_row.extend_def split: if_splits)

lemma pg_create_threshold:
  assumes "tables_ok db" "pg_create_task P (Some i) g ids_shares th n dt req tt kt pt db = (Inr x, db')"
  shows "tables_ok db' \<and> stored_group db' = stored_group db \<and> stored_device db' = stored_device db \<and>
    (\<exists>ps. new_participants (stored_device db) ids_shares ps \<and>
       stored_record db' = (stored_record db)(i \<mapsto> new_record (threshold_model i g th n dt req tt kt pt) ps))"
  using created_record[OF assms(1)] assms(2) keepsD[OF keeps_writes(3) assms]
  by (fastforce simp: pg_create_task_def sql_transaction_Inr sql_return_def sql_fail_def
      threshold_model_def task_row.extend_def split: if_splits)

section \<open>The repository keeps the contract\<close>

lemma concat_map_Nil: "concat (map (\<lambda>_. []) xs) = []"
  by (induction xs) auto

lemma pg_read_nothing: "pg_get_task_models [] db = (Inr [], db)" "pg_get_tasks_participants [] db = (Inr [], db)"
  by (simp_all add: pg_get_task_models_def pg_get_tasks_participants_def sql_query_def concat_map_Nil)

interpretation pg: task_database "postgres P" tables_ok stored_record stored_group stored_device for P
proof (unfold_locales, goal_cases)
  case (4 db i d)
  then show ?case using pg_read_participants[OF 4] by (intro exI[of _ "sd_participants d"]) simp
qed (auto simp: pg_read_models pg_read_nothing pg_read_decisions pg_read_group pg_stored_id pg_read_active
    intro: pg_write_decision dest: pg_write_active pg_create_group pg_create_threshold)

section \<open>Properties\<close>

text \<open>A database with three devices and their group, and a server on it that has no task yet.\<close>

definition sample_database :: database_env where
  "sample_database = \<lparr>violation_message = (\<lambda>v. ''refused''), uuid_generate_v4 = (\<lambda>n. replicate 16 2)\<rparr>"

definition sample_tables :: tables where
  "sample_tables = empty_tables\<lparr>db_device := [sample_device 5, sample_device 6, sample_device 7],
     db_group := [\<lparr>grp_id = [4], grp_name = ''g'', grp_threshold = 2, grp_protocol = Gg18,
       grp_key_type = KT_SignChallenge, grp_certificate = None, grp_note = None\<rparr>],
     db_group_participant := [\<lparr>gp_group_id = [4], gp_device_id = [7], gp_shares = 3\<rparr>,
       \<lparr>gp_group_id = [4], gp_device_id = [5], gp_shares = 1\<rparr>, \<lparr>gp_group_id = [4], gp_device_id = [6], gp_shares = 1\<rparr>]\<rparr>"

definition sample_pg_deps :: "(tables, sample_tx) deps" where
  "sample_pg_deps = \<lparr>dp_env = sample_env, dp_repo = postgres sample_database, dp_chan = sample_channel\<rparr>"

definition sample_pg_server :: "tables \<Rightarrow> (tables, sample_tx) server_state" where
  "sample_pg_server db = \<lparr>cs_repo = db, cs_task_cache = Map.empty, ss_devices = [], ss_subscribers = [],
     ss_task_last_updates = Map.empty, ss_device_last_activations = Map.empty, ss_world = sample_world\<rparr>"

definition sample_new_voting :: voting_task where
  "sample_new_voting = sample_voting\<lparr>vt_decisions := []\<rparr>"

lemma sample_tables_ok: "tables_ok sample_tables"
  by (simp add: tables_ok_def sample_tables_def empty_tables_def sample_device_def group_check_def)

lemma sample_tables_known:
  "\<forall>p \<in> set (ti_participants (vt_task_info sample_voting)). stored_device sample_tables (part_id p) = Some (part_device p)"
  "stored_group sample_tables [4] = Some sample_group"
  by (simp_all add: stored_device_def stored_group_def sample_tables_def empty_tables_def sample_voting_defs
      group_row.extend_def)

lemma sample_name_valid: "is_name_valid ''doc''"
  by code_simp

text \<open>C14. A vote survives a restart. A new task is created in the database and then takes votes that do not decide
  it yet, each through the server's handler. All of them are taken, and a server that
  is started on the database with nothing in memory gets the task back as it was: still being voted on, with the same
  participants, thresholds, group and data, and every participant's vote as it was last cast. Only the observers of the task and
  the order of its participants may differ.\<close>

theorem restart_resumes_the_vote:
  fixes D :: "(tables, 'tx) deps"
  assumes "dp_repo D = postgres P" "tables_ok (cs_repo s)" "new_voting v" "votes_ok v"
    and "persist_task (postgres P) v s = (Inr evicted, s1)"
    and "\<forall>p \<in> set (ti_participants (vt_task_info v)). stored_device (cs_repo s) (part_id p) = Some (part_device p)"
    and "\<forall>grp. context_group (vt_running_task_context v) = Some grp \<longrightarrow> stored_group (cs_repo s) (grp_id grp) = Some grp"
    and "votes_taken v votes = Some w"
  shows "\<exists>s2 w'. take_votes D (ti_id (vt_task_info v)) votes s1 = (Inr (), s2) \<and>
    cs_task_cache s2 (ti_id (vt_task_info v)) = Some (Voting_Task w) \<and>
    get_task (dp_env D) (postgres P) (ti_id (vt_task_info v)) (s2\<lparr>cs_task_cache := Map.empty\<rparr>) =
      (Inr (Voting_Task w'), s2\<lparr>cs_task_cache := [ti_id (vt_task_info v) \<mapsto> Voting_Task w']\<rparr>) \<and>
    same_voting w w'"
  by (rule pg.vote_resumed[OF assms(1-6) _ assms(8)]) (use assms(7) in blast)

theorem restart_resumes_the_vote_witness:
  "\<exists>s1 s2 w'. persist_task (postgres sample_database) sample_new_voting (sample_pg_server sample_tables) = (Inr None, s1) \<and>
     take_votes sample_pg_deps (replicate 16 1) [([5], True)] s1 = (Inr (), s2) \<and>
     fst (get_task sample_env (postgres sample_database) (replicate 16 1) (s2\<lparr>cs_task_cache := Map.empty\<rparr>)) =
       Inr (Voting_Task w') \<and> vote_in w' [5] = 1 \<and> vote_in w' [7] = 0"
proof -
  let ?s = "sample_pg_server sample_tables" and ?P = "sample_database"
  have new: "new_voting sample_new_voting" "votes_ok sample_new_voting"
    by (simp_all add: new_voting_def sample_new_voting_def sample_voting_defs votes_ok_def participants_ok_def share_sum_def)
  obtain s1 where p: "persist_task (postgres ?P) sample_new_voting ?s = (Inr None, s1)"
    by (simp add: persist_task_def persist_threshold_task_def sample_new_voting_def sample_voting_defs pg_create_task_def
        store_new_task_def insert_task_def insert_task_participants_def new_task_participants_def generate_id_def checked_def
        pg_get_task_def with_result_def sql_defs eff_bind_def eff_defs call_repo_def put_task_def text_ok_def
        task_check_def sample_name_valid sample_pg_server_def sample_tables_def empty_tables_def Let_def)
  define w where "w = sample_new_voting\<lparr>vt_decisions := [([5], 1)]\<rparr>"
  have w: "votes_taken sample_new_voting [([5], True)] = Some w"
    by (simp add: w_def decide_def sample_new_voting_def sample_voting_defs hm_insert_def accepts_rejects_def
        unsigned_abs_def reject_threshold_def total_shares_def word_le_nat_alt Let_def)
  have known: "\<forall>p \<in> set (ti_participants (vt_task_info sample_new_voting)). stored_device (cs_repo ?s) (part_id p) = Some (part_device p)"
    "\<forall>grp. context_group (vt_running_task_context sample_new_voting) = Some grp \<longrightarrow> stored_group (cs_repo ?s) (grp_id grp) = Some grp"
    using sample_tables_known by (simp_all add: sample_new_voting_def sample_pg_server_def sample_voting_def sample_group_def)
  have "dp_repo sample_pg_deps = postgres ?P" "dp_env sample_pg_deps = sample_env" "tables_ok (cs_repo ?s)"
    by (simp_all add: sample_pg_deps_def sample_pg_server_def sample_tables_ok)
  from restart_resumes_the_vote[OF this(1,3) new p known w] this(2)
  show ?thesis using p by (auto simp: same_voting_def w_def sample_new_voting_def sample_voting_defs vote_in_def)
qed

text \<open>The same database with a signing task that the device with three shares has accepted.\<close>

definition sample_task_row :: task_row where
  "sample_task_row = \<lparr>tm_id = replicate 16 1, tm_protocol_round = 0, tm_attempt_count = 0, tm_threshold = 2,
     tm_name = ''doc'', tm_task_data = Some [1], tm_preprocessed = None, tm_request = [], tm_group_id = Some [4],
     tm_task_type = TT_SignChallenge, tm_task_state = Created, tm_key_type = KT_SignChallenge,
     tm_protocol_type = Gg18, tm_note = None, tm_group_certificates_sent = None\<rparr>"

definition sample_accepted_tables :: tables where
  "sample_accepted_tables = sample_tables\<lparr>db_task := [sample_task_row],
     db_task_participant := map (\<lambda>(device_id, shares, decision). \<lparr>tp_task_id = replicate 16 1, tp_device_id = device_id,
         tp_shares = shares, tp_decision = decision, tp_acknowledgment = None\<rparr>)
       [([5], 1, Some False), ([6], 1, None), ([7], 3, Some True)]\<rparr>"

lemma sample_accepted_tables_ok: "tables_ok sample_accepted_tables"
  using sample_tables_ok
  by (simp add: tables_ok_def sample_accepted_tables_def sample_tables_def empty_tables_def task_check_def sample_task_row_def
      sample_device_def)

lemma sample_accepted_record:
  "\<exists>d. stored_record sample_accepted_tables (replicate 16 1) = Some d \<and> tracks d sample_accepted \<and> sd_active d = Map.empty \<and>
     mset (ti_participants sample_task_info) = mset (sd_participants d)"
  by (simp add: stored_record_def tracks_def context_stored_def threshold_stored_def task_parts_def task_decision_def
      task_active_def recorded_vote_def vote_in_def task_info_of_model_def task_row.extend_def joined_devices_def
      sample_accepted_def sample_voting_defs sample_accepted_tables_def sample_tables_def sample_task_row_def empty_tables_def
      fun_eq_iff)



end
