(* ===== verification/Service.thy ===== *)
theory Service
  imports Grpc Timer Task_Frames Postgres_Laws
begin

text \<open>
  The server as its clients see it: whom it serves, in whose name a request acts, what registration gives, and
  what holds along every sequence of requests and ticks of the timer.
\<close>

section \<open>Requests and the identity of their sender\<close>

fun needs_device :: "rpc_request \<Rightarrow> bool" where
  "needs_device (Rpc_Update_Task _ _ _) = True"
| "needs_device (Rpc_Decide_Task _ _) = True"
| "needs_device (Rpc_Acknowledge_Task _) = True"
| "needs_device Rpc_Subscribe_Updates = True"
| "needs_device _ = False"

lemmas handler_defs = rpc_get_server_info_def rpc_register_def rpc_sign_def rpc_decrypt_def rpc_get_task_def
  rpc_update_task_def rpc_get_tasks_def rpc_get_groups_def rpc_group_def rpc_get_devices_def rpc_log_def
  rpc_decide_task_def rpc_acknowledge_task_def rpc_subscribe_updates_def require_device_def

text \<open>Every handler begins with the check of its sender.\<close>

lemma service_checks_first:
  "\<exists>f. meesign_service G D c req = rpc_bind (check_client_auth G c (needs_device req)) f"
proof -
  have assoc: "rpc_bind (rpc_bind m f) g = rpc_bind m (\<lambda>x. rpc_bind (f x) g)"
    for m :: "('r, 'tx, unit) rpc" and f :: "unit \<Rightarrow> ('r, 'tx, bytes) rpc" and g :: "bytes \<Rightarrow> ('r, 'tx, 'tx rpc_response) rpc"
    by (rule ext) (simp add: rpc_bind_def split: prod.splits sum.splits)
  show ?thesis by (cases req) (auto simp: handler_defs assoc)
qed

lemma check_refuses:
  assumes "fst (check_client_auth G c (needs_device req) s) = Inl e"
  shows "meesign_service G D c req s = (Inl e, s)"
proof -
  have "check_client_auth G c (needs_device req) s = (Inl e, s)"
    using assms by (auto simp: check_client_auth_def rpc_defs split: option.splits if_splits)
  with service_checks_first[of G D c req] show ?thesis by (auto simp: rpc_bind_def)
qed

lemma require_device_known:
  assumes "extract_device_id G c = Some d" "device_exists s d"
  shows "rpc_bind (require_device G c) f s = f d s"
  using assms by (simp add: require_device_def check_client_auth_def rpc_defs)

text \<open>The last steps of the handlers.\<close>

lemma rpc_last_try:
  "snd (rpc_bind (rpc_try f) (\<lambda>_. rpc_return x) s) = snd (f s)"
  "fst (rpc_bind (rpc_try f) (\<lambda>_. rpc_return x) s) = (if fst (f s) = Inl Panic then Inl Handler_Panic else Inr x)"
  by (cases "f s"; cases "fst (f s)"; auto simp: rpc_defs split: failure.splits)+

lemma rpc_last_call: "snd (rpc_bind (rpc_call f) (\<lambda>_. rpc_return x) s) = snd (f s)"
  by (cases "f s"; cases "fst (f s)"; auto simp: rpc_defs split: failure.splits)

lemma rpc_activate: "rpc_bind (rpc_call (activate_device D d)) g s = g () (snd (activate_device D d s))"
  by (simp add: rpc_defs activate_device_state)

lemma rpc_uuid: "rpc_bind (rpc_unwrap (uuid_from_slice b)) f s = (if length b = 16 then f b s else (Inl Handler_Panic, s))"
  by (simp add: rpc_defs uuid_from_slice_def)

text \<open>What follows from an answer, for the steps of the handlers.\<close>

lemma rpc_answer:
  "rpc_bind m f s = (Inr y, s') \<longleftrightarrow> (\<exists>x s1. m s = (Inr x, s1) \<and> f x s1 = (Inr y, s'))"
  "rpc_return x s = (Inr y, s') \<longleftrightarrow> x = y \<and> s = s'"
  "rpc_fail e s \<noteq> (Inr y, s')"
  "rpc_unwrap z s = (Inr y, s') \<longleftrightarrow> z = Some y \<and> s = s'"
  "rpc_try g s = (Inr r, s') \<longleftrightarrow> (case r of Inr x \<Rightarrow> g s = (Inr x, s') | Inl e \<Rightarrow> g s = (Inl (Err e), s'))"
  "rpc_call g s = (Inr x, s') \<longleftrightarrow> g s = (Inr x, s')"
  by (auto simp: rpc_defs split: prod.splits sum.splits option.splits failure.splits)

lemma check_passed: "check_client_auth G c required s = (Inr y, s') \<Longrightarrow> s' = s"
  by (auto simp: check_client_auth_def rpc_defs split: option.splits if_splits)

section \<open>What every request keeps\<close>

text \<open>The state changes within a relation, when it starts where a predicate holds.\<close>

definition rpc_within ::
    "(('r, 'tx) server_state \<Rightarrow> ('r, 'tx) server_state \<Rightarrow> bool) \<Rightarrow> (('r, 'tx) server_state \<Rightarrow> bool) \<Rightarrow>
     ('r, 'tx, 'a) rpc \<Rightarrow> bool" where
  "rpc_within R P m = (\<forall>s. P s \<longrightarrow> R s (snd (m s)))"

text \<open>The checks at the beginning of a handler leave the state as it is.\<close>

definition rpc_pure :: "('r, 'tx, 'a) rpc \<Rightarrow> bool" where
  "rpc_pure m = (\<forall>s. snd (m s) = s)"

lemma rpc_pure_checks: "rpc_pure (check_client_auth G c required)" "rpc_pure (rpc_unwrap y)"
  by (auto simp: rpc_pure_def rpc_defs check_client_auth_def split: option.splits)

lemma rpc_within_after_check:
  assumes "rpc_pure m" "\<And>s. R s s" "\<And>x. rpc_within R P (f x)"
  shows "rpc_within R P (rpc_bind m f)"
  unfolding rpc_within_def
proof (intro allI impI)
  fix s assume "P s"
  obtain r where m: "m s = (r, s)" using assms(1) by (metis rpc_pure_def prod.collapse)
  show "R s (snd (rpc_bind m f s))"
    using assms(2,3) \<open>P s\<close> m by (cases r) (auto simp: rpc_bind_def rpc_within_def)
qed

text \<open>A relation that is kept along the steps of a handler.\<close>

locale rpc_frame =
  fixes R :: "('r, 'tx) server_state \<Rightarrow> ('r, 'tx) server_state \<Rightarrow> bool"
  assumes same: "R s s" and trans: "R s s' \<Longrightarrow> R s' s'' \<Longrightarrow> R s s''"
begin

abbreviation always :: "('r, 'tx, 'a) rpc \<Rightarrow> bool" where
  "always \<equiv> rpc_within R (\<lambda>_. True)"

lemma pure: "rpc_within R P (rpc_return x)" "rpc_within R P (rpc_fail e)" "rpc_within R P (rpc_unwrap y)"
  "rpc_within R P (check_client_auth G c required)"
  by (auto simp: rpc_within_def rpc_defs check_client_auth_def same split: option.splits)

lemma bind:
  assumes "rpc_within R P m" "\<And>x. always (f x)"
  shows "rpc_within R P (rpc_bind m f)"
  unfolding rpc_within_def
proof (intro allI impI)
  fix s assume "P s"
  with assms(1) have "R s (snd (m s))" by (simp add: rpc_within_def)
  moreover have "R (snd (m s)) (snd (f x (snd (m s))))" for x
    using assms(2) by (simp add: rpc_within_def)
  ultimately show "R s (snd (rpc_bind m f s))"
    by (auto simp: rpc_bind_def split: prod.splits sum.splits intro: trans)
qed

lemma calls:
  assumes "\<And>s. P s \<Longrightarrow> R s (snd (f s))"
  shows "rpc_within R P (rpc_try f)" "rpc_within R P (rpc_call f)"
proof -
  show t: "rpc_within R P (rpc_try f)"
    unfolding rpc_within_def
  proof (intro allI impI)
    fix s assume "P s"
    have "snd (rpc_try f s) = snd (f s)" by (simp add: rpc_try_def split: prod.splits sum.splits failure.splits)
    with assms[OF \<open>P s\<close>] show "R s (snd (rpc_try f s))" by simp
  qed
  show "rpc_within R P (rpc_call f)"
    unfolding rpc_call_def by (rule bind[OF t]) (auto intro!: pure split: sum.splits)
qed

end

text \<open>
  A relation that every operation on tasks but a decision respects, and that holds when the cached tasks are kept.
  Every request but a decision then respects it, and so does the timer.
\<close>

locale request_frame = rpc_frame R for R :: "('r, 'tx) server_state \<Rightarrow> ('r, 'tx) server_state \<Rightarrow> bool" +
  fixes D :: "('r, 'tx) deps"
  assumes kept: "cache_kept s s' \<Longrightarrow> R s s'"
    and update: "R s (snd (update_task D i d ms a s))"
    and acknowledge: "R s (snd (acknowledge_task D i d s))"
    and restart: "R s (snd (restart_stale_tasks D s))"
begin

lemma keeping: "eff_within cache_kept f \<Longrightarrow> R s (snd (f s))"
  by (rule kept) (simp add: eff_within_def)

lemma readers:
  "R s (snd (get_formatted_task D i dev s))" "R s (snd (get_formatted_tasks D s))"
  "R s (snd (get_formatted_active_device_tasks D d s))" "R s (snd (activate_device D d s))"
  "R s (snd (get_devices D s))" "R s (snd (add_subscriber d tx s))" "R s (snd (add_device D d n k cert s))"
  "R s (snd (get_timestamp D s))" "R s (snd (env_call g s))" "R s (snd (get_groups D s))"
  "R s (snd (get_device_groups D d s))"
  by (auto intro!: keeping kept_intros kept_same same_devices same_intros simp: get_groups_def get_device_groups_def)

lemma adding: "rpc_within R (fresh_uuid D) (rpc_sign G D c g n data)"
  "rpc_within R (fresh_uuid D) (rpc_decrypt G D c g n data ty)" "rpc_within R (fresh_uuid D) (rpc_group G D c n ds th p k)"
  unfolding rpc_sign_def rpc_decrypt_def rpc_group_def
  by (rule rpc_within_after_check[OF rpc_pure_checks(1) same],
      ((rule rpc_within_after_check[OF rpc_pure_checks(2) same])+)?,
      rule bind, rule calls, rule kept, erule additions_keep, (auto intro!: pure split: sum.splits)[1])+

lemma request_within:
  assumes "\<And>i a. req \<noteq> Rpc_Decide_Task i a" "fresh_uuid D s"
  shows "R s (snd (meesign_service G D c req s))"
proof -
  have "rpc_within R (fresh_uuid D) (meesign_service G D c req)"
    using assms(1) by (cases req) (auto simp: adding, auto simp: handler_defs grpc_issue_certificate_def generate_jwt_def
        activate_named_def Let_def intro!: pure bind calls readers update acknowledge split: option.splits sum.splits)
  with assms(2) show ?thesis by (simp add: rpc_within_def)
qed

lemma tick_within: "R s (snd (timer_tick D s))"
proof -
  have "cache_kept s (snd (check_subscribers D s))" for s
    using scan_subscribers_result[of D "ss_subscribers s" s]
    by (auto simp: check_subscribers_def eff_bind_def eff_gets_def remove_subscribers_result cache_kept_def)
  then show ?thesis
    using restart[of s] trans kept
    by (auto simp: timer_tick_def check_tasks_def split: prod.splits sum.splits)
qed

end

text \<open>A relation that decisions respect too.\<close>

locale service_frame = request_frame +
  assumes decide: "R s (snd (decide_task D i d accept s))"
begin

lemma service_within:
  assumes "fresh_uuid D s"
  shows "R s (snd (meesign_service G D c req s))"
proof (cases "\<exists>i a. req = Rpc_Decide_Task i a")
  case True
  then obtain i a where req: "req = Rpc_Decide_Task i a" by blast
  have "always (rpc_decide_task G D c i a)"
    unfolding rpc_decide_task_def require_device_def by (intro bind pure calls readers decide)
  then show ?thesis by (simp add: req rpc_within_def)
qed (use request_within[OF _ assms] in blast)

end

interpretation evolving: service_frame tasks_evolve D for D
  by unfold_locales (auto intro: tasks_evolve_kept tasks_evolve_trans intro!: lets_evolveD update_task_evolves
      decide_task_evolves acknowledge_task_evolves restart_stale_tasks_evolves)

interpretation votings: request_frame votings_kept D for D
  by unfold_locales (rule eff_within_snd, rule votings_handlers votings_restart_stale
    | force simp: votings_kept_def dest: cache_keptD)+

section \<open>Registration\<close>

lemma rpc_try_Inr: "rpc_try f s = (Inr (Inr x), s') \<longleftrightarrow> f s = (Inr x, s')"
  by (auto simp: rpc_try_def split: prod.splits sum.splits failure.splits)

text \<open>What the libraries document of tokens: what is encoded is decoded again.\<close>

definition tokens_ok :: "'tx grpc_env \<Rightarrow> bool" where
  "tokens_ok G =
     ((\<forall>sub iat token. jwt_encode G sub iat = Inr token \<longrightarrow> jwt_decode G token = Some sub) \<and>
      (\<forall>b. hex_bytes G (hex_string G b) = Some b))"

lemma generate_jwt_result:
  "generate_jwt G D d s = (Inr (case jwt_encode G (hex_string G d) (system_time (dp_env D) (w_calls (ss_world s))) of
       Inl e \<Rightarrow> Inl (Internal (''Failed to generate token: '' @ e)) | Inr token \<Rightarrow> Inr token),
     s\<lparr>ss_world := snd (next_call (ss_world s))\<rparr>)"
  by (simp add: generate_jwt_def rpc_defs get_timestamp_def env_call_def next_call_def)

lemma token_recognised:
  assumes "tokens_ok G" "jwt_encode G (hex_string G d) iat = Inr token"
  shows "extract_device_id G \<lparr>peer_certs = None, authorization = Some (Some (''Bearer '' @ token))\<rparr> = Some d"
  using assms by (simp add: tokens_ok_def extract_device_id_def token_device_id_def bearer_token_def validate_jwt_def)

lemma registered:
  assumes "rpc_register G D c name csr s = (Inr (Registration_Response device_id certificate token), s')"
  obtains s1 device s2 where "add_device D device_id name User certificate s1 = (Inr device, s2)"
    "device_id = sha256 G certificate" "s' = s2\<lparr>ss_world := snd (next_call (ss_world s2))\<rparr>"
    "\<And>t. token = Some t \<Longrightarrow> \<exists>iat. jwt_encode G (hex_string G device_id) iat = Inr t"
proof -
  obtain s1 added s2 where a: "rpc_try (add_device D (sha256 G certificate) name User certificate) s1 = (Inr (Inr added), s2)"
    "device_id = sha256 G certificate" "s' = s2\<lparr>ss_world := snd (next_call (ss_world s2))\<rparr>"
    "token = (case jwt_encode G (hex_string G device_id) (system_time (dp_env D) (w_calls (ss_world s2))) of
       Inl e \<Rightarrow> None | Inr t \<Rightarrow> Some t)"
    using assms unfolding rpc_register_def Let_def rpc_answer(1) cert_to_id_def generate_jwt_result
    by (fastforce simp: rpc_return_def rpc_fail_def rpc_answer(1) generate_jwt_result split: sum.splits)
  with that show ?thesis by (auto simp: rpc_try_Inr split: sum.splits)
qed

lemma pg_add_device_stored:
  assumes "pg_add_device P i n k cert db = (Inr device, db')"
  shows "device = \<lparr>dev_id = i, dev_name = n, dev_kind = k, dev_certificate = cert\<rparr>"
    "stored_device db' = (stored_device db)(i \<mapsto> device)" "is_name_valid n" "db_device db' = db_device db @ [device]"
proof -
  have c: "is_name_valid n" "device = \<lparr>dev_id = i, dev_name = n, dev_kind = k, dev_certificate = cert\<rparr>"
    "i \<notin> known_devices db" "db' = db\<lparr>db_device := db_device db @ [device]\<rparr>"
    using assms by (auto simp: pg_add_device_def insert_device_def sql_fail_def dest!: checked_Inr split: if_splits)
  then show "device = \<lparr>dev_id = i, dev_name = n, dev_kind = k, dev_certificate = cert\<rparr>" "is_name_valid n"
    "db_device db' = db_device db @ [device]" by simp_all
  have "find (\<lambda>d. dev_id d = i) (db_device db) = None" using c(3) find_known[of dev_id i "db_device db"] by simp
  with c show "stored_device db' = (stored_device db)(i \<mapsto> device)"
    by (simp add: stored_device_def fun_eq_iff find_append split: option.splits)
qed

text \<open>The devices that are loaded at the start are those of the database.\<close>

lemma restored_devices:
  "\<exists>restored. restore (postgres P) db w = (Inr restored, db) \<and>
     (\<forall>i. device_exists restored i \<longleftrightarrow> i \<in> dev_id ` set (db_device db))"
proof -
  let ?ds = "hm_collect (map (\<lambda>dev. (dev_id dev, dev)) (db_device db))"
  have "map_of ?ds i \<noteq> None \<longleftrightarrow> i \<in> dev_id ` set (db_device db)" for i
    using hm_keys_lookup[of i ?ds] by (simp add: image_image)
  then show ?thesis
    by (simp add: restore_def postgres_def pg_get_devices_def sql_query_def device_exists_def del: not_None_eq)
qed

section \<open>Runs of the server\<close>

text \<open>
  The states the server comes to by requests of any clients, in any order and with any credentials, and by its timer. Tasks that were
  read from the database may be put into the cache later, when other requests have been served, and so with any content; and the
  database may change at any time.
\<close>

inductive serves :: "'tx grpc_env \<Rightarrow> ('r, 'tx) deps \<Rightarrow> ('r, 'tx) server_state \<Rightarrow> ('r, 'tx) server_state \<Rightarrow> bool"
  for G D s0 where
  start: "serves G D s0 s0"
| request: "serves G D s0 s \<Longrightarrow> fresh_uuid D s \<Longrightarrow> serves G D s0 (snd (meesign_service G D c req s))"
| tick: "serves G D s0 s \<Longrightarrow> serves G D s0 (snd (timer_tick D s))"
| hydration: "serves G D s0 s \<Longrightarrow> serves G D s0 (snd (cache_all tasks s))"
| database: "serves G D s0 s \<Longrightarrow> serves G D s0 (s\<lparr>cs_repo := db\<rparr>)"

lemma serves_evolves: "serves G D s s' \<Longrightarrow> tasks_evolve s s'"
proof (induction rule: serves.induct)
  case (hydration s tasks)
  have "cache_kept s (snd (cache_all tasks s))" using kept.frame_cache_all by (rule eff_within_snd)
  with hydration show ?case by (blast intro: tasks_evolve_trans tasks_evolve_kept)
next
  case (database s db)
  then show ?case by (simp add: tasks_evolve_def)
qed (auto intro: tasks_evolve_trans evolving.service_within evolving.tick_within)

section \<open>Properties\<close>

text \<open>Libraries that work, for the witnesses: a certificate is its public key and identifies itself.\<close>

definition sample_grpc :: "sample_tx grpc_env" where
  "sample_grpc = \<lparr>
     csr_from_der = (\<lambda>b. if b = [] then None else Some \<lparr>csr_public_key = Some b, csr_verify = (\<lambda>_. Some True),
       csr_extensions = Some [[1]]\<rparr>),
     key_to_der = Some, ca_issuer_name = [1], random_serial = (\<lambda>n. replicate 16 (word_of_nat n)),
     sign_certificate = (\<lambda>d. Some (cd_public_key d)), sha256 = (\<lambda>b. b),
     hex_string = map (\<lambda>b. char_of (unat b)), hex_bytes = (\<lambda>t. Some (map (\<lambda>ch. word_of_nat (of_char ch)) t)),
     jwt_encode = (\<lambda>sub iat. Inr sub), jwt_decode = Some,
     decode_client_message = (\<lambda>b. if b = [] then None else Some (sample_message (hd b))),
     mpsc_channel = (\<lambda>n. []), cargo_pkg_version = None\<rparr>"

abbreviation sample_credentials :: "bytes \<Rightarrow> credentials" where
  "sample_credentials cert \<equiv> \<lparr>peer_certs = Some [cert], authorization = None\<rparr>"

definition sample_serving :: "task \<Rightarrow> (unit, sample_tx) server_state" where
  "sample_serving task = (sample_server task)\<lparr>ss_devices := [([7], sample_device 7), ([6], sample_device 6)]\<rparr>"

text \<open>C1. Tasks only move forward. Along every sequence of requests, whoever sends them and whatever they contain, and of ticks
  of the timer, with any answers of the database, the clock, the helpers and the devices, also through handlers that
  fail or panic midway and when tasks read from the database before are cached in between, a task in the cache stays the same task: it goes from voting to running, declined or
  failed and from running to finished or failed, never back, and once it is declined, finished or failed its
  outcome is final, only acknowledgements are added to it. The one assumption is that
  new tasks get identifiers that are not in use.\<close>

theorem tasks_only_move_forward:
  assumes "serves G D s s'" "cs_task_cache s task_id = Some t"
  shows "\<exists>t'. cs_task_cache s' task_id = Some t' \<and> evolves t t'"
  using serves_evolves[OF assms(1)] assms(2) by (auto simp: tasks_evolve_def)

theorem tasks_only_move_forward_witness:
  "\<exists>t'. cs_task_cache (snd (meesign_service sample_grpc sample_deps (sample_credentials [7])
        (Rpc_Decide_Task (replicate 16 1) False) (sample_serving (Voting_Task sample_voting)))) (replicate 16 1) = Some t' \<and>
    evolves (Voting_Task sample_voting) t'"
proof -
  have "fresh_uuid sample_deps (sample_serving (Voting_Task sample_voting))"
    by (simp add: fresh_uuid_def sample_deps_def sample_env_def sample_serving_def sample_server_def sample_world_def)
  then have "serves sample_grpc sample_deps (sample_serving (Voting_Task sample_voting))
      (snd (meesign_service sample_grpc sample_deps (sample_credentials [7])
        (Rpc_Decide_Task (replicate 16 1) False) (sample_serving (Voting_Task sample_voting))))"
    by (intro serves.intros)
  then show ?thesis
    by (rule tasks_only_move_forward) (simp add: sample_serving_def sample_server_def)
qed


text \<open>What a decision by the device with one share does to the sample task.\<close>

definition sample_voted :: voting_task where
  "sample_voted = sample_voting\<lparr>vt_decisions := [([5], - 1), ([6], 1)]\<rparr>"

lemma sample_decides: "decide sample_voting [6] True = (Inr Undecided, sample_voted)"
  by (simp add: sample_voted_def decide_def sample_voting_defs hm_insert_def accepts_rejects_def unsigned_abs_def
      reject_threshold_def total_shares_def word_le_nat_alt Let_def)

lemma sample_decision_served:
  "cs_task_cache (snd (meesign_service sample_grpc sample_deps (sample_credentials [6]) (Rpc_Decide_Task (replicate 16 1) True)
     (sample_serving (Voting_Task sample_voting)))) (replicate 16 1) = Some (Voting_Task sample_voted)"
proof -
  let ?s = "snd (activate_device sample_deps [6] (sample_serving (Voting_Task sample_voting)))"
  have d: "extract_device_id sample_grpc (sample_credentials [6]) = Some [6]"
    "device_exists (sample_serving (Voting_Task sample_voting)) [6]"
    by (simp_all add: extract_device_id_def cert_to_id_def sample_grpc_def device_exists_def sample_serving_def)
  have g: "get_task (dp_env sample_deps) (dp_repo sample_deps) (replicate 16 1) ?s = (Inr (Voting_Task sample_voting), ?s)"
    by (rule sample_get_task) (simp add: activate_device_state sample_serving_def sample_server_def)
  have "cs_task_cache (snd (decide_task sample_deps (replicate 16 1) [6] True ?s)) (replicate 16 1) = Some (Voting_Task sample_voted)"
    unfolding decide_task_def
    by (subst eff_bind_def) (simp add: g, simp add: sample_decides apply_decision_def eff_bind_def set_task_last_update_def
      get_timestamp_def env_call_def next_call_def eff_modify_def put_task_def eff_lift_def call_repo_def
      sample_deps_def sample_repo_def send_updates_def split: prod.splits)
  then show ?thesis
    by (simp add: rpc_decide_task_def require_device_known[OF d] rpc_uuid rpc_activate rpc_last_try)
qed


text \<open>C27. Only registered devices are served. A request that identifies itself as a device the server does not know is refused
  with a status, whatever it asks for, and changes nothing; and a request that acts on a task or subscribes to updates is refused in the
  same way when it does not identify itself at all. A certificate counts before a token.\<close>

theorem only_registered_devices_are_served:
  "(\<forall>d. extract_device_id G c = Some d \<and> \<not> device_exists s d \<longrightarrow>
      meesign_service G D c req s = (Inl (Status (Unauthenticated ''Unknown device'')), s)) \<and>
   (extract_device_id G c = None \<and> needs_device req \<longrightarrow>
      meesign_service G D c req s = (Inl (Status (Unauthenticated ''Authentication required'')), s)) \<and>
   (\<forall>cert certs. peer_certs c = Some (cert # certs) \<longrightarrow> extract_device_id G c = Some (sha256 G cert))"
proof (intro conjI allI impI)
  fix d assume "extract_device_id G c = Some d \<and> \<not> device_exists s d"
  then show "meesign_service G D c req s = (Inl (Status (Unauthenticated ''Unknown device'')), s)"
    by (intro check_refuses) (simp add: check_client_auth_def rpc_defs)
next
  assume "extract_device_id G c = None \<and> needs_device req"
  then show "meesign_service G D c req s = (Inl (Status (Unauthenticated ''Authentication required'')), s)"
    by (intro check_refuses) (simp add: check_client_auth_def rpc_defs)
qed (simp add: extract_device_id_def cert_to_id_def)

theorem only_registered_devices_are_served_witness:
  "meesign_service sample_grpc sample_deps (sample_credentials [5]) Rpc_Get_Devices (sample_serving (Voting_Task sample_voting)) =
     (Inl (Status (Unauthenticated ''Unknown device'')), sample_serving (Voting_Task sample_voting)) \<and>
   meesign_service sample_grpc sample_deps \<lparr>peer_certs = None, authorization = None\<rparr> (Rpc_Acknowledge_Task (replicate 16 1))
       (sample_serving (Voting_Task sample_voting)) =
     (Inl (Status (Unauthenticated ''Authentication required'')), sample_serving (Voting_Task sample_voting))"
proof -
  let ?s = "sample_serving (Voting_Task sample_voting)" and ?anon = "\<lparr>peer_certs = None, authorization = None\<rparr>"
  have "extract_device_id sample_grpc (sample_credentials [5]) = Some [5]" "\<not> device_exists ?s [5]"
    "extract_device_id sample_grpc ?anon = None"
    by (simp_all add: extract_device_id_def cert_to_id_def token_device_id_def sample_grpc_def device_exists_def sample_serving_def)
  then show ?thesis
    using only_registered_devices_are_served[of sample_grpc "sample_credentials [5]" ?s sample_deps Rpc_Get_Devices]
      only_registered_devices_are_served[of sample_grpc ?anon ?s sample_deps "Rpc_Acknowledge_Task (replicate 16 1)"]
    by auto
qed



lemma registration_stored:
  assumes "dp_repo D = postgres P"
    and "meesign_service G D c (Rpc_Register name csr) s = (Inr (Registration_Response device_id certificate token), s')"
  shows "device_id = sha256 G certificate" "is_name_valid name" "device_exists s' device_id"
    "stored_device (cs_repo s') device_id =
       Some \<lparr>dev_id = device_id, dev_name = name, dev_kind = User, dev_certificate = certificate\<rparr>"
    "device_id \<in> dev_id ` set (db_device (cs_repo s'))"
    "\<And>t. token = Some t \<Longrightarrow> \<exists>iat. jwt_encode G (hex_string G device_id) iat = Inr t"
proof -
  obtain s1 device s2 where r: "add_device D device_id name User certificate s1 = (Inr device, s2)"
    "device_id = sha256 G certificate" "s' = s2\<lparr>ss_world := snd (next_call (ss_world s2))\<rparr>"
    "\<And>t. token = Some t \<Longrightarrow> \<exists>iat. jwt_encode G (hex_string G device_id) iat = Inr t"
    using registered[of G D c name csr s] assms(2) by (metis meesign_service.simps(2))
  have a: "pg_add_device P device_id name User certificate (cs_repo s1) = (Inr device, cs_repo s')"
    "ss_devices s' = hm_insert (dev_id device) device (ss_devices s1)"
    using r(1,3) assms(1)
    by (auto simp: add_device_def eff_bind_def eff_defs call_repo_def split: prod.splits sum.splits elim!: res_of_persistence.elims)
  note st = pg_add_device_stored[OF a(1)]
  show "device_id \<in> dev_id ` set (db_device (cs_repo s'))" unfolding st(4) by (simp add: st(1))
  show "device_exists s' device_id" using a(2) st(1) by (simp add: device_exists_def)
  show "stored_device (cs_repo s') device_id =
      Some \<lparr>dev_id = device_id, dev_name = name, dev_kind = User, dev_certificate = certificate\<rparr>"
    unfolding st(2) st(1)[symmetric] by simp
  show "device_id = sha256 G certificate" "is_name_valid name" by (rule r(2), rule st(3))
  show "\<exists>iat. jwt_encode G (hex_string G device_id) iat = Inr t" if "token = Some t" for t by (rule r(4)[OF that])
qed

text \<open>C19. A device that has registered is recognised. The identifier it is told is the digest of its certificate. Its next
  connection with this certificate, and a request with the token it was given, are identified as this device, which the server knows
  and keeps in the database under the name it gave.\<close>

theorem registered_device_is_recognised:
  assumes "dp_repo D = postgres P" "tokens_ok G"
    and "meesign_service G D c (Rpc_Register name csr) s = (Inr (Registration_Response device_id certificate token), s')"
  shows "device_id = sha256 G certificate \<and> is_name_valid name \<and> device_exists s' device_id \<and>
    stored_device (cs_repo s') device_id =
      Some \<lparr>dev_id = device_id, dev_name = name, dev_kind = User, dev_certificate = certificate\<rparr> \<and>
    extract_device_id G \<lparr>peer_certs = Some [certificate], authorization = any\<rparr> = Some device_id \<and>
    (\<forall>t. token = Some t \<longrightarrow>
       extract_device_id G \<lparr>peer_certs = None, authorization = Some (Some (''Bearer '' @ t))\<rparr> = Some device_id)"
proof -
  note st = registration_stored[OF assms(1,3)]
  have "extract_device_id G \<lparr>peer_certs = Some [certificate], authorization = any\<rparr> = Some device_id"
    by (simp add: extract_device_id_def cert_to_id_def st(1))
  with st token_recognised[OF assms(2)] show ?thesis by blast
qed

lemma sample_tokens_ok: "tokens_ok sample_grpc"
proof -
  have "word_of_nat (unat b mod 256) = b" for b :: u8 using unsigned_less[of b, where 'a = nat] by simp
  then show ?thesis by (simp add: tokens_ok_def sample_grpc_def o_def)
qed

lemma sample_device_added:
  assumes "cs_repo s = sample_tables"
  shows "\<exists>device s'. add_device sample_pg_deps [9] ''doc'' User [9] s = (Inr device, s')"
proof -
  have "\<exists>device db. pg_add_device sample_database [9] ''doc'' User [9] sample_tables = (Inr device, db)"
    by (simp add: pg_add_device_def insert_device_def checked_def sample_name_valid text_ok_def sample_tables_def empty_tables_def sample_device_def)
  with assms show ?thesis
    by (auto simp: add_device_def eff_bind_def eff_defs call_repo_def sample_pg_deps_def postgres_def)
qed

text \<open>A registration, whatever the tokens look like.\<close>

lemma sample_registration_with:
  assumes "G = sample_grpc\<lparr>jwt_encode := (\<lambda>t iat. Inr (f t)), jwt_decode := dec\<rparr>"
  shows "\<exists>s'. meesign_service G sample_pg_deps \<lparr>peer_certs = None, authorization = None\<rparr>
     (Rpc_Register ''doc'' [9]) (sample_pg_server sample_tables) =
      (Inr (Registration_Response [9] [9] (Some (f [char_of (9::nat)]))), s')"
proof -
  let ?s = "sample_pg_server sample_tables"
  have "check_client_auth G \<lparr>peer_certs = None, authorization = None\<rparr> False ?s = (Inr (), ?s)"
    by (simp add: check_client_auth_def rpc_defs extract_device_id_def token_device_id_def)
  moreover obtain s1 where i: "grpc_issue_certificate G ''doc'' [9] ?s = (Inr (Inr [9]), s1)" "cs_repo s1 = sample_tables"
    by (simp add: grpc_issue_certificate_def assms sample_grpc_def rpc_defs env_call_def next_call_def sample_pg_server_def)
  moreover obtain device s2 where "add_device sample_pg_deps [9] ''doc'' User [9] s1 = (Inr device, s2)"
    using sample_device_added[OF i(2)] by blast
  moreover have "cert_to_id G [9] = [9]" "hex_string G [9] = [char_of (9::nat)]" "jwt_encode G t iat = Inr (f t)" for t iat
    by (simp_all add: cert_to_id_def assms sample_grpc_def)
  ultimately show ?thesis
    by (simp add: rpc_register_def rpc_bind_def rpc_return_def rpc_try_def Let_def generate_jwt_result)
qed

lemma sample_registration:
  "\<exists>s'. meesign_service sample_grpc sample_pg_deps \<lparr>peer_certs = None, authorization = None\<rparr>
     (Rpc_Register ''doc'' [9]) (sample_pg_server sample_tables) =
      (Inr (Registration_Response [9] [9] (Some [char_of (9::nat)])), s')"
  by (rule sample_registration_with[where dec = Some and f = "\<lambda>t. t"]) (simp add: sample_grpc_def)

theorem registered_device_is_recognised_witness:
  "extract_device_id sample_grpc \<lparr>peer_certs = None, authorization = Some (Some (''Bearer '' @ [char_of (9::nat)]))\<rparr> = Some [9] \<and>
   device_exists (snd (meesign_service sample_grpc sample_pg_deps \<lparr>peer_certs = None, authorization = None\<rparr>
     (Rpc_Register ''doc'' [9]) (sample_pg_server sample_tables))) [9]"
proof -
  let ?c = "\<lparr>peer_certs = None, authorization = None\<rparr>"
  obtain s' where r: "meesign_service sample_grpc sample_pg_deps ?c (Rpc_Register ''doc'' [9]) (sample_pg_server sample_tables) =
      (Inr (Registration_Response [9] [9] (Some [char_of (9::nat)])), s')"
    using sample_registration by blast
  have P: "dp_repo sample_pg_deps = postgres sample_database" by (simp add: sample_pg_deps_def)
  note ok = registered_device_is_recognised[OF P sample_tokens_ok r]
  have "device_exists s' [9]" using ok by blast
  moreover have "extract_device_id sample_grpc
      \<lparr>peer_certs = None, authorization = Some (Some (''Bearer '' @ [char_of (9::nat)]))\<rparr> = Some [9]"
    using ok by blast
  ultimately show ?thesis by (subst r) simp
qed

section \<open>Malformed requests\<close>

text \<open>
  Requests that a handler takes apart with \<^verbatim>\<open>unwrap\<close>: a task identifier that is no UUID, a number that stands for no
  protocol or key type, and a certificate signing request that cannot be parsed.
\<close>

fun malformed :: "'tx grpc_env \<Rightarrow> rpc_request \<Rightarrow> bool" where
  "malformed G (Rpc_Register name csr) = (csr_from_der G csr = None)"
| "malformed G (Rpc_Get_Task task d) = (length task \<noteq> 16)"
| "malformed G (Rpc_Update_Task task data a) = (length task \<noteq> 16)"
| "malformed G (Rpc_Decide_Task task accept) = (length task \<noteq> 16)"
| "malformed G (Rpc_Acknowledge_Task task) = (length task \<noteq> 16)"
| "malformed G (Rpc_Group name ds threshold protocol key_type) = (protocol \<notin> {0, 1, 2, 3} \<or> key_type \<notin> {0, 1, 2})"
| "malformed G _ = False"

text \<open>C38. A malformed request panics. When the sender passes the check, a handler whose request has a task identifier that is not
  of 16 bytes, an unknown protocol or key type, or an unparsable signing request, panics instead of answering with a status.
  Neither the database nor a task is touched; only an acknowledgement has counted its sender as active
  before.\<close>

theorem malformed_requests_panic:
  fixes D :: "('r, 'tx) deps"
  assumes "malformed G req" "fst (check_client_auth G c (needs_device req) s) = Inr ()"
  shows "fst (meesign_service G D c req s) = Inl Handler_Panic \<and>
    (snd (meesign_service G D c req s) = s \<or>
     (\<exists>task d. req = Rpc_Acknowledge_Task task \<and> extract_device_id G c = Some d \<and>
        snd (meesign_service G D c req s) = snd (activate_device D d s)))"
proof -
  have "check_client_auth G c (needs_device req) s = (Inr (), s)"
    using assms(2) rpc_pure_checks(1)[of G c "needs_device req"] by (metis prod.collapse rpc_pure_def)
  then have chk: "rpc_bind (check_client_auth G c (needs_device req)) f s = f () s" for f :: "unit \<Rightarrow> ('r, 'tx, 'tx rpc_response) rpc"
    by (simp add: rpc_bind_def)
  have dev: "\<exists>d. extract_device_id G c = Some d \<and> device_exists s d"
    if "needs_device req"
    using assms(2) that
    by (auto simp: check_client_auth_def rpc_defs split: option.splits if_splits)
  show ?thesis
  proof (cases req)
    case (Rpc_Register name csr)
    have "rpc_bind (grpc_issue_certificate G name csr) f s = (Inl Handler_Panic, s)" for f :: "string + bytes \<Rightarrow> ('r, 'tx, 'tx rpc_response) rpc"
      using Rpc_Register assms(1) by (simp add: grpc_issue_certificate_def rpc_bind_def rpc_unwrap_def rpc_fail_def)
    with Rpc_Register chk show ?thesis by (simp add: rpc_register_def)
  next
    case (Rpc_Get_Task task d)
    then show ?thesis using assms chk by (simp add: rpc_get_task_def rpc_uuid)
  next
    case (Rpc_Update_Task task data a)
    then show ?thesis using assms dev by (auto simp: rpc_update_task_def require_device_known rpc_uuid)
  next
    case (Rpc_Decide_Task task accept)
    then show ?thesis using assms dev by (auto simp: rpc_decide_task_def require_device_known rpc_uuid)
  next
    case (Rpc_Acknowledge_Task task)
    then show ?thesis using assms dev by (auto simp: rpc_acknowledge_task_def require_device_known rpc_activate rpc_uuid)
  next
    case (Rpc_Group name ds threshold protocol key_type)
    then have "protocol_try_from protocol = None \<or> key_try_from key_type = None"
      using assms(1) by (auto simp: protocol_try_from_def key_try_from_def)
    then have "rpc_bind (rpc_unwrap (protocol_try_from protocol)) (\<lambda>p. rpc_bind (rpc_unwrap (key_try_from key_type)) (f p)) s =
        (Inl Handler_Panic, s)" for f :: "proto_protocol_type \<Rightarrow> proto_key_type \<Rightarrow> ('r, 'tx, 'tx rpc_response) rpc"
      by (auto simp: rpc_bind_def rpc_unwrap_def rpc_fail_def rpc_return_def split: option.splits)
    with Rpc_Group chk show ?thesis by (simp add: rpc_group_def)
  qed (use assms(1) in auto)
qed

theorem malformed_requests_panic_witness:
  "meesign_service sample_grpc sample_deps \<lparr>peer_certs = None, authorization = None\<rparr> (Rpc_Get_Task [1, 2, 3] None)
     (sample_serving (Voting_Task sample_voting)) = (Inl Handler_Panic, sample_serving (Voting_Task sample_voting))"
proof -
  let ?s = "sample_serving (Voting_Task sample_voting)" and ?c = "\<lparr>peer_certs = None, authorization = None\<rparr>"
  have "extract_device_id sample_grpc ?c = None" by (simp add: extract_device_id_def token_device_id_def)
  then have "fst (check_client_auth sample_grpc ?c False ?s) = Inr ()" by (simp add: check_client_auth_def rpc_defs)
  then show ?thesis
    using malformed_requests_panic[of sample_grpc "Rpc_Get_Task [1, 2, 3] None" ?c ?s sample_deps]
    by (simp add: prod_eq_iff)
qed

end
