(* ===== verification/New_Tasks.thy ===== *)
theory New_Tasks
  imports Service
begin

text \<open>
  What a request for a new task brings about: who votes on it, what is needed for it to run, and what its sender is told.
\<close>

section \<open>Adding a task\<close>

text \<open>The task is cached as it was given, and its sender is told its view without a device.\<close>

lemma triple_any: "eff_triple (\<lambda>_. True) m (\<lambda>_ _. True) (\<lambda>_. True)"
  by (simp add: eff_triple_def split: sum.splits)

lemma persist_caches:
  "eff_triple (\<lambda>_. True) (persist_task R v) (\<lambda>_. holds (ti_id (vt_task_info v)) (Voting_Task v)) (\<lambda>_. True)"
proof -
  let ?i = "ti_id (vt_task_info v)"
  have "eff_triple (\<lambda>_. True) (eff_bind (eff_gets (\<lambda>s. cs_task_cache s ?i)) (\<lambda>evicted_task.
      eff_bind (put_task ?i (Voting_Task v)) (\<lambda>_. eff_return evicted_task))) (\<lambda>_. holds ?i (Voting_Task v)) (\<lambda>_. True)"
    by (rule eff_triple_bind[OF triple_any], rule eff_triple_bind[OF holds_put]) (simp add: eff_triple_pure)
  then show ?thesis
    unfolding persist_task_def Let_def by (rule eff_triple_bind[OF triple_any])
qed

lemma add_task_result:
  assumes "add_task D v s = (Inr view, s')"
  shows "view = format_task (Voting_Task v) None None" "cs_task_cache s' (ti_id (vt_task_info v)) = Some (Voting_Task v)"
proof -
  let ?i = "ti_id (vt_task_info v)"
  have "eff_triple (\<lambda>_. True) (add_task D v)
      (\<lambda>view s. view = format_task (Voting_Task v) None None \<and> holds ?i (Voting_Task v) s) (\<lambda>_. True)"
    unfolding add_task_def Let_def
    by (rule eff_triple_bind[OF persist_caches], rule eff_triple_bind[OF holds_get_task], rule eff_triple_if,
        rule eff_triple_bind[OF holds_same[OF same_send_updates]]) (simp add: eff_triple_pure)
  from eff_triple_Inr[OF this TrueI assms] show "view = format_task (Voting_Task v) None None" "holds ?i (Voting_Task v) s'"
    by simp_all
qed

section \<open>The participants of a group\<close>

lemma map_of_bumps:
  "map_of (fold hm_bump ks m) k =
     (if k \<in> set ks then Some ((case map_of m k of None \<Rightarrow> 0 | Some n \<Rightarrow> n) + word_of_nat (count_list ks k)) else map_of m k)"
  by (induction ks arbitrary: m) (auto simp: hm_bump_def count_list_0_iff split: option.splits)

lemma bumps_wf: "hm_wf m \<Longrightarrow> hm_wf (fold hm_bump ks m)"
  by (induction ks arbitrary: m) (simp_all add: hm_bump_def)

lemma device_shares_spec:
  "map_of (device_shares ds) k = (if k \<in> set ds then Some (word_of_nat (count_list ds k)) else None)"
  "distinct (map fst (device_shares ds))" "fst ` set (device_shares ds) = set ds"
proof -
  show m: "map_of (device_shares ds) k = (if k \<in> set ds then Some (word_of_nat (count_list ds k)) else None)" for k
    by (simp add: device_shares_def map_of_bumps)
  show "distinct (map fst (device_shares ds))"
    using bumps_wf[of "[]" ds] by (simp add: device_shares_def)
  show "fst ` set (device_shares ds) = set ds"
    using m by (auto simp: hm_keys_lookup set_eq_iff split: if_splits)
qed

text \<open>Every device that the server knows is filed under its own identifier.\<close>

definition devices_filed :: "('r, 'tx) server_state \<Rightarrow> bool" where
  "devices_filed s = list_all (\<lambda>(i, dev). dev_id dev = i) (ss_devices s)"

lemma map_filter_known:
  assumes "devices_filed s"
  shows "map dev_id (get_devices_with_ids s ids) = filter (device_exists s) ids"
    "set (get_devices_with_ids s ids) = {dev. \<exists>i \<in> set ids. map_of (ss_devices s) i = Some dev}"
proof -
  have "map_of (ss_devices s) i = Some dev \<Longrightarrow> dev_id dev = i" for i dev
    using assms by (auto simp: devices_filed_def list_all_iff dest!: map_of_SomeD)
  then show "map dev_id (get_devices_with_ids s ids) = filter (device_exists s) ids"
    by (induction ids) (auto simp: get_devices_with_ids_def map_filter_simps device_exists_def split: option.splits)
  show "set (get_devices_with_ids s ids) = {dev. \<exists>i \<in> set ids. map_of (ss_devices s) i = Some dev}"
    by (force simp: get_devices_with_ids_def List.map_filter_def split: option.splits)
qed

lemma group_participants_spec:
  fixes ds :: "bytes list"
  assumes "devices_filed s"
  defines "ps \<equiv> group_participants_of s (device_shares ds)"
  shows "distinct (map part_id ps)" "part_id ` set ps = {d \<in> set ds. device_exists s d}"
    "q \<in> set ps \<Longrightarrow> part_shares q = word_of_nat (count_list ds (part_id q)) \<and> map_of (ss_devices s) (part_id q) = Some (part_device q)"
proof -
  let ?devs = "get_devices_with_ids s (map fst (device_shares ds))"
  note spec = device_shares_spec[of ds] map_filter_known[OF assms(1), of "map fst (device_shares ds)"]
  have ids: "map part_id ps = map dev_id ?devs" by (simp add: ps_def group_participants_of_def)
  then show "distinct (map part_id ps)" using spec(2,4) by simp
  have "part_id ` set ps = set (map part_id ps)" by simp
  also have "\<dots> = {d \<in> set ds. device_exists s d}" unfolding ids spec(4) using spec(3) by auto
  finally show "part_id ` set ps = {d \<in> set ds. device_exists s d}" .
  assume "q \<in> set ps"
  then obtain dev where q: "q = \<lparr>part_device = dev, part_shares = the (map_of (device_shares ds) (dev_id dev))\<rparr>" "dev \<in> set ?devs"
    by (auto simp: ps_def group_participants_of_def)
  then obtain i where i: "i \<in> set ds" "map_of (ss_devices s) i = Some dev" using spec(3,5) by auto
  then have "dev_id dev = i" using assms(1) by (auto simp: devices_filed_def list_all_iff dest!: map_of_SomeD)
  with q i spec(1) show "part_shares q = word_of_nat (count_list ds (part_id q)) \<and> map_of (ss_devices s) (part_id q) = Some (part_device q)"
    by simp
qed

section \<open>Requests for new tasks\<close>

lemma group_requested:
  assumes "rpc_group G D c name ds th p k s = (Inr r, s')"
  obtains p' k' view where "add_group_task D name ds th p' k' None s = (Inr view, s')" "r = Task_Response view"
  using assms
  by (auto simp: rpc_group_def rpc_answer split: sum.split_asm dest!: check_passed)
    (metis old.sum.exhaust)

lemma add_group_task_result:
  assumes "add_group_task D name ds th p k nt s = (Inr view, s')"
  obtains v s1 where "add_task D v s1 = (Inr view, s')" "is_name_valid name" "vt_decisions v = []"
    "ti_name (vt_task_info v) = name" "ti_task_type (vt_task_info v) = TT_Group"
    "ti_participants (vt_task_info v) = group_participants_of s (device_shares ds)"
    "vt_accept_threshold v = total_shares (vt_task_info v)"
  using assms
  by (auto simp: add_group_task_def Let_def eff_bind_def eff_defs env_call_def split: if_splits prod.splits sum.splits)

text \<open>C17. A requested group is put to the vote of its devices. When a request for a group is answered, a new task is cached
  that nobody has voted on, and the answer is its view. Its participants are exactly the named devices that the server knows, each once,
  with as many shares as the request names it; a name the server does not know is left out without an
  error. The task is accepted only when all of these shares accept.\<close>

theorem requested_group_is_put_to_the_vote:
  assumes "meesign_service G D c (Rpc_Group name device_ids threshold protocol key_type) s = (Inr r, s')" "devices_filed s"
  shows "\<exists>v. cs_task_cache s' (ti_id (vt_task_info v)) = Some (Voting_Task v) \<and>
    r = Task_Response (format_task (Voting_Task v) None None) \<and>
    ti_name (vt_task_info v) = name \<and> ti_task_type (vt_task_info v) = TT_Group \<and> vt_decisions v = [] \<and>
    distinct (map part_id (ti_participants (vt_task_info v))) \<and>
    part_id ` set (ti_participants (vt_task_info v)) = {d \<in> set device_ids. device_exists s d} \<and>
    (\<forall>q \<in> set (ti_participants (vt_task_info v)).
       part_shares q = word_of_nat (count_list device_ids (part_id q)) \<and>
       map_of (ss_devices s) (part_id q) = Some (part_device q)) \<and>
    vt_accept_threshold v = sum_list (map part_shares (ti_participants (vt_task_info v)))"
proof -
  obtain p' k' view where "add_group_task D name device_ids threshold p' k' None s = (Inr view, s')" and r: "r = Task_Response view"
    using group_requested assms(1) by (metis meesign_service.simps(9))
  then obtain v s1 where a: "add_task D v s1 = (Inr view, s')"
    and v: "vt_decisions v = []" "ti_name (vt_task_info v) = name" "ti_task_type (vt_task_info v) = TT_Group"
      "ti_participants (vt_task_info v) = group_participants_of s (device_shares device_ids)"
      "vt_accept_threshold v = total_shares (vt_task_info v)"
    using add_group_task_result by metis
  show ?thesis
    using add_task_result[OF a] r v group_participants_spec[OF assms(2), where ds = device_ids]
    by (intro exI[of _ v]) (simp add: total_shares_def)
qed

lemma sample_added: "\<exists>view s'. add_task sample_deps v s = (Inr view, s')"
proof -
  let ?i = "ti_id (vt_task_info v)"
  have "\<exists>m s1. persist_task (dp_repo sample_deps) v s = (Inr m, s1)"
    by (cases "vt_running_task_context v") (simp_all add: persist_task_def Let_def persist_group_task_def persist_threshold_task_def
        eff_bind_def eff_defs call_repo_def put_task_def sample_deps_def sample_repo_def)
  then obtain m s1 where p: "persist_task (dp_repo sample_deps) v s = (Inr m, s1)" by blast
  with eff_triple_Inr[OF persist_caches TrueI p] show ?thesis
    by (simp add: add_task_def eff_bind_def sample_get_task send_updates_def eff_modify_def eff_return_def)
qed

lemma sample_group_requested:
  "\<exists>view s'. meesign_service sample_grpc sample_deps \<lparr>peer_certs = None, authorization = None\<rparr>
     (Rpc_Group ''doc'' [[7], [6], [7], [5]] 2 0 1) (sample_serving (Voting_Task sample_voting)) = (Inr (Task_Response view), s')"
proof -
  let ?s = "sample_serving (Voting_Task sample_voting)" and ?ds = "[[7], [6], [7], [5]] :: bytes list"
  have "shares_known ?s (device_shares ?ds)"
    by (simp add: shares_known_def get_devices_with_ids_def map_filter_simps device_shares_def hm_bump_def hm_insert_def
        sample_serving_def sample_device_def)
  then obtain view s' where "add_group_task sample_deps ''doc'' ?ds 2 Gg18 KT_SignChallenge None ?s = (Inr view, s')"
    using sample_added by (fastforce simp: add_group_task_def sample_name_valid eff_bind_def eff_gets_def env_call_def Let_def
        split: prod.splits)
  moreover have "check_client_auth sample_grpc \<lparr>peer_certs = None, authorization = None\<rparr> False ?s = (Inr (), ?s)"
    by (simp add: check_client_auth_def extract_device_id_def token_device_id_def rpc_defs)
  ultimately show ?thesis
    by (simp add: rpc_group_def rpc_defs protocol_try_from_def key_try_from_def)
qed

theorem requested_group_is_put_to_the_vote_witness:
  "\<exists>v s'. meesign_service sample_grpc sample_deps \<lparr>peer_certs = None, authorization = None\<rparr>
      (Rpc_Group ''doc'' [[7], [6], [7], [5]] 2 0 1) (sample_serving (Voting_Task sample_voting)) =
        (Inr (Task_Response (format_task (Voting_Task v) None None)), s') \<and>
     part_id ` set (ti_participants (vt_task_info v)) = {[7], [6]}"
proof -
  let ?s = "sample_serving (Voting_Task sample_voting)"
  have filed: "devices_filed ?s" by (simp add: devices_filed_def sample_serving_def sample_device_def)
  have known: "device_exists ?s d \<longleftrightarrow> d \<in> {[7], [6]}" for d by (auto simp: device_exists_def sample_serving_def)
  obtain view s' where a: "meesign_service sample_grpc sample_deps \<lparr>peer_certs = None, authorization = None\<rparr>
      (Rpc_Group ''doc'' [[7], [6], [7], [5]] 2 0 1) ?s = (Inr (Task_Response view), s')"
    using sample_group_requested by blast
  from requested_group_is_put_to_the_vote[OF a filed] obtain v where "view = format_task (Voting_Task v) None None"
    "part_id ` set (ti_participants (vt_task_info v)) = {d \<in> set [[7], [6], [7], [5]]. device_exists ?s d}"
    by auto
  with a show ?thesis by (intro exI[of _ v] exI[of _ s']) (auto simp: known)
qed

text \<open>The task a signing or decryption request asks for, for a group of the given key type.\<close>

fun requested_task_type :: "rpc_request \<Rightarrow> key_type \<Rightarrow> task_type option" where
  "requested_task_type (Rpc_Sign g n d) KT_SignPdf = Some TT_SignPdf"
| "requested_task_type (Rpc_Sign g n d) KT_SignChallenge = Some TT_SignChallenge"
| "requested_task_type (Rpc_Decrypt g n d ty) KT_Decrypt = Some TT_Decrypt"
| "requested_task_type _ _ = None"

fun requested_group :: "rpc_request \<Rightarrow> bytes option" where
  "requested_group (Rpc_Sign g n d) = Some g"
| "requested_group (Rpc_Decrypt g n d ty) = Some g"
| "requested_group _ = None"

fun is_decryption :: "rpc_request \<Rightarrow> bool" where
  "is_decryption (Rpc_Decrypt g n d ty) = True"
| "is_decryption _ = False"

text \<open>The task that a voting task of the request asks the given group and participants for.\<close>

definition asks_group :: "rpc_request \<Rightarrow> bytes option \<Rightarrow> group \<Rightarrow> participant list \<Rightarrow> voting_task \<Rightarrow> bool" where
  "asks_group req sender grp ps v =
     (requested_task_type req (grp_key_type grp) = Some (ti_task_type (vt_task_info v)) \<and>
      vt_decisions v = [] \<and> ti_participants (vt_task_info v) = ps \<and> vt_accept_threshold v = grp_threshold grp \<and>
      ti_observers (vt_task_info v) =
        (case sender of
           Some d \<Rightarrow> if is_decryption req \<and> d \<notin> part_id ` set ps then [d] else []
         | None \<Rightarrow> []))"

lemma group_read:
  assumes "eff_bind (call_repo (repo_get_group R g)) (\<lambda>found. case found of None \<Rightarrow> eff_fail e
      | Some grp \<Rightarrow> eff_bind (call_repo (repo_get_group_participants R g)) (f grp)) s = (Inr y, s')"
  obtains grp ps repo1 repo2 where "repo_get_group R g (cs_repo s) = (Inr (Some grp), repo1)"
    "repo_get_group_participants R g repo1 = (Inr ps, repo2)" "f grp ps (s\<lparr>cs_repo := repo2\<rparr>) = (Inr y, s')"
proof -
  obtain grp ps s1 s2 where c: "call_repo (repo_get_group R g) s = (Inr (Some grp), s1)"
    "call_repo (repo_get_group_participants R g) s1 = (Inr ps, s2)" "f grp ps s2 = (Inr y, s')"
    using assms by (auto simp: eff_bind_def eff_fail_def split: prod.splits sum.splits option.splits)
  with that show thesis
    by (auto simp: call_repo_def split: prod.splits elim!: res_of_persistence.elims)
qed

lemma add_sign_task_asks:
  assumes "add_sign_task D g name data s = (Inr view, s')"
  obtains grp ps repo1 repo2 v s1 where "repo_get_group (dp_repo D) g (cs_repo s) = (Inr (Some grp), repo1)"
    "repo_get_group_participants (dp_repo D) g repo1 = (Inr ps, repo2)" "add_task D v s1 = (Inr view, s')"
    "asks_group (Rpc_Sign g name data) sender grp ps v"
  by (rule group_read[OF assms[unfolded add_sign_task_def]])
    (fastforce simp: eff_bind_def eff_fail_def Let_def env_call_def asks_group_def
      split: prod.splits key_type.splits option.splits intro: that)

lemma add_decrypt_task_asks:
  assumes "add_decrypt_task D g name data ty sender s = (Inr view, s')"
  obtains grp ps repo1 repo2 v s1 where "repo_get_group (dp_repo D) g (cs_repo s) = (Inr (Some grp), repo1)"
    "repo_get_group_participants (dp_repo D) g repo1 = (Inr ps, repo2)" "add_task D v s1 = (Inr view, s')"
    "asks_group (Rpc_Decrypt g name data ty) sender grp ps v"
  by (rule group_read[OF assms[unfolded add_decrypt_task_def]])
    (fastforce simp: eff_bind_def eff_fail_def Let_def env_call_def asks_group_def list_ex_iff
      split: prod.splits if_splits option.splits intro: that)

text \<open>C18. A requested signature or decryption is put to the vote of its group. When the request is answered, the group exists, its
  key is of a type that allows the operation, and a new task is cached that nobody has voted on; the answer is its view. Its participants
  are those the database has for the group, and it is accepted with the group's threshold of shares. The
  sender of a decryption request who is not one of them, and only that one, observes the task.\<close>

theorem requested_operation_is_put_to_the_group:
  assumes "meesign_service G D c req s = (Inr r, s')" "requested_group req = Some g"
  shows "\<exists>grp ps repo1 repo2 v.
    repo_get_group (dp_repo D) g (cs_repo s) = (Inr (Some grp), repo1) \<and>
    repo_get_group_participants (dp_repo D) g repo1 = (Inr ps, repo2) \<and>
    asks_group req (extract_device_id G c) grp ps v \<and>
    cs_task_cache s' (ti_id (vt_task_info v)) = Some (Voting_Task v) \<and>
    r = Task_Response (format_task (Voting_Task v) None None)"
proof -
  obtain view where "r = Task_Response view" and
    "(\<exists>name data. req = Rpc_Sign g name data \<and> add_sign_task D g name data s = (Inr view, s')) \<or>
     (\<exists>name data ty. req = Rpc_Decrypt g name data ty \<and>
        add_decrypt_task D g name data ty (extract_device_id G c) s = (Inr view, s'))"
    using assms
    by (cases req) (auto simp: rpc_sign_def rpc_decrypt_def rpc_answer dest!: check_passed)
  then show ?thesis
    by (elim disjE exE conjE; elim add_sign_task_asks[where sender = "extract_device_id G c"] add_decrypt_task_asks)
      (metis add_task_result)+
qed

theorem requested_operation_is_put_to_the_group_witness:
  "\<exists>v s'. meesign_service sample_grpc sample_deps (sample_credentials [7]) (Rpc_Sign [4] ''doc'' [1])
      (sample_serving (Voting_Task sample_voting)) = (Inr (Task_Response (format_task (Voting_Task v) None None)), s') \<and>
     ti_task_type (vt_task_info v) = TT_SignChallenge \<and> vt_accept_threshold v = grp_threshold sample_group"
proof -
  let ?s = "sample_serving (Voting_Task sample_voting)"
  obtain view s' where "add_sign_task sample_deps [4] ''doc'' [1] ?s = (Inr view, s')"
    using sample_added by (fastforce simp: add_sign_task_def eff_bind_def call_repo_def env_call_def Let_def sample_repo_def
        sample_deps_def sample_group_def split: prod.splits)
  moreover have "check_client_auth sample_grpc (sample_credentials [7]) False ?s = (Inr (), ?s)"
    by (simp add: check_client_auth_def extract_device_id_def cert_to_id_def sample_grpc_def device_exists_def sample_serving_def
        rpc_defs)
  ultimately have a: "meesign_service sample_grpc sample_deps (sample_credentials [7]) (Rpc_Sign [4] ''doc'' [1]) ?s =
      (Inr (Task_Response view), s')"
    by (simp add: rpc_sign_def rpc_defs)
  have grp: "repo_get_group (dp_repo sample_deps) g r = (Inr (Some sample_group), r)" for g r
    by (simp add: sample_deps_def sample_repo_def)
  from requested_operation_is_put_to_the_group[OF a, of "[4]"] obtain v d ps where
    "view = format_task (Voting_Task v) None None" "asks_group (Rpc_Sign [4] ''doc'' [1]) d sample_group ps v"
    by (auto simp: grp)
  with a show ?thesis by (intro exI[of _ v] exI[of _ s']) (auto simp: asks_group_def sample_group_def)
qed

end
