(* ===== verification/Cli.thy ===== *)
theory Cli
  imports New_Tasks
begin

text \<open>
  The command line client in \<^verbatim>\<open>src/main.rs\<close> (module \<^verbatim>\<open>cli\<close>): each command sends one request to a server,
  without a certificate or a token, and prints what it is told.
\<close>

section \<open>Commands\<close>

datatype commands =
    GetDevices
  | GetGroups "string option"
  | GetTasks "string option"
  | RequestGroup string u32 string "string list"
  | RequestSignPdf string string string
  | RequestSignChallenge string string string
  | RequestDecrypt string string string

record args =
  arg_port :: u16
  arg_addr :: string
  arg_host :: string
  arg_command :: "commands option"

text \<open>
  What the client relies on: the CA's certificate, which is read from a file when it is first used, URIs, TLS and the
  connection, hexadecimal digits, files, ElGamal encryption and the clock. A call that fails is \<^term>\<open>None\<close> or
  \<^term>\<open>False\<close>.
\<close>

record cli_env =
  ca_cert :: "bytes option"
  ca_to_pem :: "bytes \<Rightarrow> bytes option"
  uri_from_str :: "string \<Rightarrow> bool"
  tls_config_ok :: "string \<Rightarrow> bytes \<Rightarrow> bool"
  channel_connects :: "string \<Rightarrow> bool"
  cli_hex_encode :: "bytes \<Rightarrow> string"
  cli_hex_decode :: "string \<Rightarrow> bytes option"
  fs_read :: "string \<Rightarrow> bytes option"
  elgamal_encrypt :: "bytes \<Rightarrow> bytes \<Rightarrow> bytes option"
  client_time :: u64

datatype cli_failure = Cli_Error string | Cli_Panic

type_synonym 's cli = "'s \<Rightarrow> (cli_failure + string list) \<times> 's"

text \<open>The server, as the client reaches it: it answers a request, or fails with a status or by dropping the connection.\<close>

type_synonym ('s, 'tx) remote = "rpc_request \<Rightarrow> 's \<Rightarrow> (rpc_failure + 'tx rpc_response) \<times> 's"

section \<open>Output\<close>

definition task_type_name :: "i32 \<Rightarrow> string" where
  "task_type_name n =
     (if n = 0 then ''Group'' else if n = 1 then ''Sign'' else if n = 2 then ''Challenge''
      else if n = 3 then ''Decrypt'' else ''Unknown'')"

text \<open>The number of a task's state in a message.\<close>

fun task_state_number :: "proto_task_state \<Rightarrow> nat" where
  "task_state_number PS_Created = 0"
| "task_state_number PS_Running = 1"
| "task_state_number PS_Finished = 2"
| "task_state_number PS_Failed = 3"

definition task_line :: "cli_env \<Rightarrow> proto_task \<Rightarrow> string" where
  "task_line E task =
     ''Task '' @ task_type_name (pt_type task) @ '' ['' @ cli_hex_encode E (pt_id task) @ ''] (state '' @
     decimal (task_state_number (pt_state task)) @ '':'' @ decimal (unat (pt_round task)) @ '')''"

text \<open>\<^verbatim>\<open>key_type()\<close> takes a number without a meaning for the first key type; \<^verbatim>\<open>{:?}\<close> is the name of the constructor.\<close>

fun key_type_debug :: "proto_key_type \<Rightarrow> string" where
  "key_type_debug PK_SignPdf = ''SignPdf''"
| "key_type_debug PK_SignChallenge = ''SignChallenge''"
| "key_type_debug PK_Decrypt = ''Decrypt''"

definition group_line :: "cli_env \<Rightarrow> proto_group \<Rightarrow> string" where
  "group_line E grp =
     ''['' @ cli_hex_encode E (pg_identifier grp) @ ''] '' @ pg_name grp @ '' ('' @ decimal (unat (pg_threshold grp)) @
     ''-of-'' @ decimal (length (pg_device_ids grp)) @ ''; '' @
     key_type_debug (case key_try_from (pg_key_type grp) of Some k \<Rightarrow> k | None \<Rightarrow> PK_SignPdf) @ '')''"

definition device_line :: "cli_env \<Rightarrow> proto_device \<Rightarrow> string" where
  "device_line E dev =
     ''['' @ cli_hex_encode E (pd_identifier dev) @ ''] '' @ pd_name dev @ '' (seen before '' @
     decimal (unat (client_time E - pd_last_active dev)) @ ''s)''"

text \<open>\<^verbatim>\<open>sort_by_key(|x| u64::MAX - x.last_active)\<close>.\<close>

definition last_active_first :: "proto_device list \<Rightarrow> proto_device list" where
  "last_active_first = sort_key (\<lambda>dev. unat (- 1 - pd_last_active dev))"

text \<open>Each call is answered with its own type of message; one of another type does not occur.\<close>

fun print_response :: "cli_env \<Rightarrow> 'tx rpc_response \<Rightarrow> string list" where
  "print_response E (Devices_Response devices) = map (device_line E) (last_active_first devices)"
| "print_response E (Groups_Response groups) = map (group_line E) groups"
| "print_response E (Tasks_Response tasks) = map (task_line E) tasks"
| "print_response E (Task_Response task) = [task_line E task]"
| "print_response E _ = []"

section \<open>Running a command\<close>

definition cli_call :: "cli_env \<Rightarrow> ('s, 'tx) remote \<Rightarrow> rpc_request \<Rightarrow> 's cli" where
  "cli_call E server request s =
     (case server request s of
        (Inl _, s') \<Rightarrow> (Inl (Cli_Error ''Request failed''), s')
      | (Inr response, s') \<Rightarrow> (Inr (print_response E response), s'))"

text \<open>\<^verbatim>\<open>unwrap\<close>.\<close>

definition cli_unwrap :: "'a option \<Rightarrow> ('a \<Rightarrow> 's cli) \<Rightarrow> 's cli" where
  "cli_unwrap x f = (case x of None \<Rightarrow> (\<lambda>s. (Inl Cli_Panic, s)) | Some y \<Rightarrow> f y)"

definition decode_device :: "cli_env \<Rightarrow> string option \<Rightarrow> (bytes option \<Rightarrow> 's cli) \<Rightarrow> 's cli" where
  "decode_device E device_id f =
     (case device_id of None \<Rightarrow> f None | Some x \<Rightarrow> cli_unwrap (cli_hex_decode E x) (\<lambda>d. f (Some d)))"

fun decode_all :: "cli_env \<Rightarrow> string list \<Rightarrow> bytes list option" where
  "decode_all E [] = Some []"
| "decode_all E (x # xs) =
     (case cli_hex_decode E x of None \<Rightarrow> None | Some y \<Rightarrow> map_option (\<lambda>ys. y # ys) (decode_all E xs))"

definition parse_key_type :: "string \<Rightarrow> proto_key_type option" where
  "parse_key_type key_type =
     (if key_type = ''sign_pdf'' then Some PK_SignPdf
      else if key_type = ''sign_challenge'' then Some PK_SignChallenge else None)"

text \<open>The arms of the match on the command.\<close>

definition command_get_devices :: "cli_env \<Rightarrow> ('s, 'tx) remote \<Rightarrow> 's cli" where
  "command_get_devices E server = cli_call E server Rpc_Get_Devices"

definition command_get_groups :: "cli_env \<Rightarrow> ('s, 'tx) remote \<Rightarrow> string option \<Rightarrow> 's cli" where
  "command_get_groups E server device_id =
     decode_device E device_id (\<lambda>device_id. cli_call E server (Rpc_Get_Groups device_id))"

definition command_get_tasks :: "cli_env \<Rightarrow> ('s, 'tx) remote \<Rightarrow> string option \<Rightarrow> 's cli" where
  "command_get_tasks E server device_id =
     decode_device E device_id (\<lambda>device_id. cli_call E server (Rpc_Get_Tasks device_id))"

definition command_request_group ::
    "cli_env \<Rightarrow> ('s, 'tx) remote \<Rightarrow> string \<Rightarrow> u32 \<Rightarrow> string \<Rightarrow> string list \<Rightarrow> 's cli" where
  "command_request_group E server name threshold key_type device_ids =
     cli_unwrap (decode_all E device_ids) (\<lambda>device_ids.
       if length device_ids \<le> 1 then (\<lambda>s. (Inl (Cli_Error ''Not enough parties to create a group''), s))
       else cli_unwrap (parse_key_type key_type) (\<lambda>k.
         cli_call E server (Rpc_Group name device_ids threshold (proto_protocol_number P_Gg18) (proto_key_number k))))"

definition command_request_sign_pdf ::
    "cli_env \<Rightarrow> ('s, 'tx) remote \<Rightarrow> string \<Rightarrow> string \<Rightarrow> string \<Rightarrow> 's cli" where
  "command_request_sign_pdf E server name group_id pdf_file =
     cli_unwrap (cli_hex_decode E group_id) (\<lambda>group_id.
     cli_unwrap (fs_read E pdf_file) (\<lambda>data. cli_call E server (Rpc_Sign group_id name data)))"

definition command_request_sign_challenge ::
    "cli_env \<Rightarrow> ('s, 'tx) remote \<Rightarrow> string \<Rightarrow> string \<Rightarrow> string \<Rightarrow> 's cli" where
  "command_request_sign_challenge E server name group_id data =
     cli_unwrap (cli_hex_decode E group_id) (\<lambda>group_id.
     cli_unwrap (cli_hex_decode E data) (\<lambda>data. cli_call E server (Rpc_Sign group_id name data)))"

definition command_request_decrypt ::
    "cli_env \<Rightarrow> ('s, 'tx) remote \<Rightarrow> string \<Rightarrow> string \<Rightarrow> string \<Rightarrow> 's cli" where
  "command_request_decrypt E server name group_id data =
     cli_unwrap (cli_hex_decode E group_id) (\<lambda>group_id.
     cli_unwrap (elgamal_encrypt E (into_bytes data) group_id) (\<lambda>data.
       cli_call E server (Rpc_Decrypt group_id name data ''text/plain;charset=utf-8'')))"

fun run_command :: "cli_env \<Rightarrow> ('s, 'tx) remote \<Rightarrow> commands \<Rightarrow> 's cli" where
  "run_command E server GetDevices = command_get_devices E server"
| "run_command E server (GetGroups d) = command_get_groups E server d"
| "run_command E server (GetTasks d) = command_get_tasks E server d"
| "run_command E server (RequestGroup n th k ds) = command_request_group E server n th k ds"
| "run_command E server (RequestSignPdf n g f) = command_request_sign_pdf E server n g f"
| "run_command E server (RequestSignChallenge n g d) = command_request_sign_challenge E server n g d"
| "run_command E server (RequestDecrypt n g d) = command_request_decrypt E server n g d"

lemmas command_defs = command_get_devices_def command_get_groups_def command_get_tasks_def command_request_group_def
  command_request_sign_pdf_def command_request_sign_challenge_def command_request_decrypt_def decode_device_def

definition handle_command :: "cli_env \<Rightarrow> ('s, 'tx) remote \<Rightarrow> args \<Rightarrow> 's cli" where
  "handle_command E server a s =
     (case arg_command a of
        None \<Rightarrow> (Inr [], s)
      | Some command \<Rightarrow>
          (case ca_cert E of
             None \<Rightarrow> (Inl Cli_Panic, s)
           | Some cert \<Rightarrow>
               (case ca_to_pem E cert of
                  None \<Rightarrow> (Inl (Cli_Error ''Unable to load CA certificate''), s)
                | Some pem \<Rightarrow>
                    let uri = ''https://'' @ arg_host a @ '':'' @ decimal (unat (arg_port a))
                    in if \<not> uri_from_str E uri then (Inl (Cli_Error ''Unable to parse URI''), s)
                       else if \<not> tls_config_ok E (arg_host a) pem
                         then (Inl (Cli_Error ''Unable to configure TLS connection''), s)
                       else if \<not> channel_connects E uri then (Inl (Cli_Error ''Unable to connect to the server''), s)
                       else run_command E server command s)))"

section \<open>The request of a command\<close>

text \<open>A command sends at most one request: the one it stands for, or it fails before it sends anything.\<close>

fun sends :: "cli_env \<Rightarrow> commands \<Rightarrow> rpc_request \<Rightarrow> bool" where
  "sends E GetDevices req = (req = Rpc_Get_Devices)"
| "sends E (GetGroups d) req =
     (case d of None \<Rightarrow> req = Rpc_Get_Groups None | Some x \<Rightarrow> \<exists>y. cli_hex_decode E x = Some y \<and> req = Rpc_Get_Groups (Some y))"
| "sends E (GetTasks d) req =
     (case d of None \<Rightarrow> req = Rpc_Get_Tasks None | Some x \<Rightarrow> \<exists>y. cli_hex_decode E x = Some y \<and> req = Rpc_Get_Tasks (Some y))"
| "sends E (RequestGroup name threshold key_type ids) req =
     (\<exists>ds k. decode_all E ids = Some ds \<and> 2 \<le> length ds \<and> parse_key_type key_type = Some k \<and>
        req = Rpc_Group name ds threshold 0 (proto_key_number k))"
| "sends E (RequestSignPdf name g f) req =
     (\<exists>g' data. cli_hex_decode E g = Some g' \<and> fs_read E f = Some data \<and> req = Rpc_Sign g' name data)"
| "sends E (RequestSignChallenge name g d) req =
     (\<exists>g' data. cli_hex_decode E g = Some g' \<and> cli_hex_decode E d = Some data \<and> req = Rpc_Sign g' name data)"
| "sends E (RequestDecrypt name g d) req =
     (\<exists>g' data. cli_hex_decode E g = Some g' \<and> elgamal_encrypt E (into_bytes d) g' = Some data \<and>
        req = Rpc_Decrypt g' name data ''text/plain;charset=utf-8'')"

lemma command_sends:
  "(\<exists>e. handle_command E server a s = (Inl e, s)) \<or> arg_command a = None \<or>
   (\<exists>command req. arg_command a = Some command \<and> sends E command req \<and> handle_command E server a s = cli_call E server req s)"
proof -
  have run: "(\<exists>e. run_command E server command s = (Inl e, s)) \<or>
      (\<exists>req. sends E command req \<and> run_command E server command s = cli_call E server req s)" for command
    by (cases command) (auto simp: command_defs cli_unwrap_def split: option.splits)
  show ?thesis
  proof (cases "arg_command a")
    case (Some command)
    then have "(\<exists>e. handle_command E server a s = (Inl e, s)) \<or> handle_command E server a s = run_command E server command s"
      by (simp add: handle_command_def Let_def split: option.splits)
    with run[of command] Some show ?thesis by metis
  qed simp
qed

section \<open>Commands that ask for a task\<close>

text \<open>The client's connection carries neither a certificate nor a token.\<close>

abbreviation anonymous :: credentials where
  "anonymous \<equiv> \<lparr>peer_certs = None, authorization = None\<rparr>"

fun asks_for_task :: "rpc_request \<Rightarrow> bool" where
  "asks_for_task (Rpc_Group n ds th p k) = True"
| "asks_for_task (Rpc_Sign g n d) = True"
| "asks_for_task (Rpc_Decrypt g n d ty) = True"
| "asks_for_task _ = False"

lemma new_task_answer:
  assumes "meesign_service G D c req s = (Inr r, s')" "asks_for_task req"
  obtains v s1 view where "add_task D v s1 = (Inr view, s')" "r = Task_Response view" "vt_decisions v = []"
  using assms
proof (cases req)
  case (Rpc_Group n ds th p k)
  obtain p' k' view where "add_group_task D n ds th p' k' None s = (Inr view, s')" "r = Task_Response view"
    using assms(1) Rpc_Group group_requested[of G D c n ds th p k s r s'] by auto
  then show thesis using that by (metis add_group_task_result)
next
  case (Rpc_Sign g n d)
  then obtain view where a: "add_sign_task D g n d s = (Inr view, s')" "r = Task_Response view"
    using assms(1) by (auto simp: rpc_sign_def rpc_answer dest!: check_passed)
  show thesis by (rule add_sign_task_asks[OF a(1), of None]) (use that a(2) in \<open>auto simp: asks_group_def\<close>)
next
  case (Rpc_Decrypt g n d ty)
  then obtain view where a: "add_decrypt_task D g n d ty (extract_device_id G c) s = (Inr view, s')" "r = Task_Response view"
    using assms(1) by (auto simp: rpc_decrypt_def rpc_answer dest!: check_passed)
  show thesis by (rule add_decrypt_task_asks[OF a(1)]) (use that a(2) in \<open>auto simp: asks_group_def\<close>)
qed simp_all

text \<open>The line printed for a task that nobody has voted on.\<close>

fun task_type_label :: "task_type \<Rightarrow> string" where
  "task_type_label TT_Group = ''Group''"
| "task_type_label TT_SignPdf = ''Sign''"
| "task_type_label TT_SignChallenge = ''Challenge''"
| "task_type_label TT_Decrypt = ''Decrypt''"

definition new_task_line :: "cli_env \<Rightarrow> task_info \<Rightarrow> string" where
  "new_task_line E ti = ''Task '' @ task_type_label (ti_task_type ti) @ '' ['' @ cli_hex_encode E (ti_id ti) @ ''] (state 0:0)''"

lemma decimal_zero: "decimal 0 = ''0''"
  by code_simp

lemma new_task_printed: "task_line E (format_task (Voting_Task v) None None) = new_task_line E (vt_task_info v)"
  by (cases "ti_task_type (vt_task_info v)")
    (simp_all add: task_line_def new_task_line_def format_task_def Let_def proto_task_created_def decimal_zero task_type_name_def
      split: prod.splits)


definition sample_cli :: cli_env where
  "sample_cli = \<lparr>ca_cert = Some [1], ca_to_pem = Some, uri_from_str = (\<lambda>_. True), tls_config_ok = (\<lambda>_ _. True),
     channel_connects = (\<lambda>_. True), cli_hex_encode = map (\<lambda>b. char_of (unat b)),
     cli_hex_decode = (\<lambda>t. Some (map (\<lambda>ch. word_of_nat (byte ch - 48)) t)), fs_read = (\<lambda>_. None),
     elgamal_encrypt = (\<lambda>d k. Some d), client_time = 1000\<rparr>"


end
