(* ===== verification/Startup.thy ===== *)
theory Startup
  imports Cli
begin

text \<open>
  How the server starts: \<^verbatim>\<open>main\<close> of \<^verbatim>\<open>src/main.rs\<close>, the opening of the database in
  \<^verbatim>\<open>src/persistence/postgres_repository.rs\<close>, the set-up of the gRPC server and the secret of its tokens in
  \<^verbatim>\<open>src/interfaces/grpc.rs\<close>; and the truncated identifiers of \<^verbatim>\<open>src/utils.rs\<close> in the log.
\<close>

section \<open>The secret of the tokens\<close>

text \<open>
  The secret is what the key file holds. When the file cannot be read, 32 random bytes are the secret, which are
  written to the file; whether that succeeds is not looked at. The result is the secret and what the file holds then.
\<close>

definition jwt_secret :: "bytes option \<Rightarrow> (nat \<Rightarrow> u8) \<Rightarrow> bool \<Rightarrow> bytes \<times> bytes option" where
  "jwt_secret file random writable =
     (case file of
        Some key \<Rightarrow> (key, Some key)
      | None \<Rightarrow> let secret = map random [0..<32] in (secret, if writable then Some secret else None))"

text \<open>The token library with a secret.\<close>

record jwt_library =
  encode_with :: "bytes \<Rightarrow> string \<Rightarrow> u64 \<Rightarrow> string + string"
  decode_with :: "bytes \<Rightarrow> string \<Rightarrow> string option"

definition with_secret :: "jwt_library \<Rightarrow> bytes \<Rightarrow> 'tx grpc_env \<Rightarrow> 'tx grpc_env" where
  "with_secret J secret G = G\<lparr>jwt_encode := encode_with J secret, jwt_decode := decode_with J secret\<rparr>"

section \<open>The gRPC server\<close>

record grpc_setup =
  socket_addr_ok :: "string \<Rightarrow> bool"
  gs_ca_cert :: "bytes option"
  gs_ca_to_pem :: "bytes \<Rightarrow> bytes option"
  gs_read :: "string \<Rightarrow> bytes option"
  gs_tls_ok :: "bytes \<Rightarrow> bytes \<Rightarrow> bytes \<Rightarrow> bool"
  gs_serves :: "string \<Rightarrow> bool"

datatype startup_failure = Main_Error string | Main_Panic

text \<open>The steps of \<^verbatim>\<open>run_grpc\<close>; it serves requests when they all succeed.\<close>

definition run_grpc :: "grpc_setup \<Rightarrow> string \<Rightarrow> u16 \<Rightarrow> startup_failure + unit" where
  "run_grpc S addr port =
     (let address = addr @ '':'' @ decimal (unat port)
      in if \<not> socket_addr_ok S address then Inl (Main_Error ''Unable to parse server address'')
         else case gs_ca_cert S of
             None \<Rightarrow> Inl Main_Panic
           | Some ca \<Rightarrow>
               (case gs_ca_to_pem S ca of
                  None \<Rightarrow> Inl (Main_Error ''Unable to load CA certificate'')
                | Some pem \<Rightarrow>
                    (case gs_read S ''keys/meesign-server-cert.pem'' of
                       None \<Rightarrow> Inl (Main_Error ''Unable to load server certificate'')
                     | Some cert \<Rightarrow>
                         (case gs_read S ''keys/meesign-server-key.pem'' of
                            None \<Rightarrow> Inl (Main_Error ''Unable to load server key'')
                          | Some key \<Rightarrow>
                              if \<not> gs_tls_ok S cert key pem then Inl (Main_Error ''Unable to setup TLS for gRPC server'')
                              else if \<not> gs_serves S address then Inl (Main_Error ''Unable to run gRPC server'')
                              else Inr ()))))"

section \<open>The database\<close>

text \<open>
  The pool is built for a URL; the migrations use a connection to the URL of the environment.
\<close>

record 'r database_setup =
  ds_database_url :: "string option"
  ds_pool_built :: "string \<Rightarrow> persistence_error + unit"
  ds_connects :: "string \<Rightarrow> bool"
  ds_migrate :: "'r \<Rightarrow> 'r option"

definition get_connection :: "'r database_setup \<Rightarrow> unit res" where
  "get_connection S =
     (case ds_database_url S of
        None \<Rightarrow> Inl Panic
      | Some url \<Rightarrow> if ds_connects S url then Inr () else Inl Panic)"

definition apply_migrations :: "'r database_setup \<Rightarrow> 'r \<Rightarrow> 'r res" where
  "apply_migrations S db =
     res_bind (get_connection S) (\<lambda>_. case ds_migrate S db of None \<Rightarrow> Inl Panic | Some db' \<Rightarrow> Inr db')"

definition from_url :: "'r database_setup \<Rightarrow> string \<Rightarrow> 'r \<Rightarrow> 'r res" where
  "from_url S database_url db =
     res_bind (res_of_persistence (ds_pool_built S database_url)) (\<lambda>_. apply_migrations S db)"

section \<open>The main program\<close>

text \<open>\<^verbatim>\<open>expect\<close>: any error is a panic.\<close>

definition expect :: "'a res \<Rightarrow> startup_failure + 'a" where
  "expect r = (case r of Inl _ \<Rightarrow> Inl Main_Panic | Inr x \<Rightarrow> Inr x)"

text \<open>
  Up to the point where the gRPC server and the timer run: the state they share. The database is given as it is before, and the
  repository works on the one that comes out of the migrations.
\<close>

definition main_state ::
    "'r database_setup \<Rightarrow> 'r repository \<Rightarrow> 'r \<Rightarrow> world \<Rightarrow> startup_failure + ('r, 'tx) server_state" where
  "main_state S R db w =
     (case ds_database_url S of
        None \<Rightarrow> Inl Main_Panic
      | Some database_url \<Rightarrow>
          (case expect (from_url S database_url db) of
             Inl e \<Rightarrow> Inl e
           | Inr db1 \<Rightarrow>
               (case expect (apply_migrations S db1) of
                  Inl e \<Rightarrow> Inl e
                | Inr db2 \<Rightarrow> expect (fst (restore R db2 w)))))"

datatype ('r, 'tx) main_outcome =
    Command_Done "cli_failure + string list"
  | Stopped startup_failure
  | Serving "('r, 'tx) server_state"

definition server_main ::
    "cli_env \<Rightarrow> ('s, 'tx) remote \<Rightarrow> 's \<Rightarrow> args \<Rightarrow>
     'r database_setup \<Rightarrow> 'r repository \<Rightarrow> 'r \<Rightarrow> world \<Rightarrow> grpc_setup \<Rightarrow> ('r, 'tx) main_outcome" where
  "server_main E remote remote_state a S R db w N =
     (if arg_command a \<noteq> None then Command_Done (fst (handle_command E remote a remote_state))
      else case main_state S R db w of
          Inl e \<Rightarrow> Stopped e
        | Inr s \<Rightarrow> (case run_grpc N (arg_addr a) (arg_port a) of Inl e \<Rightarrow> Stopped e | Inr _ \<Rightarrow> Serving s))"

section \<open>Identifiers in the log\<close>

text \<open>\<^verbatim>\<open>parse\<close> of a \<^verbatim>\<open>usize\<close>: decimal digits after an optional sign, up to 64 bits.\<close>

fun parse_digits :: "nat \<Rightarrow> string \<Rightarrow> nat option" where
  "parse_digits n [] = Some n"
| "parse_digits n (ch # chs) =
     (if 48 \<le> byte ch \<and> byte ch \<le> 57 \<and> 10 * n + (byte ch - 48) < 2 ^ 64 then parse_digits (10 * n + (byte ch - 48)) chs else None)"

definition parse_usize :: "string \<Rightarrow> nat option" where
  "parse_usize t =
     (let digits = (if take 1 t = ''+'' then drop 1 t else t)
      in if digits = [] then None else parse_digits 0 digits)"

definition hextrunc :: "(bytes \<Rightarrow> string) \<Rightarrow> string option \<Rightarrow> bytes \<Rightarrow> string" where
  "hextrunc encode trunc s =
     (let trunc_len = (case Option.bind trunc parse_usize of Some n \<Rightarrow> n | None \<Rightarrow> 0)
      in if length s \<le> trunc_len then encode s else encode (take trunc_len s) @ ''...'')"

text \<open>What is logged of an identifier is never longer than the limit and the dots.\<close>

lemma hextrunc_length:
  assumes "\<And>b. length (encode b) = 2 * length b"
  shows "length (hextrunc encode trunc s) \<le> 2 * (case Option.bind trunc parse_usize of Some n \<Rightarrow> n | None \<Rightarrow> 0) + 3"
  using assms by (auto simp: hextrunc_def Let_def split: option.splits)

section \<open>Restarts\<close>

lemma secret_kept:
  assumes "jwt_secret file random writable = (secret, file')" "file \<noteq> None \<or> writable"
  shows "jwt_secret file' random' writable' = (secret, file')"
  using assms by (auto simp: jwt_secret_def Let_def split: option.splits)

lemma with_secret_simps [simp]:
  "jwt_encode (with_secret J k G) = encode_with J k" "jwt_decode (with_secret J k G) = decode_with J k"
  "hex_string (with_secret J k G) = hex_string G" "hex_bytes (with_secret J k G) = hex_bytes G"
  "sha256 (with_secret J k G) = sha256 G"
  by (simp_all add: with_secret_def)

definition tokens_lawful :: "jwt_library \<Rightarrow> 'tx grpc_env \<Rightarrow> bool" where
  "tokens_lawful J G =
     ((\<forall>secret sub iat token. encode_with J secret sub iat = Inr token \<longrightarrow> decode_with J secret token = Some sub) \<and>
      (\<forall>b. hex_bytes G (hex_string G b) = Some b))"

lemma tokens_lawful_ok: "tokens_lawful J G \<Longrightarrow> tokens_ok (with_secret J secret G)"
  by (simp add: tokens_lawful_def tokens_ok_def)

lemma expect_Inr: "expect r = Inr x \<longleftrightarrow> r = Inr x"
  by (cases r) (simp_all add: expect_def)

lemma main_restores:
  assumes "server_main E remote rs a S R db w N = Serving s"
  obtains url db' repo where "ds_database_url S = Some url" "res_bind (from_url S url db) (apply_migrations S) = Inr db'"
    "restore R db' w = (Inr s, repo)"
proof -
  have "main_state S R db w = Inr s"
    using assms by (auto simp: server_main_def split: if_splits sum.splits)
  then obtain url db1 db2 where "ds_database_url S = Some url" "expect (from_url S url db) = Inr db1"
    "expect (apply_migrations S db1) = Inr db2" "expect (fst (restore R db2 w)) = Inr s"
    unfolding main_state_def by (auto split: option.split_asm sum.split_asm)
  then show thesis by (intro that[of url db2 "snd (restore R db2 w)"]) (simp_all add: expect_Inr prod_eq_iff)
qed

lemma restored_known:
  fixes s :: "(tables, 'tx) server_state"
  assumes "restore (postgres P) db w = (Inr s, r)"
  shows "device_exists s i \<longleftrightarrow> i \<in> dev_id ` set (db_device db)"
proof -
  obtain s1 :: "(tables, 'tx) server_state" where "restore (postgres P) db w = (Inr s1, db)"
    "\<forall>i. device_exists s1 i \<longleftrightarrow> i \<in> dev_id ` set (db_device db)"
    using restored_devices by blast
  with assms show ?thesis by simp
qed

text \<open>C20. A registration outlives the server. When a device was registered and given a token, and the server is started again on
  the same database, without migrations left to apply, then its certificate identifies it to the new server, which lets it in. So
  does its token, if the secret of the first server was read from the key file or could be written to
  it.\<close>

theorem registration_survives_a_restart:
  assumes "dp_repo D = postgres P" "tokens_lawful J G"
    and "jwt_secret file random writable = (secret, file')"
    and "meesign_service (with_secret J secret G) D c (Rpc_Register name csr) s =
      (Inr (Registration_Response device_id certificate token), s')"
    and "server_main E remote rs a S (postgres P) (cs_repo s') w N = Serving restarted" "ds_migrate S = Some"
    and "jwt_secret file' random' writable' = (secret', file'')"
  shows "check_client_auth (with_secret J secret' G) \<lparr>peer_certs = Some [certificate], authorization = any\<rparr> True restarted =
      (Inr (), restarted) \<and>
    (\<forall>t. token = Some t \<and> (file \<noteq> None \<or> writable) \<longrightarrow>
       check_client_auth (with_secret J secret' G) \<lparr>peer_certs = None, authorization = Some (Some (''Bearer '' @ t))\<rparr> True restarted =
         (Inr (), restarted) \<and>
       extract_device_id (with_secret J secret' G) \<lparr>peer_certs = None, authorization = Some (Some (''Bearer '' @ t))\<rparr> =
         Some device_id)"
proof -
  note st = registration_stored[OF assms(1,4)]
  obtain url db' repo where "restore (postgres P) db' w = (Inr restarted, repo)"
    "res_bind (from_url S url (cs_repo s')) (apply_migrations S) = Inr db'"
    using main_restores[OF assms(5)] by blast
  moreover from this(2) have "db' = cs_repo s'"
    using assms(6) by (auto simp: from_url_def apply_migrations_def res_bind_Inr_iff)
  ultimately have known: "device_exists restarted device_id"
    using restored_known st(5) by blast
  have "extract_device_id (with_secret J secret' G) \<lparr>peer_certs = Some [certificate], authorization = any\<rparr> = Some device_id"
    by (simp add: extract_device_id_def cert_to_id_def st(1))
  moreover have "extract_device_id (with_secret J secret' G) \<lparr>peer_certs = None, authorization = Some (Some (''Bearer '' @ t))\<rparr> =
      Some device_id" if "token = Some t" "file \<noteq> None \<or> writable" for t
  proof -
    have "secret' = secret" using secret_kept[OF assms(3) that(2)] assms(7) by simp
    with st(6)[OF that(1)] token_recognised[OF tokens_lawful_ok[OF assms(2)]] show ?thesis by blast
  qed
  ultimately show ?thesis using known by (simp add: check_client_auth_def rpc_return_def)
qed

definition sample_jwt :: jwt_library where
  "sample_jwt = \<lparr>encode_with = (\<lambda>k sub iat. Inr (map (\<lambda>b. char_of (unat b)) k @ sub)),
     decode_with = (\<lambda>k t. if take (length k) t = map (\<lambda>b. char_of (unat b)) k then Some (drop (length k) t) else None)\<rparr>"

definition sample_setup :: "tables database_setup" where
  "sample_setup = \<lparr>ds_database_url = Some ''url'', ds_pool_built = (\<lambda>_. Inr ()), ds_connects = (\<lambda>_. True), ds_migrate = Some\<rparr>"

definition sample_network :: grpc_setup where
  "sample_network = \<lparr>socket_addr_ok = (\<lambda>_. True), gs_ca_cert = Some [1], gs_ca_to_pem = Some, gs_read = (\<lambda>_. Some [1]),
     gs_tls_ok = (\<lambda>_ _ _. True), gs_serves = (\<lambda>_. True)\<rparr>"

theorem registration_survives_a_restart_witness:
  "\<exists>db restarted. server_main sample_cli (meesign_service sample_grpc sample_deps anonymous) (sample_serving (Voting_Task sample_voting))
      \<lparr>arg_port = 1337, arg_addr = ''127.0.0.1'', arg_host = [], arg_command = None\<rparr>
      sample_setup (postgres sample_database) db sample_world sample_network = Serving restarted \<and>
     extract_device_id (with_secret sample_jwt [3] sample_grpc)
       \<lparr>peer_certs = None, authorization = Some (Some (''Bearer '' @ [char_of (3::nat), char_of (9::nat)]))\<rparr> = Some [9]"
proof -
  let ?G = "with_secret sample_jwt [3] sample_grpc"
  let ?a = "\<lparr>arg_port = 1337, arg_addr = ''127.0.0.1'', arg_host = [], arg_command = None\<rparr>"
  obtain s' where r: "meesign_service ?G sample_pg_deps anonymous (Rpc_Register ''doc'' [9]) (sample_pg_server sample_tables) =
      (Inr (Registration_Response [9] [9] (Some [char_of (3::nat), char_of (9::nat)])), s')"
    using sample_registration_with[where G = ?G and f = "\<lambda>t. char_of (3::nat) # t" and dec = "decode_with sample_jwt [3]"]
    by (auto simp: with_secret_def sample_jwt_def)
  obtain restarted :: "(tables, sample_tx) server_state" where
    "restore (postgres sample_database) (cs_repo s') sample_world = (Inr restarted, cs_repo s')"
    using restored_devices by blast
  then have m: "server_main sample_cli (meesign_service sample_grpc sample_deps anonymous)
      (sample_serving (Voting_Task sample_voting)) ?a sample_setup (postgres sample_database) (cs_repo s') sample_world sample_network =
      Serving restarted"
    by (simp add: server_main_def main_state_def expect_def from_url_def apply_migrations_def get_connection_def sample_setup_def
        run_grpc_def sample_network_def)
  have law: "tokens_lawful sample_jwt sample_grpc"
    using sample_tokens_ok by (simp add: tokens_lawful_def tokens_ok_def sample_jwt_def)
  have repo: "dp_repo sample_pg_deps = postgres sample_database" by (simp add: sample_pg_deps_def)
  have secret: "jwt_secret (Some [3]) (\<lambda>_. 0) True = ([3], Some [3])" by (simp add: jwt_secret_def)
  have migrated: "ds_migrate sample_setup = Some" by (simp add: sample_setup_def)
  show ?thesis
    using m registration_survives_a_restart[OF repo law secret r m migrated secret]
    by (intro exI[of _ "cs_repo s'"] exI[of _ restarted]) simp
qed

end
