(* ===== verification/Stale_Tasks.thy ===== *)
theory Stale_Tasks
  imports Timer Task_Frames
begin

text \<open>
  What a tick of the timer does with the tasks: which ones it restarts, and what becomes of them and of the others.
\<close>

section \<open>Tasks other than the restarted one\<close>

definition task_kept :: "uuid \<Rightarrow> ('r, 'm) task_store_scheme \<Rightarrow> ('r, 'm) task_store_scheme \<Rightarrow> bool" where
  "task_kept i s s' = (\<forall>t. cs_task_cache s i = Some t \<longrightarrow> cs_task_cache s' i = Some t)"

lemma task_kept_order [simp]: "reflp (task_kept i)" "transp (task_kept i)"
  by (auto simp: task_kept_def reflp_def transp_def)

lemma task_kept_bind:
  "eff_within (task_kept i) m \<Longrightarrow> (\<And>x. eff_within (task_kept i) (f x)) \<Longrightarrow> eff_within (task_kept i) (eff_bind m f)"
  by (rule eff_within_bind) simp_all

lemma task_kept_others: "i \<noteq> j \<Longrightarrow> eff_within (others_kept j) m \<Longrightarrow> eff_within (task_kept i) m"
  by (erule eff_within_mono) (simp add: others_kept_def task_kept_def)

lemma task_kept_same: "eff_within cache_same m \<Longrightarrow> eff_within (task_kept i) m"
  by (erule eff_within_mono) (simp add: cache_same_def task_kept_def)

lemma others_restart: "eff_within (others_kept j) (restart_task D j)"
proof -
  have "eff_within (others_kept j) (get_task E R j)" for E R
    by (rule eff_within_mono[OF kept_get_task]) (simp add: others_kept_def cache_keptD)
  then show ?thesis
    unfolding restart_task_def by (auto simp: Let_def intro!: others_intros split: task.splits)
qed

lemma restart_all_keeps: "i \<notin> set ids \<Longrightarrow> eff_within (task_kept i) (restart_all D ids)"
  by (induction ids) (auto intro!: task_kept_bind task_kept_others[OF _ others_restart])

section \<open>The stale tasks\<close>

text \<open>
  The candidates whose last update is known are chosen by its age; asking for the update of another
  one records the current time for it, and the known ones stay.
\<close>

lemma last_update_result:
  obtains now s' where "get_task_last_update D j s = (Inr (case ss_task_last_updates s j of Some u \<Rightarrow> u | None \<Rightarrow> now), s')"
    "\<And>i u. ss_task_last_updates s i = Some u \<Longrightarrow> ss_task_last_updates s' i = Some u"
proof -
  let ?now = "system_time (dp_env D) (w_calls (ss_world s))" and ?s = "snd (get_task_last_update D j s)"
  have "get_task_last_update D j s = (Inr (case ss_task_last_updates s j of Some u \<Rightarrow> u | None \<Rightarrow> ?now), ?s)"
    "\<And>i u. ss_task_last_updates s i = Some u \<Longrightarrow> ss_task_last_updates ?s i = Some u"
    by (auto simp: get_task_last_update_def get_timestamp_def env_call_def next_call_def eff_bind_def split: option.splits)
  then show thesis by (rule that)
qed

lemma stale_tasks_result:
  "\<exists>ids s'. stale_tasks D now cands s = (Inr ids, s') \<and> set ids \<subseteq> set cands \<and> (distinct cands \<longrightarrow> distinct ids) \<and>
     (\<forall>i u. ss_task_last_updates s i = Some u \<longrightarrow> (i \<in> set ids \<longleftrightarrow> i \<in> set cands \<and> is_stale now u))"
proof (induction cands arbitrary: s)
  case (Cons j cands)
  obtain t s1 where u: "get_task_last_update D j s = (Inr (case ss_task_last_updates s j of Some u \<Rightarrow> u | None \<Rightarrow> t), s1)"
    "\<And>i u. ss_task_last_updates s i = Some u \<Longrightarrow> ss_task_last_updates s1 i = Some u"
    using last_update_result[of D j s] by blast
  obtain ids s2 where ih: "stale_tasks D now cands s1 = (Inr ids, s2)" "set ids \<subseteq> set cands" "distinct cands \<longrightarrow> distinct ids"
    "\<forall>i u. ss_task_last_updates s1 i = Some u \<longrightarrow> (i \<in> set ids \<longleftrightarrow> i \<in> set cands \<and> is_stale now u)"
    using Cons.IH by blast
  let ?u = "case ss_task_last_updates s j of Some u \<Rightarrow> u | None \<Rightarrow> t"
  have "stale_tasks D now (j # cands) s = (Inr (if is_stale now ?u then j # ids else ids), s2)"
    using u(1) ih(1) by (simp add: eff_bind_def eff_return_def)
  with u(2) ih(2-4) show ?case
    by (intro exI[of _ "if is_stale now ?u then j # ids else ids"] exI[of _ s2]) auto
qed (simp add: eff_return_def)

section \<open>Restarting a task\<close>

text \<open>
  What a restart makes of a running task: the next attempt, in its first round and with no message received, or a failed
  task, which counts the attempt too.
\<close>

fun next_attempt :: "running_task \<Rightarrow> task \<Rightarrow> bool" where
  "next_attempt rt (Running_Task rt') =
     (running_task_info rt' = (running_task_info rt)\<lparr>ti_attempts := ti_attempts (running_task_info rt) + 1\<rparr> \<and>
      protocol_round (running_protocol rt') = 1 \<and> comm_input (running_comm rt') = [] \<and>
      comm_active_shares (running_comm rt') = comm_active_shares (running_comm rt))"
| "next_attempt rt (Failed_Task x) =
     (xt_task_info x = (running_task_info rt)\<lparr>ti_attempts := ti_attempts (running_task_info rt) + 1\<rparr>)"
| "next_attempt rt _ = False"

lemma restart_result:
  assumes "running_task_restart E (rt, w) = (Inr u, rt', w')"
  shows "(u = NextRound 1 \<and> next_attempt rt (Running_Task rt')) \<or> (\<exists>x. u = Round_Failed x \<and> next_attempt rt (Failed_Task x))"
  using any_task.restart_starts[OF assms] unfolding started_def by auto

lemma restart_task_restarts:
  "eff_triple (holds i (Running_Task rt)) (restart_task D i)
     (\<lambda>_ s. \<exists>t. holds i t s \<and> next_attempt rt t) (\<lambda>_. True)"
proof -
  let ?next = "\<lambda>(_::unit) s. \<exists>t. holds i t s \<and> next_attempt rt t"
  have run: "eff_triple (holds i (Running_Task rt)) (run_cached i rt (running_task_restart E))
      (\<lambda>u s. (u = NextRound 1 \<and> (\<exists>t. holds i t s \<and> next_attempt rt t)) \<or> (\<exists>x. u = Round_Failed x \<and> next_attempt rt (Failed_Task x)))
      (\<lambda>_. True)" for E
    by (intro eff_tripleI) (auto simp: run_cached_def simp del: next_attempt.simps split: prod.splits dest!: restart_result)
  have upd: "eff_triple
      (\<lambda>s. (u = NextRound 1 \<and> (\<exists>t. holds i t s \<and> next_attempt rt t)) \<or> (\<exists>x. u = Round_Failed x \<and> next_attempt rt (Failed_Task x)))
      (apply_restart_update D i j u) ?next (\<lambda>_. True)" for j u
  proof (cases u)
    case (NextRound n)
    then show ?thesis
      by (intro eff_tripleI) (auto simp: apply_restart_update_def cache_same_def
          dest!: eff_withinD[OF same_bind[OF same_call_repo same_send_cached]])
  next
    case (Round_Failed x)
    have "eff_triple (\<lambda>s. next_attempt rt (Failed_Task x)) (apply_restart_update D i j u) ?next (\<lambda>_. True)"
      unfolding Round_Failed apply_restart_update_def put_task_def round_update.case
    proof (rule eff_triple_bind[where Q = "\<lambda>_ _. next_attempt rt (Failed_Task x)"], simp add: eff_triple_def split: sum.splits,
        rule eff_triple_bind[where Q = "\<lambda>_. \<lambda>s. next_attempt rt (Failed_Task x) \<and> holds i (Failed_Task x) s"])
      show "eff_triple (\<lambda>s. next_attempt rt (Failed_Task x) \<and> holds i (Failed_Task x) s) (send_updates D (Failed_Task x))
          ?next (\<lambda>_. True)"
        by (rule eff_triple_if, rule eff_triple_post[OF holds_same[OF same_send_updates]]) blast
    qed (auto simp del: next_attempt.simps intro: eff_triple_modify)
    then show ?thesis by (rule eff_triple_pre) (use Round_Failed in auto)
  qed (auto simp: eff_triple_def)
  have "eff_triple (holds i (Running_Task rt)) (eff_bind (set_task_last_update D j) (\<lambda>_. eff_bind (call_repo f) (\<lambda>_.
      eff_bind (run_cached i rt (running_task_restart (dp_env D))) (apply_restart_update D i j)))) ?next (\<lambda>_. True)" for j f
    by (intro eff_triple_bind[OF holds_same[OF same_last_update(1)]] eff_triple_bind[OF holds_same[OF same_call_repo]]
        eff_triple_bind[OF run upd])
  then show ?thesis
    unfolding restart_task_def
    by (intro eff_triple_bind[OF holds_get_task] eff_triple_if) (simp add: Let_def)
qed

lemma restart_all_restarts:
  assumes "distinct ids" "i \<in> set ids" "holds i (Running_Task rt) s" "restart_all D ids s = (Inr x, s')"
  shows "\<exists>t. holds i t s' \<and> next_attempt rt t"
  using assms
proof (induction ids arbitrary: s)
  case (Cons j ids)
  obtain y s1 where j: "restart_task D j s = (Inr y, s1)" and rest: "restart_all D ids s1 = (Inr x, s')"
    using Cons.prems(4) by (auto simp: eff_bind_def split: prod.splits sum.splits)
  show ?case
  proof (cases "i = j")
    case True
    then obtain t where t: "holds i t s1" "next_attempt rt t"
      using eff_triple_Inr[OF restart_task_restarts _ j] Cons.prems(3) by blast
    have "i \<notin> set ids" using True Cons.prems(1) by simp
    then have "holds i t s'" using eff_withinD[OF restart_all_keeps rest] t(1) by (simp add: task_kept_def)
    with t(2) show ?thesis by blast
  next
    case False
    then have "holds i (Running_Task rt) s1"
      using eff_withinD[OF task_kept_others[OF False others_restart] j] Cons.prems(3) by (simp add: task_kept_def)
    with Cons False rest show ?thesis by simp
  qed
qed simp

section \<open>A tick\<close>

lemma check_subscribers_same: "eff_within cache_same (check_subscribers D)"
proof -
  have scan: "eff_within cache_same (scan_subscribers D subs)" for subs
  proof (rule eff_withinI)
    fix s r s' assume "scan_subscribers D subs s = (r, s')"
    then show "cache_same s s'" using scan_subscribers_result[of D subs s] by (auto simp: cache_same_def)
  qed
  have "eff_within cache_same (remove_subscribers ds)" for ds :: "bytes list"
    by (simp add: eff_within_def cache_same_def remove_subscribers_result)
  with scan show ?thesis unfolding check_subscribers_def by (intro same_intros)
qed

text \<open>The parts of a tick that has not failed on reading the candidates.\<close>

lemma timer_tick_parts:
  assumes "repo_get_restart_candidates (dp_repo D) (cs_repo s) = (Inr cands, repo)"
  obtains ids s1 where "\<And>i u. ss_task_last_updates s i = Some u \<Longrightarrow>
      i \<in> set ids \<longleftrightarrow> i \<in> set cands \<and> is_stale (system_time (dp_env D) (w_calls (ss_world s))) u"
    "distinct cands \<Longrightarrow> distinct ids" "cs_task_cache s1 = cs_task_cache s"
    "restart_stale_tasks D s = restart_all D ids s1"
proof -
  let ?s = "s\<lparr>ss_world := snd (next_call (ss_world s)), cs_repo := repo\<rparr>" and ?now = "system_time (dp_env D) (w_calls (ss_world s))"
  obtain ids s1 where st: "stale_tasks D ?now cands ?s = (Inr ids, s1)" "distinct cands \<longrightarrow> distinct ids"
    "\<forall>i u. ss_task_last_updates ?s i = Some u \<longrightarrow> (i \<in> set ids \<longleftrightarrow> i \<in> set cands \<and> is_stale ?now u)"
    using stale_tasks_result[of D ?now cands ?s] by blast
  have "cs_task_cache s1 = cs_task_cache ?s" using eff_withinD[OF same_stale_tasks st(1)] by (simp add: cache_same_def)
  moreover have "restart_stale_tasks D s = restart_all D ids s1"
    using st(1) assms by (simp add: restart_stale_tasks_def get_timestamp_def env_call_def next_call_def eff_bind_def call_repo_def)
  ultimately show thesis using st by (intro that[of ids s1]) auto
qed

text \<open>A tick restarts only stale tasks. A task in the cache whose last update is at most 30 seconds old, by the
  time the tick reads first, is the same after the tick, also when the tick fails; and so is every task that the
  database does not list for a restart.\<close>

lemma tick_leaves_fresh_tasks_alone:
  assumes "cs_task_cache s i = Some t" "ss_task_last_updates s i = Some u"
    and "repo_get_restart_candidates (dp_repo D) (cs_repo s) = (r, repo)"
    and "\<not> is_stale (system_time (dp_env D) (w_calls (ss_world s))) u \<or> (\<forall>cands. r = Inr cands \<longrightarrow> i \<notin> set cands)"
  shows "cs_task_cache (snd (timer_tick D s)) i = Some t"
proof -
  have "cs_task_cache (snd (restart_stale_tasks D s)) i = Some t"
  proof (cases r)
    case (Inl e)
    with assms(1,3) show ?thesis
      by (cases e) (simp_all add: restart_stale_tasks_def get_timestamp_def env_call_def next_call_def eff_bind_def call_repo_def)
  next
    case (Inr cands)
    obtain ids s1 where "i \<notin> set ids" "cs_task_cache s1 = cs_task_cache s" "restart_stale_tasks D s = restart_all D ids s1"
      using timer_tick_parts[OF assms(3)[unfolded Inr]] assms(2,4) Inr by metis
    with assms(1) eff_within_snd[OF restart_all_keeps] show ?thesis by (metis task_kept_def)
  qed
  moreover have "cs_task_cache (snd (check_subscribers D s1)) = cs_task_cache s1" for s1
    using eff_within_snd[OF check_subscribers_same[of D]] by (simp add: cache_same_def)
  ultimately show ?thesis by (auto simp: timer_tick_def check_tasks_def split: prod.splits sum.splits)
qed

text \<open>A running task whose last update was at the given time, when it is 1000.\<close>

definition sample_waiting :: "u64 \<Rightarrow> (unit, sample_tx) server_state" where
  "sample_waiting u = (sample_server (Running_Task sample_running))\<lparr>ss_task_last_updates := [replicate 16 1 \<mapsto> u]\<rparr>"

lemma sample_waiting_simps:
  "cs_task_cache (sample_waiting u) = [replicate 16 1 \<mapsto> Running_Task sample_running]"
  "ss_task_last_updates (sample_waiting u) = [replicate 16 1 \<mapsto> u]"
  "repo_get_restart_candidates (dp_repo sample_deps) r = (Inr [replicate 16 1], r)"
  "system_time (dp_env sample_deps) n = 1000"
  by (simp_all add: sample_waiting_def sample_server_def sample_deps_def sample_repo_def sample_env_def)

lemma tick_leaves_fresh_tasks_alone_witness:
  "cs_task_cache (snd (timer_tick sample_deps (sample_waiting 990))) (replicate 16 1) = Some (Running_Task sample_running)"
proof -
  have "\<not> is_stale (system_time (dp_env sample_deps) n) 990" for n
    by (simp add: sample_waiting_simps is_stale_def)
  then show ?thesis
    using tick_leaves_fresh_tasks_alone[of "sample_waiting 990" "replicate 16 1" _ 990 sample_deps]
    by (simp add: sample_waiting_simps)
qed

text \<open>C16. A tick restarts every stale task. When the database lists a task for a restart, its last update is more than 30
  seconds old and it is running, then after a tick that ends without an error it is one attempt further: it
  waits in round 1 for the messages of the same shares, or it has failed.\<close>

theorem tick_restarts_stale_tasks:
  assumes "cs_task_cache s i = Some (Running_Task rt)" "ss_task_last_updates s i = Some u"
    and "repo_get_restart_candidates (dp_repo D) (cs_repo s) = (Inr cands, repo)" "i \<in> set cands" "distinct cands"
    and "is_stale (system_time (dp_env D) (w_calls (ss_world s))) u"
    and "timer_tick D s = (Inr x, s')"
  shows "\<exists>t. cs_task_cache s' i = Some t \<and> next_attempt rt t"
proof -
  obtain ids s1 where ids: "i \<in> set ids" "distinct ids" "cs_task_cache s1 = cs_task_cache s"
    "restart_stale_tasks D s = restart_all D ids s1"
    using timer_tick_parts[OF assms(3)] assms(2,4,5,6) by metis
  obtain y s2 where "restart_all D ids s1 = (Inr y, s2)" "check_subscribers D s2 = (Inr x, s')"
    using assms(7) ids(4) by (auto simp: timer_tick_def check_tasks_def split: prod.splits sum.splits)
  moreover from this(2) have "cs_task_cache s' = cs_task_cache s2"
    using eff_withinD[OF check_subscribers_same] by (fastforce simp: cache_same_def)
  ultimately show ?thesis using restart_all_restarts[OF ids(2,1)] ids(3) assms(1) by metis
qed

lemma check_subscribers_total: "\<exists>s'. check_subscribers D s = (Inr (), s')"
  using scan_subscribers_result[of D "ss_subscribers s" s]
  by (auto simp: check_subscribers_def eff_bind_def eff_gets_def remove_subscribers_result)

lemma sample_restart_task:
  assumes "holds (replicate 16 1) (Running_Task sample_running) s"
  shows "\<exists>s'. restart_task sample_deps (replicate 16 1) s = (Inr (), s')"
proof -
  obtain rt where r: "\<And>w. running_task_restart (dp_env sample_deps) (sample_running, w) = (Inr (NextRound 1), rt, w)"
    by (simp add: sample_deps_def sample_running_def sign_task_restart_def sign_task_start_task_def
        sign_task_increment_attempt_count_def gg18_sign_defs Let_def)
  note g = sample_get_task[OF assms]
  have repo: "\<And>i q. repo_increment_task_attempt_count (dp_repo sample_deps) i q = (Inr 1, q)"
    "\<And>i n q. repo_set_task_round (dp_repo sample_deps) i n q = (Inr n, q)"
    by (simp_all add: sample_deps_def sample_repo_def)
  show ?thesis
    unfolding restart_task_def
    by (simp add: eff_bind_def g Let_def set_task_last_update_def get_timestamp_def env_call_def next_call_def eff_modify_def
        call_repo_def repo run_cached_def r apply_restart_update_def send_cached_def eff_gets_def send_updates_def)
qed

lemma sample_restart: "\<exists>s'. restart_stale_tasks sample_deps (sample_waiting 900) = (Inr (), s')"
proof -
  let ?i = "replicate 16 1 :: u8 list"
  let ?s = "(sample_waiting 900)\<lparr>ss_world := snd (next_call (ss_world (sample_waiting 900))), cs_repo := ()\<rparr>"
  have "is_stale 1000 900" by (simp add: is_stale_def)
  then have st: "fst (stale_tasks sample_deps 1000 [?i] ?s) = Inr [?i]"
    by (simp add: eff_bind_def eff_return_def get_task_last_update_def get_timestamp_def env_call_def next_call_def
        sample_waiting_simps)
  then obtain s1 where s1: "stale_tasks sample_deps 1000 [?i] ?s = (Inr [?i], s1)" by (metis prod.collapse)
  have run: "restart_stale_tasks sample_deps (sample_waiting 900) = restart_all sample_deps [?i] s1"
    using s1 by (simp add: restart_stale_tasks_def get_timestamp_def env_call_def next_call_def eff_bind_def call_repo_def
        sample_waiting_simps del: stale_tasks.simps restart_all.simps)
  have "holds ?i (Running_Task sample_running) s1"
    using eff_withinD[OF same_stale_tasks s1] by (simp add: cache_same_def sample_waiting_simps)
  then obtain s2 where "restart_task sample_deps ?i s1 = (Inr (), s2)" using sample_restart_task by blast
  then show ?thesis by (simp add: run eff_bind_def eff_return_def)
qed

theorem tick_restarts_stale_tasks_witness:
  "\<exists>t. cs_task_cache (snd (timer_tick sample_deps (sample_waiting 900))) (replicate 16 1) = Some t \<and> next_attempt sample_running t"
proof -
  obtain s' where t: "timer_tick sample_deps (sample_waiting 900) = (Inr (), s')"
    using sample_restart check_subscribers_total by (fastforce simp: timer_tick_def check_tasks_def)
  have "is_stale (system_time (dp_env sample_deps) n) 900" for n
    by (simp add: sample_waiting_simps is_stale_def)
  then show ?thesis
    using tick_restarts_stale_tasks[OF _ _ _ _ _ _ t, of "replicate 16 1" sample_running 900]
    by (simp add: sample_waiting_simps t)
qed

text \<open>The subscriptions stay a map of devices to channels.\<close>

definition subs_wf :: "('r, 'tx) server_state \<Rightarrow> ('r, 'tx) server_state \<Rightarrow> bool" where
  "subs_wf s s' = (hm_wf (ss_subscribers s) \<longrightarrow> hm_wf (ss_subscribers s'))"

interpretation subs: store_frame subs_wf
  by unfold_locales (auto simp: subs_wf_def reflp_def transp_def)

lemma subs_modify: "(\<And>s. hm_wf (ss_subscribers s) \<Longrightarrow> hm_wf (ss_subscribers (h s))) \<Longrightarrow> eff_within subs_wf (eff_modify h)"
  by (simp add: eff_within_def eff_modify_def subs_wf_def)

lemma send_all_updates_wf: "hm_wf subs \<Longrightarrow> hm_wf (fst (send_all_updates C views subs))"
proof (induction views arbitrary: subs)
  case (Cons view views)
  have "send_all_updates C views (hm_insert d tx subs) = (subs', remove) \<Longrightarrow> hm_wf subs'" for d tx subs' remove
    using Cons.IH[of "hm_insert d tx subs"] Cons.prems by simp
  with Cons show ?case
    by (cases view) (auto split: option.splits prod.splits)
qed simp

lemma removals_wf: "hm_wf m \<Longrightarrow> hm_wf (fold hm_remove ks m)"
  by (induction ks arbitrary: m) auto

lemma subs_send [kept_intros]:
  "eff_within subs_wf (send_updates D task)" "eff_within subs_wf (send_cached D i)"
proof -
  have wf: "hm_wf subs \<Longrightarrow> send_all_updates C views subs = (subs', remove) \<Longrightarrow> hm_wf (fold hm_remove remove subs')"
    for C :: "'b channel_ops" and views subs subs' remove
    using send_all_updates_wf[of subs C views] by (simp add: removals_wf)
  show "eff_within subs_wf (send_updates D t)" for t
    unfolding send_updates_def by (rule subs_modify) (auto split: prod.splits dest: wf)
  then show "eff_within subs_wf (send_cached D i)"
    unfolding send_cached_def by (auto intro!: kept_intros split: option.splits)
qed

lemma subs_steps [kept_intros]:
  "eff_within subs_wf (get_timestamp D)" "eff_within subs_wf (set_task_last_update D i)"
  "eff_within subs_wf (get_task_last_update D i)" "eff_within subs_wf (put_task i t)" "eff_within subs_wf (run_cached i rt f)"
  by (auto simp: eff_within_def subs_wf_def get_timestamp_def set_task_last_update_def get_task_last_update_def put_task_def
      run_cached_def env_call_def next_call_def eff_bind_def eff_modify_def split: prod.splits option.splits)

lemma subs_restart: "eff_within subs_wf (restart_stale_tasks D)"
proof -
  have "eff_within subs_wf (stale_tasks D now ids)" for now ids
    by (induction ids) (auto intro!: kept_intros)
  moreover have "eff_within subs_wf (restart_task D i)" for i
    unfolding restart_task_def apply_restart_update_def
    by (auto simp: Let_def intro!: kept_intros split: task.splits round_update.splits)
  then have "eff_within subs_wf (restart_all D ids)" for ids
    by (induction ids) (auto intro!: kept_intros)
  ultimately show ?thesis unfolding restart_stale_tasks_def by (intro kept_intros)
qed

text \<open>A tick looks after the subscriptions. When the restarts succeed it drops exactly the subscriptions whose channel is
  closed, counts the devices of all others as active at a time read during the tick, and changes
  nothing else. An error of the restarts is a panic: the subscriptions are not looked at, and as the timer is never
  started again, no task is restarted any more.\<close>

lemma tick_looks_after_subscriptions:
  assumes "hm_wf (ss_subscribers s)" "restart_stale_tasks D s = (r, s1)"
  shows "case r of
      Inl _ \<Rightarrow> timer_tick D s = (Inl Panic, s1) \<and> (\<forall>n. run_timer D (Suc n) s = (Inl Panic, s1))
    | Inr _ \<Rightarrow> \<exists>acts w subs.
        timer_tick D s = (Inr (), s1\<lparr>ss_subscribers := subs, ss_device_last_activations := acts, ss_world := w\<rparr>) \<and>
        map_of subs = (\<lambda>d. case map_of (ss_subscribers s1) d of
          Some tx \<Rightarrow> if is_closed (dp_chan D) tx then None else Some tx | None \<Rightarrow> None) \<and>
        activated_since D s1 (dom (map_of subs)) acts"
proof -
  have "hm_wf (ss_subscribers s1)"
    using eff_withinD[OF subs_restart assms(2)] assms(1) by (simp add: subs_wf_def)
  from check_subscribers_result[OF this] assms(2) show ?thesis
    by (cases r) (simp_all add: timer_tick_def check_tasks_def eff_bind_def)
qed

lemma tick_looks_after_subscriptions_witness:
  "\<exists>s1 acts w subs. restart_stale_tasks sample_deps (sample_waiting 900) = (Inr (), s1) \<and>
     timer_tick sample_deps (sample_waiting 900) =
       (Inr (), s1\<lparr>ss_subscribers := subs, ss_device_last_activations := acts, ss_world := w\<rparr>) \<and>
     map_of subs = map_of (ss_subscribers s1)"
proof -
  obtain s1 where r: "restart_stale_tasks sample_deps (sample_waiting 900) = (Inr (), s1)" using sample_restart by blast
  have "hm_wf (ss_subscribers (sample_waiting 900))" by (simp add: sample_waiting_def sample_server_def)
  from tick_looks_after_subscriptions[OF this r] obtain acts w subs where
    t: "timer_tick sample_deps (sample_waiting 900) =
      (Inr (), s1\<lparr>ss_subscribers := subs, ss_device_last_activations := acts, ss_world := w\<rparr>)"
    "map_of subs = (\<lambda>d. case map_of (ss_subscribers s1) d of
       Some tx \<Rightarrow> if is_closed (dp_chan sample_deps) tx then None else Some tx | None \<Rightarrow> None)"
    by auto
  have "map_of subs = map_of (ss_subscribers s1)"
    using t(2) by (simp add: fun_eq_iff sample_deps_def sample_channel_def split: option.splits)
  with r t(1) show ?thesis by blast
qed

end
