(* ===== verification/Postgres_Queries.thy ===== *)
theory Postgres_Queries
  imports Postgres_Laws
begin

text \<open>
  What the queries of the repository return, stated on the records and groups of \<^verbatim>\<open>Postgres_Laws\<close> rather than
  on joins, and the databases the server can produce.
\<close>

section \<open>The databases the server can produce\<close>

inductive reachable_tables :: "database_env \<Rightarrow> tables \<Rightarrow> bool" for P where
  start: "reachable_tables P empty_tables"
| add_device: "reachable_tables P db \<Longrightarrow> pg_add_device P i n k c db = (r, db') \<Longrightarrow> reachable_tables P db'"
| add_group: "reachable_tables P db \<Longrightarrow> pg_add_group P g t n th pt kt cert nt db = (r, db') \<Longrightarrow> reachable_tables P db'"
| create_task: "reachable_tables P db \<Longrightarrow> pg_create_task P t g ps th n data req tt kt pt db = (r, db') \<Longrightarrow>
    reachable_tables P db'"
| create_group_task: "reachable_tables P db \<Longrightarrow> pg_create_group_task P t ps th n pt kt req nt db = (r, db') \<Longrightarrow>
    reachable_tables P db'"
| set_decision: "reachable_tables P db \<Longrightarrow> pg_set_task_decision t d a db = (r, db') \<Longrightarrow> reachable_tables P db'"
| set_acknowledgement: "reachable_tables P db \<Longrightarrow> pg_set_task_acknowledgement t d db = (r, db') \<Longrightarrow> reachable_tables P db'"
| set_active_shares: "reachable_tables P db \<Longrightarrow> pg_set_task_active_shares P t m db = (r, db') \<Longrightarrow> reachable_tables P db'"
| set_result: "reachable_tables P db \<Longrightarrow> pg_set_task_result P t res db = (r, db') \<Longrightarrow> reachable_tables P db'"
| set_certificates_sent: "reachable_tables P db \<Longrightarrow> pg_set_task_group_certificates_sent P t sent db = (r, db') \<Longrightarrow>
    reachable_tables P db'"
| set_round: "reachable_tables P db \<Longrightarrow> pg_set_task_round P t n db = (r, db') \<Longrightarrow> reachable_tables P db'"
| increment_attempts: "reachable_tables P db \<Longrightarrow> pg_increment_task_attempt_count P t db = (r, db') \<Longrightarrow>
    reachable_tables P db'"

lemmas written_ok = keeps_writes[THEN keepsD] keeps_increment[THEN keepsD]

lemma empty_tables_ok: "tables_ok empty_tables"
  by (simp add: tables_ok_def empty_tables_def)

lemma reachable_ok: "reachable_tables P db \<Longrightarrow> tables_ok db"
  by (induction rule: reachable_tables.induct) (rule empty_tables_ok | erule (1) written_ok)+

section \<open>Tasks\<close>

lemma filter_key_and:
  assumes "distinct (map k xs)"
  shows "filter (\<lambda>x. k x = i \<and> Q x) xs =
    (case find (\<lambda>x. k x = i) xs of None \<Rightarrow> [] | Some x \<Rightarrow> if Q x then [x] else [])"
proof -
  have "filter (\<lambda>x. k x = i \<and> Q x) xs = filter Q (filter (\<lambda>x. k x = i) xs)" by (simp add: conj_commute)
  then show ?thesis unfolding filter_key[OF assms] by (simp split: option.splits)
qed

lemma find_key_iff:
  assumes "distinct (map k xs)"
  shows "find (\<lambda>x. k x = i) xs = Some x \<longleftrightarrow> x \<in> set xs \<and> k x = i"
proof
  assume "find (\<lambda>x. k x = i) xs = Some x"
  then show "x \<in> set xs \<and> k x = i" using find_member[of k i xs x] by simp
next
  assume "x \<in> set xs \<and> k x = i"
  with find_key[OF assms, of x] show "find (\<lambda>x. k x = i) xs = Some x" by simp
qed

text \<open>A query of the tasks that gives the identifier of each task it selects once.\<close>

lemma select_ids:
  assumes "tables_ok db"
  shows "sorted (sort (map tm_id (filter Q (db_task db))))" "distinct (sort (map tm_id (filter Q (db_task db))))"
    "set (sort (map tm_id (filter Q (db_task db)))) = {i. \<exists>r. find (\<lambda>r. tm_id r = i) (db_task db) = Some r \<and> Q r}"
proof -
  show "distinct (sort (map tm_id (filter Q (db_task db))))"
    using tables_okD(3)[OF assms] by (simp add: distinct_map_filter)
  show "set (sort (map tm_id (filter Q (db_task db)))) = {i. \<exists>r. find (\<lambda>r. tm_id r = i) (db_task db) = Some r \<and> Q r}"
    unfolding find_key_iff[OF tables_okD(3)[OF assms]] by auto
qed simp

lemma acknowledged_listed:
  assumes "tables_ok db"
  shows "b \<in> task_acknowledged db i \<longleftrightarrow>
    (\<exists>p. find (\<lambda>p. tp_key p = (i, b)) (db_task_participant db) = Some p \<and> tp_acknowledgment p = Some True)"
proof -
  have "b \<in> task_acknowledged db i \<longleftrightarrow>
      (\<exists>p. p \<in> set (db_task_participant db) \<and> tp_key p = (i, b) \<and> tp_acknowledgment p = Some True)"
    by (auto simp: task_acknowledged_def)
  then show ?thesis unfolding find_key_iff[OF tables_okD(4)[OF assms]] by simp
qed

lemma open_tasks:
  assumes "tables_ok db"
  shows "\<exists>ids. pg_get_active_device_tasks b db = (Inr ids, db) \<and> sorted ids \<and> distinct ids \<and>
    set ids = {i. \<exists>d. stored_record db i = Some d \<and> b \<in> part_id ` set (sd_participants d) \<and>
      (tm_result (sd_model d) = None \<or> b \<notin> sd_acknowledged d)}"
proof -
  let ?row = "\<lambda>i. find (\<lambda>p. tp_key p = (i, b)) (db_task_participant db)"
  let ?res = "\<lambda>i. find (\<lambda>x. tr_task_id x = i) (db_task_result db)"
  define Q where "Q = (\<lambda>r :: task_row. case ?row (tm_id r) of None \<Rightarrow> False
    | Some p \<Rightarrow> ?res (tm_id r) = None \<or> tp_acknowledgment p \<noteq> Some True)"
  have row: "concat (map (\<lambda>model. map (\<lambda>_. tm_id model) (filter (\<lambda>p. tp_task_id p = tm_id model \<and> tp_device_id p = b \<and>
      (tm_result model = None \<or> tp_acknowledgment p = None \<or> tp_acknowledgment p = Some False)) (db_task_participant db)))
      (with_result db r)) = (if Q r then [tm_id r] else [])" for r
  proof -
    have ack: "a = None \<or> a = Some False \<longleftrightarrow> a \<noteq> Some True" for a :: "bool option" by (cases a) auto
    have "filter (\<lambda>p. tp_task_id p = tm_id r \<and> tp_device_id p = b \<and>
        (?res (tm_id r) = None \<or> tp_acknowledgment p = None \<or> tp_acknowledgment p = Some False)) (db_task_participant db) =
      filter (\<lambda>p. tp_key p = (tm_id r, b) \<and> (?res (tm_id r) = None \<or> tp_acknowledgment p \<noteq> Some True)) (db_task_participant db)"
      unfolding ack by (intro filter_cong) auto
    also have "\<dots> = (case ?row (tm_id r) of None \<Rightarrow> []
      | Some p \<Rightarrow> if ?res (tm_id r) = None \<or> tp_acknowledgment p \<noteq> Some True then [p] else [])"
      by (rule filter_key_and[OF tables_okD(4)[OF assms]])
    finally show ?thesis
      unfolding with_result_unique[OF assms] Q_def by (simp add: task_row.extend_def split: option.splits)
  qed
  have all: "concat (map (\<lambda>r. if Q r then [tm_id r] else []) rows) = map tm_id (filter Q rows)" for rows
    by (induction rows) auto
  let ?ids = "sort (map tm_id (filter Q (db_task db)))"
  have "pg_get_active_device_tasks b db = (Inr ?ids, db)"
    unfolding pg_get_active_device_tasks_def sql_query_def row all by simp
  moreover have "set ?ids = {i. \<exists>d. stored_record db i = Some d \<and> b \<in> part_id ` set (sd_participants d) \<and>
      (tm_result (sd_model d) = None \<or> b \<notin> sd_acknowledged d)}"
  proof -
    have "(\<exists>r. find (\<lambda>r. tm_id r = i) (db_task db) = Some r \<and> Q r) \<longleftrightarrow> (\<exists>d. stored_record db i = Some d \<and>
        b \<in> part_id ` set (sd_participants d) \<and> (tm_result (sd_model d) = None \<or> b \<notin> sd_acknowledged d))" for i
    proof (cases "find (\<lambda>r. tm_id r = i) (db_task db)")
      case (Some r)
      then have "tm_id r = i" using find_member[OF Some] by simp
      with Some participant_listed[OF assms, of b i] acknowledged_listed[OF assms, of b i] show ?thesis
        by (cases "?row i") (simp_all add: Q_def stored_record_def task_row.extend_def)
    qed (simp add: stored_record_def)
    then show ?thesis unfolding select_ids(3)[OF assms] by simp
  qed
  ultimately show ?thesis using select_ids(1,2)[OF assms, of Q] by (intro exI[of _ ?ids]) simp
qed

lemma restart_candidates:
  assumes "tables_ok db"
  shows "\<exists>ids. pg_get_restart_candidates db = (Inr ids, db) \<and> sorted ids \<and> distinct ids \<and>
    set ids = {i. \<exists>d. stored_record db i = Some d \<and> tm_result (sd_model d) = None \<and>
      (tm_group_certificates_sent (sd_model d) = Some True \<or> sint (tm_protocol_round (sd_model d)) \<ge> 1)}"
proof -
  define Q where "Q = (\<lambda>r :: task_row. find (\<lambda>x. tr_task_id x = tm_id r) (db_task_result db) = None \<and>
    (tm_group_certificates_sent r = Some True \<or> sint (tm_protocol_round r) \<ge> 1))"
  have row: "map tm_id (filter (\<lambda>model. tm_result model = None \<and>
      (tm_group_certificates_sent model = Some True \<or> sint (tm_protocol_round model) \<ge> 1)) (with_result db r)) =
      (if Q r then [tm_id r] else [])" for r
    unfolding with_result_unique[OF assms] Q_def by (simp add: task_row.extend_def)
  have all: "concat (map (\<lambda>r. if Q r then [tm_id r] else []) rows) = map tm_id (filter Q rows)" for rows
    by (induction rows) auto
  let ?ids = "sort (map tm_id (filter Q (db_task db)))"
  have "pg_get_restart_candidates db = (Inr ?ids, db)"
    unfolding pg_get_restart_candidates_def sql_query_def row all by simp
  moreover have "(\<exists>r. find (\<lambda>r. tm_id r = i) (db_task db) = Some r \<and> Q r) \<longleftrightarrow> (\<exists>d. stored_record db i = Some d \<and>
      tm_result (sd_model d) = None \<and>
      (tm_group_certificates_sent (sd_model d) = Some True \<or> sint (tm_protocol_round (sd_model d)) \<ge> 1))" for i
  proof (cases "find (\<lambda>r. tm_id r = i) (db_task db)")
    case (Some r)
    with find_member[OF Some] show ?thesis by (simp add: Q_def stored_record_def task_row.extend_def)
  qed (simp add: stored_record_def)
  ultimately show ?thesis using select_ids[OF assms, of Q] by (intro exI[of _ ?ids]) simp
qed

section \<open>Groups\<close>

text \<open>The groups, each with its participants.\<close>

definition all_groups :: "tables \<Rightarrow> group list" where
  "all_groups db = map (\<lambda>r. group_row.extend r \<lparr>grp_participant_ids_shares = map (\<lambda>p. (gp_device_id p, gp_shares p))
     (filter (\<lambda>p. gp_group_id p = grp_id r) (db_group_participant db))\<rparr>) (db_group db)"

text \<open>Collecting the rows of each group in a map and taking them out again.\<close>

lemma collected_participants:
  "(case map_of (collect_participants rows) g of None \<Rightarrow> [] | Some ps \<Rightarrow> ps) =
     map (\<lambda>p. (gp_device_id p, gp_shares p)) (filter (\<lambda>p. gp_group_id p = g) rows)"
proof -
  have "(case map_of (fold (\<lambda>r. hm_push (gp_group_id r) (gp_device_id r, gp_shares r)) rows m) g of None \<Rightarrow> [] | Some ps \<Rightarrow> ps) =
      (case map_of m g of None \<Rightarrow> [] | Some ps \<Rightarrow> ps) @
        map (\<lambda>p. (gp_device_id p, gp_shares p)) (filter (\<lambda>p. gp_group_id p = g) rows)" for m
    by (induction rows arbitrary: m) (auto simp: hm_push_def)
  from this[of "[]"] show ?thesis by (simp add: collect_participants_def)
qed

lemma taken_participants:
  assumes "distinct (map grp_id gs)"
  shows "take_participants gs m = map (\<lambda>g. group_row.extend g \<lparr>grp_participant_ids_shares =
    (case map_of m (grp_id g) of None \<Rightarrow> [] | Some ps \<Rightarrow> ps)\<rparr>) gs"
  using assms
proof (induction gs arbitrary: m)
  case (Cons g gs)
  have "map_of (hm_remove (grp_id g) m) (grp_id x) = map_of m (grp_id x)" if "x \<in> set gs" for x
    using that Cons.prems by (auto simp: image_iff)
  with Cons show ?case by simp
qed simp

lemma read_all_groups:
  assumes "tables_ok db"
  shows "pg_get_groups db = (Inr (all_groups db), db)"
  using assms
  by (simp add: pg_get_groups_def sql_query_def taken_participants collected_participants all_groups_def tables_okD(2))

lemma stored_all_groups: "stored_group db g = find (\<lambda>x. grp_id x = g) (all_groups db)"
proof -
  have "find (\<lambda>x. grp_id x = g) (map (\<lambda>r. group_row.extend r \<lparr>grp_participant_ids_shares = f (grp_id r)\<rparr>) rows) =
      map_option (\<lambda>r. group_row.extend r \<lparr>grp_participant_ids_shares = f g\<rparr>) (find (\<lambda>r. grp_id r = g) rows)" for rows f
    by (induction rows) (auto simp: group_row.extend_def)
  from this[of "\<lambda>i. map (\<lambda>p. (gp_device_id p, gp_shares p)) (filter (\<lambda>p. gp_group_id p = i) (db_group_participant db))"]
  show ?thesis unfolding stored_group_def all_groups_def by simp
qed

lemma device_rows:
  assumes "tables_ok db"
  shows "filter (\<lambda>r. gp_group_id r = g \<and> gp_device_id r = b) (db_group_participant db) = [] \<longleftrightarrow>
      b \<notin> gp_device_id ` set (filter (\<lambda>p. gp_group_id p = g) (db_group_participant db))"
    "length (filter (\<lambda>r. gp_group_id r = g \<and> gp_device_id r = b) (db_group_participant db)) \<le> 1"
proof -
  have d: "distinct (map gp_key (db_group_participant db))" using assms by (simp add: tables_ok_def)
  show "filter (\<lambda>r. gp_group_id r = g \<and> gp_device_id r = b) (db_group_participant db) = [] \<longleftrightarrow>
      b \<notin> gp_device_id ` set (filter (\<lambda>p. gp_group_id p = g) (db_group_participant db))"
    by (auto simp: filter_empty_conv)
  have "filter (\<lambda>r. gp_group_id r = g \<and> gp_device_id r = b) (db_group_participant db) =
      filter (\<lambda>r. gp_key r = (g, b)) (db_group_participant db)" by simp
  then show "length (filter (\<lambda>r. gp_group_id r = g \<and> gp_device_id r = b) (db_group_participant db)) \<le> 1"
    unfolding filter_key[OF d] by (simp split: option.splits)
qed

lemma join_once:
  assumes "\<And>x. length (f x) \<le> 1"
  shows "concat (map (\<lambda>x. map (\<lambda>_. x) (f x)) xs) = filter (\<lambda>x. f x \<noteq> []) xs"
proof (induction xs)
  case (Cons x xs)
  then show ?case using assms[of x] by (cases "f x") auto
qed simp

lemma read_device_groups:
  assumes "tables_ok db"
  shows "pg_get_device_groups b db =
    (Inr (filter (\<lambda>g. b \<in> fst ` set (grp_participant_ids_shares g)) (all_groups db)), db)"
proof -
  let ?ps = "db_group_participant db"
  let ?mine = "\<lambda>g. filter (\<lambda>r. gp_group_id r = g \<and> gp_device_id r = b) ?ps"
  have rows: "concat (map (\<lambda>r. map (\<lambda>_. r) (?mine (gp_group_id r))) ?ps) = filter (\<lambda>r. ?mine (gp_group_id r) \<noteq> []) ?ps"
    "concat (map (\<lambda>g. map (\<lambda>_. g) (?mine (grp_id g))) (db_group db)) = filter (\<lambda>g. ?mine (grp_id g) \<noteq> []) (db_group db)"
    by (rule join_once, rule device_rows(2)[OF assms])+
  have dist: "distinct (map grp_id (filter (\<lambda>g. ?mine (grp_id g) \<noteq> []) (db_group db)))"
    using tables_okD(2)[OF assms] by (simp add: distinct_map_filter)
  have parts: "filter (\<lambda>p. gp_group_id p = g) (filter (\<lambda>r. ?mine (gp_group_id r) \<noteq> []) ?ps) = filter (\<lambda>p. gp_group_id p = g) ?ps"
    if "?mine g \<noteq> []" for g
    using that by (simp add: filter_filter cong: conj_cong) (metis (mono_tags, lifting) filter_cong)
  have mine: "?mine (grp_id r) \<noteq> [] \<longleftrightarrow> b \<in> fst ` set (map (\<lambda>p. (gp_device_id p, gp_shares p)) (filter (\<lambda>p. gp_group_id p = grp_id r) ?ps))" for r
    unfolding device_rows(1)[OF assms] by (force simp: image_iff)
  have "take_participants (filter (\<lambda>g. ?mine (grp_id g) \<noteq> []) (db_group db))
      (collect_participants (filter (\<lambda>r. ?mine (gp_group_id r) \<noteq> []) ?ps)) =
    map (\<lambda>r. group_row.extend r \<lparr>grp_participant_ids_shares = map (\<lambda>p. (gp_device_id p, gp_shares p))
     (filter (\<lambda>p. gp_group_id p = grp_id r) ?ps)\<rparr>) (filter (\<lambda>g. ?mine (grp_id g) \<noteq> []) (db_group db))"
    unfolding taken_participants[OF dist] collected_participants
    by (intro map_cong refl) (simp add: parts del: filter_filter)
  moreover have "\<dots> = filter (\<lambda>g. b \<in> fst ` set (grp_participant_ids_shares g)) (all_groups db)"
    unfolding all_groups_def filter_map mine by (simp add: comp_def group_row.extend_def)
  ultimately show ?thesis unfolding pg_get_device_groups_def sql_query_def Let_def rows by simp
qed

text \<open>The participants a new group takes over from the task that established it.\<close>

lemma task_devices_parts:
  assumes "tables_ok db"
  shows "task_devices t db = map (\<lambda>p. (part_id p, part_shares p)) (task_parts db t)"
proof -
  have one: "map (\<lambda>_. (tp_device_id r, tp_shares r)) (filter (\<lambda>x. tm_id x = tp_task_id r \<and> tm_id x = t) (db_task db)) =
      (if tp_task_id r = t then [(tp_device_id r, tp_shares r)] else [])" if "r \<in> set (db_task_participant db)" for r
  proof -
    have "filter (\<lambda>x. tm_id x = tp_task_id r \<and> tm_id x = t) (db_task db) =
        (if tp_task_id r = t then filter (\<lambda>x. tm_id x = t) (db_task db) else [])" by (auto simp: filter_empty_conv intro: filter_cong)
    moreover have "find (\<lambda>x. tm_id x = tp_task_id r) (db_task db) \<noteq> None"
      using tables_okD(7)[OF assms that] find_known[of tm_id "tp_task_id r" "db_task db"] by simp
    ultimately show ?thesis unfolding filter_key[OF tables_okD(3)[OF assms]] by auto
  qed
  have "concat (map (\<lambda>r. map (\<lambda>_. (tp_device_id r, tp_shares r))
      (filter (\<lambda>x. tm_id x = tp_task_id r \<and> tm_id x = t) (db_task db))) rows) =
    map (\<lambda>p. (tp_device_id p, tp_shares p)) (filter (\<lambda>p. tp_task_id p = t) rows)"
    if "set rows \<subseteq> set (db_task_participant db)" for rows
    using that by (induction rows) (simp_all add: one)
  then show ?thesis
    unfolding task_devices_def task_parts_rows[OF assms, of "\<lambda>_ n. n"] by simp
qed

lemma added_group:
  assumes "tables_ok db" "pg_add_group P gid t n th pt kt cert nt db = (Inr g, db')"
  shows "tables_ok db'" "stored_record db' = stored_record db" "stored_device db' = stored_device db"
    "stored_group db' = (stored_group db)(gid \<mapsto> g)" "stored_group db gid = None"
    "g = \<lparr>grp_id = gid, grp_name = n, grp_threshold = th, grp_protocol = pt, grp_key_type = kt, grp_certificate = cert,
       grp_note = nt, grp_participant_ids_shares = map (\<lambda>p. (part_id p, part_shares p)) (task_parts db t)\<rparr>"
proof -
  let ?row = "\<lparr>grp_id = gid, grp_name = n, grp_threshold = th, grp_protocol = pt, grp_key_type = kt, grp_certificate = cert,
    grp_note = nt\<rparr>"
  let ?rows = "map (\<lambda>(d, shares). \<lparr>gp_group_id = gid, gp_device_id = d, gp_shares = shares\<rparr>) (task_devices t db)"
  have new: "gid \<notin> known_groups db" and
    db': "db' = db\<lparr>db_group := db_group db @ [?row], db_group_participant := db_group_participant db @ ?rows\<rparr>" and
    g: "stored_group db' gid = Some g"
    using assms(2)
    by (auto simp: pg_add_group_def sql_transaction_Inr sql_bind_Inr try_into_i32_def sql_return_def sql_fail_def sql_query_def
        insert_group_def insert_group_participants_def pg_read_group task_devices_def dest!: checked_Inr
        split: if_splits option.splits)
  show "tables_ok db'" using keepsD[OF keeps_writes(2) assms] .
  have none: "filter (\<lambda>p. gp_group_id p = gid) (db_group_participant db) = []"
    using assms(1) new by (auto simp: tables_ok_def filter_empty_conv)
  have mine: "filter (\<lambda>p. gp_group_id p = j) ?rows = (if j = gid then ?rows else [])" for j
    by (auto simp: filter_empty_conv filter_id_conv)
  have unknown: "find (\<lambda>r. grp_id r = gid) (db_group db) = None"
    using new find_known[of grp_id gid "db_group db"] by simp
  then show "stored_group db gid = None" by (simp add: stored_group_def)
  have "stored_group db' j = stored_group db j" if "j \<noteq> gid" for j
    using that mine[of j] by (simp add: stored_group_def db' find_append del: filter_map split: option.splits)
  with g show "stored_group db' = (stored_group db)(gid \<mapsto> g)" by (simp add: fun_eq_iff)
  show "stored_record db' = stored_record db" "stored_device db' = stored_device db"
    by (simp_all add: fun_eq_iff db' stored_record_def task_parts_def task_decision_def task_acknowledged_def task_active_def
        joined_devices_def stored_device_def)
  have "map (\<lambda>p. (gp_device_id p, gp_shares p)) ?rows = task_devices t db" by (simp add: comp_def case_prod_beta)
  with g none mine[of gid] unknown show "g = \<lparr>grp_id = gid, grp_name = n, grp_threshold = th, grp_protocol = pt, grp_key_type = kt,
      grp_certificate = cert, grp_note = nt, grp_participant_ids_shares = map (\<lambda>p. (part_id p, part_shares p)) (task_parts db t)\<rparr>"
    unfolding task_devices_parts[OF assms(1), symmetric]
    by (simp add: stored_group_def db' find_append group_row.extend_def del: filter_map map_map)
qed

section \<open>Results\<close>

definition stored_result :: "tables \<Rightarrow> uuid \<Rightarrow> task_result_row option" where
  "stored_result db i = find (\<lambda>x. tr_task_id x = i) (db_task_result db)"

lemma result_id [simp]: "tr_task_id (new_task_result res i) = i"
  by (cases res) simp_all

lemma new_result_check [simp]: "task_result_check (new_task_result res i)"
  by (cases res) (simp_all add: task_result_check_def)

lemma changed_new_result:
  assumes "task_result_check old" "tr_task_id old = i"
  shows "task_result_check (changed_result (new_task_result res i) old) \<longleftrightarrow> tr_is_successful old = (\<exists>data. res = Inr data)"
    "tr_is_successful old = (\<exists>data. res = Inr data) \<Longrightarrow> changed_result (new_task_result res i) old = new_task_result res i"
  using assms by (cases res; auto simp: changed_result_def task_result_check_def split: option.splits)+

lemma set_result_stored:
  assumes "tables_ok db" "i \<in> known_tasks db" "\<forall>m. res = Inl m \<longrightarrow> text_ok m"
    and "\<And>old. stored_result db i = Some old \<Longrightarrow> tr_is_successful old = (\<exists>data. res = Inr data)"
  shows "\<exists>db'. pg_set_task_result P i res db = (Inr (), db') \<and> stored_result db' = (stored_result db)(i \<mapsto> new_task_result res i)"
proof -
  let ?r = "new_task_result res i"
  have txt_ok: "\<forall>m \<in> set_option (tr_error_message ?r). text_ok m" using assms(3) by (cases res) simp_all
  show ?thesis
  proof (cases "stored_result db i")
    case None
    then have "filter (\<lambda>old. tr_task_id old = i) (db_task_result db) = []"
      by (simp add: stored_result_def filter_key[OF tables_okD(6)[OF assms(1)]])
    with None txt_ok assms(2) show ?thesis
      by (simp add: pg_set_task_result_def upsert_task_result_def checked_def fun_eq_iff)
        (simp add: stored_result_def find_append split: option.splits)
  next
    case (Some old)
    then have old: "filter (\<lambda>old. tr_task_id old = i) (db_task_result db) = [old]" "old \<in> set (db_task_result db)" "tr_task_id old = i"
      using find_member[of tr_task_id i "db_task_result db" old]
      by (simp_all add: stored_result_def filter_key[OF tables_okD(6)[OF assms(1)]])
    have "task_result_check old" using assms(1) old(2) by (simp add: tables_ok_def)
    from changed_new_result[OF this old(3), of res] assms(4)[OF Some]
    have c: "task_result_check (changed_result ?r old)" "changed_result ?r old = ?r" by simp_all
    let ?f = "\<lambda>x. if tr_task_id x = i then changed_result ?r x else x"
    have f: "map_option ?f (stored_result db j) = ((stored_result db)(i \<mapsto> ?r)) j" for j
    proof (cases "stored_result db j")
      case (Some x)
      then show ?thesis
        using find_member[of tr_task_id j "db_task_result db" x] c(2) \<open>stored_result db i = Some old\<close>
        by (auto simp: stored_result_def)
    qed (use Some in auto)
    have "find (\<lambda>x. tr_task_id x = j) (map ?f (db_task_result db)) = ((stored_result db)(i \<mapsto> ?r)) j" for j
      using f[of j] find_update[of tr_task_id ?f j "db_task_result db"] by (simp add: stored_result_def)
    with Some old txt_ok assms(2) c show ?thesis
      by (simp add: pg_set_task_result_def upsert_task_result_def checked_def fun_eq_iff stored_result_def)
  qed
qed

lemma set_result_refused:
  assumes "tables_ok db" "stored_result db i = Some old" "tr_is_successful old \<noteq> (\<exists>data. res = Inr data)"
    "\<forall>m. res = Inl m \<longrightarrow> text_ok m"
  shows "pg_set_task_result P i res db = (Inl (ExecutionError (violation_message P Check_Violation)), db)"
proof -
  have old: "filter (\<lambda>old. tr_task_id old = i) (db_task_result db) = [old]" "old \<in> set (db_task_result db)" "tr_task_id old = i"
    using assms(2) find_member[of tr_task_id i "db_task_result db" old]
    by (simp_all add: stored_result_def filter_key[OF tables_okD(6)[OF assms(1)]])
  have "task_result_check old" using assms(1) old(2) by (simp add: tables_ok_def)
  from changed_new_result[OF this old(3), of res] assms(3)
  have "\<not> task_result_check (changed_result (new_task_result res i) old)" by simp
  moreover have "\<forall>m \<in> set_option (tr_error_message (new_task_result res i)). text_ok m" using assms(4) by (cases res) simp_all
  ultimately show ?thesis
    using old(1) by (simp add: pg_set_task_result_def upsert_task_result_def checked_def refuse_def sql_fail_def)
qed

section \<open>Properties\<close>



text \<open>The tasks a device is given when it asks for its tasks are exactly the tasks it takes part in that have no result yet
  or whose result it has not acknowledged, each once and in the order of their identifiers, so that no task
  stays hidden from a participant and none is shown again after its acknowledgement.\<close>

lemma device_is_given_its_open_tasks:
  assumes "tables_ok db"
  shows "\<exists>ids. pg_get_active_device_tasks device_id db = (Inr ids, db) \<and> sorted ids \<and> distinct ids \<and>
    set ids = {i. \<exists>d. stored_record db i = Some d \<and> device_id \<in> part_id ` set (sd_participants d) \<and>
      (tm_result (sd_model d) = None \<or> device_id \<notin> sd_acknowledged d)}"
  using assms by (rule open_tasks)

lemma sample_record:
  "\<exists>d. stored_record sample_accepted_tables (replicate 16 1) = Some d \<and> [7] \<in> part_id ` set (sd_participants d) \<and>
     tm_result (sd_model d) = None \<and> tm_group_certificates_sent (sd_model d) = None \<and> tm_protocol_round (sd_model d) = 0"
  by (simp add: stored_record_def task_parts_def task_row.extend_def joined_devices_def sample_device_def
      sample_accepted_tables_def sample_tables_def sample_task_row_def empty_tables_def)

lemma device_is_given_its_open_tasks_witness:
  "\<exists>ids. pg_get_active_device_tasks [7] sample_accepted_tables = (Inr ids, sample_accepted_tables) \<and>
     replicate 16 1 \<in> set ids"
  using device_is_given_its_open_tasks[OF sample_accepted_tables_ok, of "[7]"] sample_record by auto

text \<open>C26. The queries for groups agree. The list of all groups, which collects the participants of all groups in one pass, the
  groups of a device, found with a join of the participants with themselves, and the group with an identifier give
  each group with exactly its participants; the groups of a device are those of all groups that it takes part in.\<close>

theorem group_queries_agree:
  assumes "tables_ok db"
  shows "\<exists>groups. pg_get_groups db = (Inr groups, db) \<and>
    (\<forall>g. pg_get_group g db = (Inr (find (\<lambda>x. grp_id x = g) groups), db)) \<and>
    (\<forall>b. pg_get_device_groups b db = (Inr (filter (\<lambda>g. b \<in> fst ` set (grp_participant_ids_shares g)) groups), db)) \<and>
    (\<forall>g \<in> set groups. grp_participant_ids_shares g =
       map (\<lambda>p. (gp_device_id p, gp_shares p)) (filter (\<lambda>p. gp_group_id p = grp_id g) (db_group_participant db)))"
  by (intro exI[of _ "all_groups db"])
    (auto simp: read_all_groups[OF assms] pg_read_group stored_all_groups read_device_groups[OF assms],
      auto simp: all_groups_def group_row.extend_def)

theorem group_queries_agree_witness:
  "pg_get_device_groups [6] sample_tables = (Inr [sample_group], sample_tables)"
proof -
  obtain groups where g: "pg_get_groups sample_tables = (Inr groups, sample_tables)"
    "\<forall>b. pg_get_device_groups b sample_tables =
       (Inr (filter (\<lambda>g. b \<in> fst ` set (grp_participant_ids_shares g)) groups), sample_tables)"
    using group_queries_agree[OF sample_tables_ok] by blast
  have "groups = [sample_group]"
    using g(1) by (simp add: read_all_groups[OF sample_tables_ok])
      (simp add: all_groups_def sample_tables_def empty_tables_def group_row.extend_def sample_group_def)
  with g(2) show ?thesis by (simp add: sample_group_def)
qed

text \<open>C25. A group that has been established is the group that is found. Adding a group for the task that established it stores
  the group with the participants and the shares of that task, returns it, and leaves every other group, the
  tasks and the devices as they are; afterwards the group is found under its identifier and by exactly the devices
  that took part in the task. A group that exists already is never replaced.\<close>

theorem established_group_is_found:
  assumes "tables_ok db" "pg_add_group P gid t n th pt kt cert nt db = (Inr g, db')"
  shows "g = \<lparr>grp_id = gid, grp_name = n, grp_threshold = th, grp_protocol = pt, grp_key_type = kt, grp_certificate = cert,
      grp_note = nt, grp_participant_ids_shares = map (\<lambda>p. (part_id p, part_shares p)) (task_parts db t)\<rparr> \<and>
    stored_group db gid = None \<and> (\<forall>j. pg_get_group j db' = (Inr (if j = gid then Some g else stored_group db j), db')) \<and>
    (\<forall>b. \<exists>gs. pg_get_device_groups b db' = (Inr gs, db') \<and> (g \<in> set gs \<longleftrightarrow> b \<in> part_id ` set (task_parts db t))) \<and>
    stored_record db' = stored_record db \<and> stored_device db' = stored_device db"
proof -
  note a = added_group[OF assms]
  have "find (\<lambda>x. grp_id x = gid) (all_groups db') = Some g" using a(4) stored_all_groups[of db' gid] by simp
  then have "g \<in> set (all_groups db')" using find_member[of grp_id gid "all_groups db'" g] by simp
  then have "g \<in> set (filter (\<lambda>g. b \<in> fst ` set (grp_participant_ids_shares g)) (all_groups db')) \<longleftrightarrow>
      b \<in> part_id ` set (task_parts db t)" for b
    using a(6) by (simp add: image_image)
  with a show ?thesis by (simp add: pg_read_group read_device_groups)
qed

theorem established_group_is_found_witness:
  "\<exists>g db'. pg_add_group sample_database [9] (replicate 16 1) ''n'' 2 Gg18 KT_SignChallenge None None sample_accepted_tables = (Inr g, db') \<and>
     grp_participant_ids_shares g = [([5], 1), ([6], 1), ([7], 3)] \<and> pg_get_group [9] db' = (Inr (Some g), db')"
proof -
  obtain g db' where a: "pg_add_group sample_database [9] (replicate 16 1) ''n'' 2 Gg18 KT_SignChallenge None None
      sample_accepted_tables = (Inr g, db')"
    by (simp add: pg_add_group_def sql_defs try_into_i32_def insert_group_def insert_group_participants_def checked_def text_ok_def
        group_check_def task_devices_def pg_get_group_def sample_accepted_tables_def sample_tables_def empty_tables_def
        sample_task_row_def sample_device_def Let_def)
  have "map (\<lambda>p. (part_id p, part_shares p)) (task_parts sample_accepted_tables (replicate 16 1)) = [([5], 1), ([6], 1), ([7], 3)]"
    by (simp add: task_parts_def joined_devices_def sample_device_def sample_accepted_tables_def sample_tables_def empty_tables_def)
  with established_group_is_found[OF sample_accepted_tables_ok a] a show ?thesis by auto
qed

text \<open>C34. The first result of a task fixes its kind. A result is stored when the task has none, and a later result of the same
  kind replaces it; an error for a task that has succeeded, or data for one that has failed, is refused by the database and
  changes nothing, because the statement leaves the other column as it was and the check of the table rules out both.\<close>

theorem stored_result_keeps_its_kind:
  assumes "tables_ok db" "i \<in> known_tasks db" "\<forall>m. res = Inl m \<longrightarrow> text_ok m"
  shows "case stored_result db i of
      Some old \<Rightarrow> if tr_is_successful old = (\<exists>data. res = Inr data)
        then \<exists>db'. pg_set_task_result P i res db = (Inr (), db') \<and> stored_result db' = (stored_result db)(i \<mapsto> new_task_result res i)
        else pg_set_task_result P i res db = (Inl (ExecutionError (violation_message P Check_Violation)), db)
    | None \<Rightarrow> \<exists>db'. pg_set_task_result P i res db = (Inr (), db') \<and> stored_result db' = (stored_result db)(i \<mapsto> new_task_result res i)"
  using set_result_stored[OF assms] set_result_refused[OF assms(1) _ _ assms(3)] by (auto split: option.splits)

theorem stored_result_keeps_its_kind_witness:
  "\<exists>db. pg_set_task_result sample_database (replicate 16 1) (Inr [3]) sample_accepted_tables = (Inr (), db) \<and>
     pg_set_task_result sample_database (replicate 16 1) (Inl ''late'') db = (Inl (ExecutionError ''refused''), db)"
proof -
  let ?i = "replicate 16 1 :: uuid"
  have known: "?i \<in> known_tasks sample_accepted_tables" by (simp add: sample_accepted_tables_def sample_task_row_def)
  have none: "stored_result sample_accepted_tables ?i = None"
    by (simp add: stored_result_def sample_accepted_tables_def sample_tables_def empty_tables_def)
  obtain db where db: "pg_set_task_result sample_database ?i (Inr [3]) sample_accepted_tables = (Inr (), db)"
    "stored_result db ?i = Some (new_task_result (Inr [3]) ?i)"
    using stored_result_keeps_its_kind[OF sample_accepted_tables_ok known, of "Inr [3]" sample_database] none
    by auto
  have ok: "tables_ok db" using keepsD[OF keeps_writes(8) sample_accepted_tables_ok db(1)] .
  have "find (\<lambda>x. tr_task_id x = ?i) (db_task_result db) \<noteq> None" using db(2) by (simp add: stored_result_def)
  then obtain r where "r \<in> set (db_task_result db)" "tr_task_id r = ?i" unfolding find_None_iff by blast
  then have "?i \<in> known_tasks db" using tables_okD(9)[OF ok] by metis
  with stored_result_keeps_its_kind[OF ok, of ?i "Inl ''late''" sample_database] db show ?thesis
    by (auto simp: sample_database_def text_ok_def)
qed

end
