(* ===== verification/Task_Completion.thy ===== *)
theory Task_Completion
  imports Task_Frames Postgres_Queries
begin

text \<open>
  A running task brought to its end through the server: the requests \<^verbatim>\<open>UpdateTask\<close> of its devices, mixed with
  whatever else the server does meanwhile, drive the cached task round by round, and the last one stores the result.
\<close>

section \<open>Tasks without a helper\<close>

text \<open>The group a key generation establishes carries the name, threshold and note of its task.\<close>

fun establishes :: "running_task \<Rightarrow> group \<Rightarrow> bool" where
  "establishes (Run_Group t) g =
     (grp_name g = ti_name (gt_task_info t) \<and> grp_threshold g = gt_threshold t \<and> grp_note g = gt_note t)"
| "establishes _ g = False"

text \<open>A step of such a task reads neither clock nor helper: it is a function of the task and the delivery.\<close>

definition step_ok :: "running_task \<Rightarrow> round_update res \<Rightarrow> running_task \<Rightarrow> bool" where
  "step_ok t r t' = (without_helper t' \<and> establishes t' = establishes t \<and>
     (\<forall>n f g. r = Inr (Round_Finished n f) \<longrightarrow> ft_result f = GroupEstablished g \<longrightarrow> establishes t g))"

definition direct_step :: "(running_task \<times> world, round_update) eff \<Rightarrow> running_task \<Rightarrow> bool" where
  "direct_step f t = (\<exists>r t'. (\<forall>w. f (t, w) = (r, t', w)) \<and> step_ok t r t')"

lemma direct_stepI: "(\<And>w. f (t, w) = (r, t', w)) \<Longrightarrow> step_ok t r t' \<Longrightarrow> direct_step f t"
  by (auto simp: direct_step_def)

lemma protocol_finalized_type:
  assumes "protocol_finalize E p c = (r, p', c')"
  shows "protocol_get_type p' = protocol_get_type p"
  using assms dyn.finalize_counts[of p E c] dyn.finalize_off[of p E c]
  by (cases "protocol_round p = protocol_last_round E p") auto

lemma protocol_advanced_type:
  assumes "protocol_advance E p c = (r, p', c')"
  shows "protocol_get_type p' = protocol_get_type p"
  using assms dyn.advance_counts[of p E c] dyn.advance_late[of p E c]
  by (cases "protocol_round p < protocol_last_round E p") auto

lemma group_next_direct:
  assumes "protocol_get_type (gt_protocol t) \<noteq> P_Gg18"
  shows "direct_step (running_next_round E) (Run_Group t)"
proof -
  obtain pi ci where i: "protocol_initialize E (gt_protocol t) (gt_communicator t) [] = (pi, ci)" by fastforce
  obtain ra pa ca where a: "protocol_advance E (gt_protocol t) (gt_communicator t) = (ra, pa, ca)" by (metis prod_cases3)
  obtain rf pf cf where f: "protocol_finalize E (gt_protocol t) (gt_communicator t) = (rf, pf, cf)" by (metis prod_cases3)
  have types: "protocol_get_type pi \<noteq> P_Gg18" "protocol_get_type pa \<noteq> P_Gg18" "protocol_get_type pf \<noteq> P_Gg18"
    using assms dyn.initialize_starts[OF i] protocol_advanced_type[OF a] protocol_finalized_type[OF f] by auto
  consider "\<not> gt_certificates_sent t" | "gt_certificates_sent t" "protocol_round (gt_protocol t) = 0"
    | "gt_certificates_sent t" "protocol_round (gt_protocol t) \<noteq> 0"
      "protocol_round (gt_protocol t) < protocol_last_round E (gt_protocol t)"
    | "gt_certificates_sent t" "protocol_round (gt_protocol t) \<noteq> 0"
      "\<not> protocol_round (gt_protocol t) < protocol_last_round E (gt_protocol t)" by blast
  then show ?thesis
  proof cases
    case 4
    then show ?thesis
      using f types(3)
      by (cases rf rule: sum.exhaust; cases "projr rf")
        (simp_all add: group_task_next_round_def group_task_finalize_task_def Let_def finished_task_new_def
          established_group_def direct_step_def step_ok_def fun_eq_iff)
  qed (use i a types in \<open>simp_all add: group_task_next_round_def send_certificates_def group_task_start_task_def
      group_task_advance_task_def direct_step_def step_ok_def fun_eq_iff assms split: sum.splits\<close>)
qed

lemma sign_next_direct: "direct_step (running_next_round E) (Run_Sign t)"
proof -
  obtain pi ci where i: "protocol_initialize E (st_protocol t) (st_communicator t) (data_to_sign t) = (pi, ci)" by fastforce
  obtain ra pa ca where a: "protocol_advance E (st_protocol t) (st_communicator t) = (ra, pa, ca)" by (metis prod_cases3)
  obtain rf pf cf where f: "protocol_finalize E (st_protocol t) (st_communicator t) = (rf, pf, cf)" by (metis prod_cases3)
  show ?thesis
    using i a f
    by (cases "protocol_round (st_protocol t) = 0"; cases "protocol_round (st_protocol t) < protocol_last_round E (st_protocol t)";
        cases rf rule: sum.exhaust; cases "projr rf")
      (simp_all add: sign_task_next_round_def sign_task_start_task_def sign_task_advance_task_def
        sign_task_finalize_task_def Let_def finished_task_new_def direct_step_def step_ok_def fun_eq_iff split: sum.splits)
qed

lemma decrypt_next_direct: "direct_step (running_next_round E) (Run_Decrypt t)"
proof -
  obtain pi ci where i: "protocol_initialize E (ct_protocol t) (ct_communicator t) (ct_data t) = (pi, ci)" by fastforce
  obtain ra pa ca where a: "protocol_advance E (ct_protocol t) (ct_communicator t) = (ra, pa, ca)" by (metis prod_cases3)
  obtain rf pf cf where f: "protocol_finalize E (ct_protocol t) (ct_communicator t) = (rf, pf, cf)" by (metis prod_cases3)
  show ?thesis
    using i a f
    by (cases "protocol_round (ct_protocol t) = 0"; cases "protocol_round (ct_protocol t) < protocol_last_round E (ct_protocol t)";
        cases rf rule: sum.exhaust; cases "projr rf")
      (simp_all add: decrypt_task_next_round_def decrypt_task_start_task_def decrypt_task_advance_task_def
        decrypt_task_finalize_task_def Let_def finished_task_new_def direct_step_def step_ok_def fun_eq_iff split: sum.splits)
qed

lemma next_direct: "without_helper t \<Longrightarrow> direct_step (running_next_round E) t"
  by (cases t) (simp_all add: group_next_direct sign_next_direct decrypt_next_direct)

lemma establishes_comm [simp]: "establishes (set_running_comm c t) = establishes t"
  by (cases t) (simp_all add: fun_eq_iff)

lemma update_direct:
  assumes "without_helper t"
  shows "direct_step (running_task_update E d ms) t"
proof -
  obtain r c where rc: "receive_messages (running_comm t) d ms = (r, c)" by fastforce
  have same: "step_ok t (Inl e) t" "step_ok t (Inl e) (set_running_comm c t)" "step_ok t (Inr Listen) (set_running_comm c t)" for e
    using assms any_task.set_comm(5)[of c t] by (simp_all add: step_ok_def)
  consider "\<not> waiting_for (running_comm t) d" | "waiting_for (running_comm t) d" "\<not> accepts_deliveries t"
    | e where "waiting_for (running_comm t) d" "accepts_deliveries t" "r = Inl e"
    | b where "waiting_for (running_comm t) d" "accepts_deliveries t" "r = Inr b" by (cases r) blast+
  then show ?thesis
  proof cases
    case 4
    note u = any_task.update_receives[OF 4(2,1) rc[unfolded 4(3)]]
    show ?thesis
    proof (cases "round_received c \<and> protocol_round (running_protocol t) \<le> protocol_last_round E (running_protocol t)")
      case True
      have "direct_step (running_next_round E) (set_running_comm c t)"
        using assms any_task.set_comm(5)[of c t] by (intro next_direct) simp
      then show ?thesis using True by (auto simp: direct_step_def step_ok_def u)
    qed (use u same(3) in \<open>auto intro!: direct_stepI\<close>)
  next
    case 1
    then show ?thesis using any_task.update_refused same(1) by (intro direct_stepI)
  next
    case 2
    then show ?thesis using any_task.update_unready same(1) by (intro direct_stepI)
  next
    case (3 e)
    then show ?thesis using any_task.update_panics[OF 3(2,1) rc[unfolded 3(3)]] same(2) by (intro direct_stepI)
  qed
qed

section \<open>Requests to the server\<close>

text \<open>What the server does one after another: a device delivers its messages to the task, or something else happens.\<close>

datatype ('r, 'tx) event = Delivered delivery | Meanwhile "('r, 'tx, unit) handler"

fun deliveries :: "('r, 'tx) event list \<Rightarrow> delivery list" where
  "deliveries [] = []"
| "deliveries (Delivered x # es) = x # deliveries es"
| "deliveries (Meanwhile h # es) = deliveries es"

fun serve_events :: "('r, 'tx) deps \<Rightarrow> uuid \<Rightarrow> u32 \<Rightarrow> ('r, 'tx) event list \<Rightarrow> ('r, 'tx, unit) handler" where
  "serve_events D task_id attempt [] s = (Inr (), s)"
| "serve_events D task_id attempt (Delivered x # es) s =
     eff_bind (update_task D task_id (fst x) (snd x) attempt) (\<lambda>_. serve_events D task_id attempt es) s"
| "serve_events D task_id attempt (Meanwhile h # es) s = serve_events D task_id attempt es (snd (h s))"

text \<open>Work that leaves the task in the cache and the database as far as the task needs it.\<close>

definition leaves_task :: "uuid \<Rightarrow> ('r \<Rightarrow> bool) \<Rightarrow> ('r, 'tx, 'a) handler \<Rightarrow> bool" where
  "leaves_task i P h = (\<forall>s t. cs_task_cache s i = Some t \<longrightarrow> P (cs_repo s) \<longrightarrow>
     cs_task_cache (snd (h s)) i = Some t \<and> P (cs_repo (snd (h s))))"

fun event_leaves :: "uuid \<Rightarrow> ('r \<Rightarrow> bool) \<Rightarrow> ('r, 'tx) event \<Rightarrow> bool" where
  "event_leaves i P (Delivered x) = True"
| "event_leaves i P (Meanwhile h) = leaves_task i P h"

lemma serve_events_append:
  "serve_events D i a (es @ fs) = eff_bind (serve_events D i a es) (\<lambda>_. serve_events D i a fs)"
  by (rule ext, induction D i a es _ rule: serve_events.induct)
    (auto simp: eff_bind_def split: prod.splits sum.splits)

text \<open>
  The record of a task: what a database has to promise so that the task can be brought to its end. It is open as long as the task
  has no result and the groups with certain identifiers do not exist.
\<close>

locale task_record =
  fixes R :: "'r repository" and i :: uuid
    and is_open :: "bytes set \<Rightarrow> 'r \<Rightarrow> bool"
    and storable :: "group \<Rightarrow> bool"
    and has_group :: "group \<Rightarrow> 'r \<Rightarrow> bool"
    and recorded :: "bytes \<Rightarrow> 'r \<Rightarrow> bool"
  assumes open_reads: "is_open ids r \<Longrightarrow> repo_get_task_models R [] r = (Inr [], r)"
      "is_open ids r \<Longrightarrow> repo_get_tasks_participants R [] r = (Inr [], r)"
    and open_less: "is_open ids r \<Longrightarrow> is_open {} r"
    and open_round: "is_open ids r \<Longrightarrow> \<exists>n' r'. repo_set_task_round R i n r = (Inr n', r') \<and> is_open ids r'"
    and open_group: "is_open ids r \<Longrightarrow> storable g \<Longrightarrow> grp_id g \<in> ids \<Longrightarrow>
      \<exists>g' r'. repo_add_group R (grp_id g) i (grp_name g) (grp_threshold g) (grp_protocol g) (grp_key_type g)
        (grp_certificate g) (grp_note g) r = (Inr g', r') \<and> is_open {} r' \<and> has_group g r'"
    and open_result: "is_open {} r \<Longrightarrow> \<exists>r'. repo_set_task_result R i (Inr m) r = (Inr (), r') \<and> recorded m r' \<and>
      (\<forall>g. has_group g r \<longrightarrow> has_group g r')"
begin

lemma cached_read:
  assumes "cs_task_cache s i = Some t" "is_open ids (cs_repo s)"
  shows "get_task E R i s = (Inr t, s)"
  using assms open_reads[OF assms(2)]
  by (simp add: get_task_def ensure_cached_tasks_def hydrate_tasks_def eff_bind_def eff_defs call_repo_def)

lemma called:
  "f (cs_repo s) = (Inr x, r') \<Longrightarrow> eff_bind (call_repo f) k s = k x (s\<lparr>cs_repo := r'\<rparr>)"
  by (simp add: eff_bind_def call_repo_def)

lemma sent: "\<exists>subs. send_updates D t s = (Inr (), s\<lparr>ss_subscribers := subs\<rparr>)"
  by (simp add: send_updates_def eff_defs split: prod.splits) blast

text \<open>The part of \<^verbatim>\<open>update_task\<close> before the report of the running task is looked at.\<close>

lemma update_task_runs:
  assumes "dp_repo D = R" "cs_task_cache s i = Some (Running_Task rt)" "is_open ids (cs_repo s)"
    and "ti_attempts (running_task_info rt) = a" "\<And>w. running_task_update (dp_env D) d ms (rt, w) = (Inr u, rt', w)"
  shows "\<exists>s'. update_task D i d ms a s = apply_round_update D i u s' \<and>
    cs_task_cache s' i = Some (Running_Task rt') \<and> cs_repo s' = cs_repo s"
proof -
  have "\<exists>s1. set_task_last_update D i s = (Inr (), s1) \<and> cs_repo s1 = cs_repo s"
    by (simp add: set_task_last_update_def get_timestamp_def env_call_def next_call_def eff_bind_def eff_defs)
  then obtain s1 where l: "set_task_last_update D i s = (Inr (), s1)" "cs_repo s1 = cs_repo s" by blast
  show ?thesis
    using assms l cached_read[OF assms(2,3)]
    by (intro exI[of _ "s1\<lparr>cs_task_cache := (cs_task_cache s1)(i \<mapsto> Running_Task rt'), ss_world := ss_world s1\<rparr>"])
      (simp add: update_task_def eff_bind_def run_cached_def)
qed

lemma update_task_goes_on:
  assumes "dp_repo D = R" "cs_task_cache s i = Some (Running_Task rt)" "is_open ids (cs_repo s)"
    and "ti_attempts (running_task_info rt) = a" "\<And>w. running_task_update (dp_env D) d ms (rt, w) = (Inr u, rt', w)"
    and "u = Listen \<or> (\<exists>n. u = NextRound n)"
  shows "\<exists>s'. update_task D i d ms a s = (Inr (), s') \<and> cs_task_cache s' i = Some (Running_Task rt') \<and> is_open ids (cs_repo s')"
proof -
  obtain s1 where s1: "update_task D i d ms a s = apply_round_update D i u s1"
    "cs_task_cache s1 i = Some (Running_Task rt')" "is_open ids (cs_repo s1)"
    using update_task_runs[OF assms(1-5)] assms(3) by auto
  show ?thesis
  proof (cases "u = Listen")
    case False
    then obtain n where n: "u = NextRound n" using assms(6) by blast
    obtain n' r' where r: "repo_set_task_round R i n (cs_repo s1) = (Inr n', r')" "is_open ids r'"
      using open_round[OF s1(3)] by blast
    have "apply_round_update D i u s1 = send_cached D i (s1\<lparr>cs_repo := r'\<rparr>)"
      using r(1) assms(1) by (simp add: apply_round_update_def n called)
    then have "apply_round_update D i u s1 = send_updates D (Running_Task rt') (s1\<lparr>cs_repo := r'\<rparr>)"
      using s1(2) by (simp add: send_cached_def eff_bind_def eff_defs)
    with sent[of D "Running_Task rt'" "s1\<lparr>cs_repo := r'\<rparr>"] s1 r(2) show ?thesis by auto
  qed (use s1 in \<open>simp add: apply_round_update_def eff_defs\<close>)
qed

lemma update_task_finishes:
  fixes D :: "('r, 'tx) deps"
  assumes "dp_repo D = R" "cs_task_cache s i = Some (Running_Task rt)" "is_open ids (cs_repo s)"
    and "ti_attempts (running_task_info rt) = a"
    and "\<And>w. running_task_update (dp_env D) d ms (rt, w) = (Inr (Round_Finished n f), rt', w)"
    and "\<And>g. ft_result f = GroupEstablished g \<Longrightarrow> storable g \<and> grp_id g \<in> ids"
  shows "\<exists>s'. update_task D i d ms a s = (Inr (), s') \<and> cs_task_cache s' i = Some (Finished_Task f) \<and>
    recorded (as_bytes (ft_result f)) (cs_repo s') \<and> (\<forall>g. ft_result f = GroupEstablished g \<longrightarrow> has_group g (cs_repo s'))"
proof -
  obtain s1 where s1: "update_task D i d ms a s = finish_task D i n f s1" "is_open ids (cs_repo s1)"
    using update_task_runs[OF assms(1-5)] assms(3) by (auto simp: apply_round_update_def)
  obtain n' r1 where r1: "repo_set_task_round R i n (cs_repo s1) = (Inr n', r1)" "is_open ids r1"
    using open_round[OF s1(2)] by blast
  define add :: "('r, 'tx, unit) handler" where "add = (case ft_result f of
      GroupEstablished grp \<Rightarrow> eff_bind (call_repo (repo_add_group (dp_repo D) (grp_id grp) i (grp_name grp)
        (grp_threshold grp) (grp_protocol grp) (grp_key_type grp) (grp_certificate grp) (grp_note grp)))
        (\<lambda>_. eff_return ())
    | _ \<Rightarrow> eff_return ())"
  have "\<exists>r2. add (s1\<lparr>cs_repo := r1\<rparr>) = (Inr (), s1\<lparr>cs_repo := r2\<rparr>) \<and> is_open {} r2 \<and>
      (\<forall>g. ft_result f = GroupEstablished g \<longrightarrow> has_group g r2)"
  proof (cases "ft_result f")
    case (GroupEstablished g)
    obtain g' r2 where "repo_add_group R (grp_id g) i (grp_name g) (grp_threshold g) (grp_protocol g) (grp_key_type g)
        (grp_certificate g) (grp_note g) r1 = (Inr g', r2)" "is_open {} r2" "has_group g r2"
      using open_group[OF r1(2)] assms(6)[OF GroupEstablished] by blast
    with GroupEstablished show ?thesis
      by (intro exI[of _ r2]) (simp add: add_def assms(1) eff_bind_def call_repo_def eff_defs)
  qed (use open_less[OF r1(2)] in \<open>auto simp: add_def eff_defs\<close>)
  then obtain r2 where r2: "add (s1\<lparr>cs_repo := r1\<rparr>) = (Inr (), s1\<lparr>cs_repo := r2\<rparr>)" "is_open {} r2"
    "\<forall>g. ft_result f = GroupEstablished g \<longrightarrow> has_group g r2" by blast
  obtain r3 where r3: "repo_set_task_result R i (Inr (as_bytes (ft_result f))) r2 = (Inr (), r3)"
    "recorded (as_bytes (ft_result f)) r3" "\<forall>g. has_group g r2 \<longrightarrow> has_group g r3"
    using open_result[OF r2(2)] by blast
  let ?s = "s1\<lparr>cs_repo := r3, cs_task_cache := (cs_task_cache s1)(i \<mapsto> Finished_Task f)\<rparr>"
  have "finish_task D i n f s1 = send_updates D (Finished_Task f) ?s"
    unfolding finish_task_def add_def[symmetric]
    using r1(1) r2(1) r3(1) assms(1) by (simp add: called put_task_def eff_bind_def eff_defs call_repo_def)
  with sent[of D "Finished_Task f" ?s] s1(1) r2(3) r3(2,3) show ?thesis by auto
qed

text \<open>The deliveries up to the last one, whatever happens between them.\<close>

lemma events_go_on:
  assumes "dp_repo D = R" "cs_task_cache s i = Some (Running_Task rt)" "is_open ids (cs_repo s)"
    and "ti_attempts (running_task_info rt) = a" "without_helper rt"
    and "list_all (event_leaves i (is_open ids)) es"
    and "run_updates (running_task_update (dp_env D)) (deliveries es) (rt, w) = (Inr us, rt', w')"
    and "\<forall>u \<in> set us. u = Listen \<or> (\<exists>n. u = NextRound n)"
  shows "\<exists>s'. serve_events D i a es s = (Inr (), s') \<and> cs_task_cache s' i = Some (Running_Task rt') \<and>
    is_open ids (cs_repo s') \<and> running_task_info rt' = running_task_info rt \<and> without_helper rt' \<and>
    establishes rt' = establishes rt"
  using assms(2-)
proof (induction es arbitrary: s rt us w)
  case (Cons e es)
  show ?case
  proof (cases e)
    case (Meanwhile h)
    then have "cs_task_cache (snd (h s)) i = Some (Running_Task rt)" "is_open ids (cs_repo (snd (h s)))"
      using Cons.prems by (auto simp: leaves_task_def)
    from Cons.IH[OF this] Cons.prems Meanwhile show ?thesis by auto
  next
    case (Delivered x)
    obtain r rt1 where u: "\<And>w. running_task_update (dp_env D) (fst x) (snd x) (rt, w) = (r, rt1, w)" "step_ok rt r rt1"
      using update_direct[OF Cons.prems(4), of "dp_env D" "fst x" "snd x"] by (auto simp: direct_step_def)
    obtain v vs where r: "r = Inr v" "us = v # vs"
      and run: "run_updates (running_task_update (dp_env D)) (deliveries es) (rt1, w) = (Inr vs, rt', w')"
      using Cons.prems(6) Delivered u(1)[of w] by (cases x) (auto split: prod.splits sum.splits)
    have info: "running_task_info rt1 = running_task_info rt"
      using any_task.update_keeps[OF u(1)] by blast
    obtain s1 where s1: "update_task D i (fst x) (snd x) a s = (Inr (), s1)"
      "cs_task_cache s1 i = Some (Running_Task rt1)" "is_open ids (cs_repo s1)"
      using update_task_goes_on[OF assms(1) Cons.prems(1-3), of "fst x" "snd x" v rt1] u(1) r Cons.prems(7) by auto
    have "without_helper rt1" "establishes rt1 = establishes rt" using u(2) by (simp_all add: step_ok_def)
    with Cons.IH[OF s1(2,3) _ _ _ run] Cons.prems info r s1(1) Delivered show ?thesis
      by (auto simp: eff_bind_def)
  qed
qed simp

lemma run_updates_snoc:
  assumes "run_updates up (ds @ [x]) t = (Inr (us @ [u]), t')"
  shows "\<exists>t1. run_updates up ds t = (Inr us, t1) \<and> up (fst x) (snd x) t1 = (Inr u, t')"
  using assms by (cases x) (auto simp: run_updates_append split: prod.splits sum.splits)

lemma events_finish:
  assumes "dp_repo D = R" "cs_task_cache s i = Some (Running_Task rt)" "is_open ids (cs_repo s)"
    and "ti_attempts (running_task_info rt) = a" "without_helper rt"
    and "list_all (event_leaves i (is_open ids)) es"
    and "run_updates (running_task_update (dp_env D)) (deliveries es @ [x]) (rt, w) = (Inr (us @ [Round_Finished n f]), t')"
    and "\<forall>u \<in> set us. u = Listen \<or> (\<exists>n. u = NextRound n)"
    and "\<And>g. establishes rt g \<Longrightarrow> grp_id g = as_bytes (ft_result f) \<Longrightarrow> storable g \<and> grp_id g \<in> ids"
  shows "\<exists>s'. serve_events D i a (es @ [Delivered x]) s = (Inr (), s') \<and> cs_task_cache s' i = Some (Finished_Task f) \<and>
    recorded (as_bytes (ft_result f)) (cs_repo s') \<and> (\<forall>g. ft_result f = GroupEstablished g \<longrightarrow> has_group g (cs_repo s'))"
proof -
  obtain rt1 w1 where r: "run_updates (running_task_update (dp_env D)) (deliveries es) (rt, w) = (Inr us, rt1, w1)"
    "running_task_update (dp_env D) (fst x) (snd x) (rt1, w1) = (Inr (Round_Finished n f), t')"
    using run_updates_snoc[OF assms(7)] by auto
  obtain s1 where s1: "serve_events D i a es s = (Inr (), s1)" "cs_task_cache s1 i = Some (Running_Task rt1)"
    "is_open ids (cs_repo s1)" "running_task_info rt1 = running_task_info rt" "without_helper rt1" "establishes rt1 = establishes rt"
    using events_go_on[OF assms(1-6) r(1) assms(8)] by blast
  obtain rt2 where u: "\<And>w. running_task_update (dp_env D) (fst x) (snd x) (rt1, w) = (Inr (Round_Finished n f), rt2, w)"
    "step_ok rt1 (Inr (Round_Finished n f)) rt2"
    using update_direct[OF s1(5), of "dp_env D" "fst x" "snd x"] r(2) by (auto simp: direct_step_def)
  have "storable g \<and> grp_id g \<in> ids" if "ft_result f = GroupEstablished g" for g
    using u(2) that s1(6) assms(9)[of g] by (auto simp: step_ok_def)
  from update_task_finishes[OF assms(1) s1(2,3) _ u(1) this] s1(1,4) assms(4) show ?thesis
    by (auto simp: serve_events_append eff_bind_def)
qed

end

section \<open>The database keeps the record\<close>

definition task_open :: "uuid \<Rightarrow> bytes set \<Rightarrow> tables \<Rightarrow> bool" where
  "task_open i ids db =
     (tables_ok db \<and> i \<in> known_tasks db \<and> stored_result db i = None \<and> ids \<inter> known_groups db = {})"

definition group_storable :: "group \<Rightarrow> bool" where
  "group_storable g =
     (grp_id g \<noteq> [] \<and> 0 < unat (grp_threshold g) \<and> unat (grp_threshold g) < 2 ^ 31 \<and> text_ok (grp_name g) \<and>
      (\<forall>note \<in> set_option (grp_note g). text_ok note))"

text \<open>The group is in the database, with the participants the task has there.\<close>

definition group_recorded :: "group \<Rightarrow> tables \<Rightarrow> bool" where
  "group_recorded g db =
     (\<exists>g'. stored_group db (grp_id g) = Some g' \<and> group_row.truncate g' = group_row.truncate g)"

definition result_recorded :: "uuid \<Rightarrow> bytes \<Rightarrow> tables \<Rightarrow> bool" where
  "result_recorded i m db = (tables_ok db \<and> stored_result db i = Some (new_task_result (Inr m) i))"

lemma sint_small:
  fixes n :: "32 word"
  assumes "unat n < 2 ^ 31"
  shows "sint n = uint n"
proof -
  have "int (unat n) < int (2 ^ 31)" using assms by (simp only: of_nat_less_iff)
  then have "uint n < 2 ^ 31" by simp
  moreover have "- (2 ^ 31) \<le> uint n" by (rule order_trans[OF _ uint_ge_0]) simp
  ultimately show ?thesis
    unfolding sint_uint by (simp add: signed_take_bit_int_eq_self)
qed

lemma round_column: "0 \<le> sint (ucast (n :: 16 word) :: 32 word)"
proof -
  have "unat n < 2 ^ 16" using unsigned_less[of n] by simp
  then have "unat (ucast n :: 32 word) < 2 ^ 31" by (simp add: unsigned_ucast_eq take_bit_nat_eq_self)
  then show ?thesis using sint_small uint_ge_0 by metis
qed

lemma round_written:
  assumes "task_open i ids db"
  shows "\<exists>n' db'. pg_set_task_round P i n db = (Inr n', db') \<and> task_open i ids db'"
proof -
  let ?f = "\<lambda>r. r\<lparr>tm_protocol_round := ucast n\<rparr>"
  have ok: "tables_ok db" and known: "i \<in> known_tasks db" using assms by (simp_all add: task_open_def)
  have "task_check (?f r)" if "r \<in> set (db_task db)" for r
    using ok that round_column by (auto simp: tables_ok_def task_check_def)
  then have u: "update_tasks P i ?f db = (Inr (map ?f (filter (\<lambda>r. tm_id r = i) (db_task db))),
      db\<lparr>db_task := map (\<lambda>r. if tm_id r = i then ?f r else r) (db_task db)\<rparr>)"
    by (auto simp: update_tasks_def checked_def Let_def list_all_iff)
  let ?db = "db\<lparr>db_task := map (\<lambda>r. if tm_id r = i then ?f r else r) (db_task db)\<rparr>"
  have keys: "tm_id ` set (map (\<lambda>r. if tm_id r = i then ?f r else r) (db_task db)) = known_tasks db"
    by (rule image_update_keys) simp
  have "tables_ok ?db" using keepsD[OF keeps_update_tasks ok u] by simp
  then have "task_open i ids ?db" using assms keys by (simp add: task_open_def stored_result_def)
  moreover obtain r rs where "filter (\<lambda>r. tm_id r = i) (db_task db) = r # rs"
    using known by (cases "filter (\<lambda>r. tm_id r = i) (db_task db)") (auto simp: filter_empty_conv)
  ultimately show ?thesis using u by (simp add: pg_set_task_round_def sql_defs get_result_def)
qed

lemma group_added:
  assumes "task_open i ids db" "group_storable g" "grp_id g \<in> ids"
  shows "\<exists>g' db'. pg_add_group P (grp_id g) i (grp_name g) (grp_threshold g) (grp_protocol g) (grp_key_type g)
      (grp_certificate g) (grp_note g) db = (Inr g', db') \<and> task_open i {} db' \<and> group_recorded g db'"
proof -
  let ?row = "group_row.truncate g"
  let ?rows = "map (\<lambda>(d, n). \<lparr>gp_group_id = grp_id g, gp_device_id = d, gp_shares = n\<rparr>) (task_devices i db)"
  let ?db = "db\<lparr>db_group := db_group db @ [?row]\<rparr>"
  let ?db' = "?db\<lparr>db_group_participant := db_group_participant db @ ?rows\<rparr>"
  have ok: "tables_ok db" and new: "grp_id g \<notin> known_groups db" using assms by (auto simp: task_open_def)
  have "0 < sint (grp_threshold g)"
    using assms(2) sint_small[of "grp_threshold g"] of_nat_0_less_iff[where 'a = int, of "unat (grp_threshold g)"]
    by (simp add: group_storable_def)
  then have ins: "insert_group P ?row db = (Inr 1, ?db)"
    using assms(2) new by (simp add: insert_group_def checked_def group_storable_def group_check_def group_row.truncate_def)
  have devs: "task_devices i (db\<lparr>db_group := rows\<rparr>) = task_devices i db" for rows by (simp add: task_devices_def)
  have from_task: "0 < sint n \<and> d \<in> known_devices db" if "(d, n) \<in> set (task_devices i db)" for d n
    using that ok by (auto simp: task_devices_def tables_ok_def)
  have "distinct (map fst (task_devices i db))"
    using distinct_task_parts[OF ok, of i] by (simp add: task_devices_parts[OF ok] comp_def)
  then have "distinct (map gp_key ?rows)"
    by (simp add: distinct_map inj_on_def case_prod_beta)
  moreover have "gp_group_id r \<noteq> grp_id g" if "r \<in> set (db_group_participant db)" for r
  proof -
    have "gp_group_id r \<in> known_groups db" using ok that by (simp add: tables_ok_def)
    with new show ?thesis by metis
  qed
  ultimately have "distinct (map gp_key (db_group_participant db @ ?rows))"
    using ok by (auto simp: tables_ok_def)
  with from_task have parts: "insert_group_participants P ?rows ?db = (Inr (length ?rows), ?db')"
    by (auto simp: insert_group_participants_def checked_def list_all_iff group_row.truncate_def)
  have "stored_group ?db' (grp_id g) \<noteq> None"
    by (auto simp: stored_group_def group_row.truncate_def find_append split: option.splits)
  then obtain g' where g': "stored_group ?db' (grp_id g) = Some g'" by blast
  have add: "pg_add_group P (grp_id g) i (grp_name g) (grp_threshold g) (grp_protocol g) (grp_key_type g)
      (grp_certificate g) (grp_note g) db = (Inr g', ?db')"
    using assms(2) ins parts g' by (simp add: pg_add_group_def sql_defs try_into_i32_def group_storable_def devs
        group_row.truncate_def pg_read_group[unfolded sql_defs])
  note a = added_group[OF ok add]
  have "group_recorded g ?db'" using a(6) g' by (simp add: group_recorded_def group_row.truncate_def)
  moreover have "task_open i {} ?db'" using assms(1) a(1) by (simp add: task_open_def stored_result_def)
  ultimately show ?thesis using add by blast
qed

lemma result_written:
  assumes "task_open i {} db"
  shows "\<exists>db'. pg_set_task_result P i (Inr m) db = (Inr (), db') \<and> result_recorded i m db' \<and>
    (\<forall>g. group_recorded g db \<longrightarrow> group_recorded g db')"
proof -
  have ok: "tables_ok db" "i \<in> known_tasks db" "stored_result db i = None" using assms by (simp_all add: task_open_def)
  obtain db' where r: "pg_set_task_result P i (Inr m) db = (Inr (), db')"
    "stored_result db' = (stored_result db)(i \<mapsto> new_task_result (Inr m) i)"
    using set_result_stored[OF ok(1,2), of "Inr m" P] ok(3) by auto
  have "db_group db' = db_group db" "db_group_participant db' = db_group_participant db"
    using r(1) by (auto simp: pg_set_task_result_def upsert_task_result_def Let_def dest!: checked_Inr)
  then have "stored_group db' = stored_group db" by (simp add: stored_group_def fun_eq_iff)
  with r keepsD[OF keeps_writes(8) ok(1) r(1)] show ?thesis
    by (auto simp: result_recorded_def group_recorded_def)
qed

interpretation pg_record: task_record "postgres P" i "task_open i" group_storable group_recorded "result_recorded i" for P i
proof unfold_locales
  show "task_open i ids r \<Longrightarrow> task_open i {} r" for ids r by (simp add: task_open_def)
qed (simp_all add: pg_read_nothing round_written group_added result_written)

text \<open>Work that changes neither the cached task nor the database.\<close>

lemma leaves_task_same:
  assumes "\<And>s. cs_task_cache (snd (h s)) i = cs_task_cache s i \<and> cs_repo (snd (h s)) = cs_repo s"
  shows "leaves_task i Q h"
  using assms by (simp add: leaves_task_def)

lemma leaves_task_devices:
  "leaves_task i Q (activate_device D d)" "leaves_task i Q (add_subscriber d tx)" "leaves_task i Q (remove_subscriber d)"
  "leaves_task i Q (send_updates D task)"
  by (rule leaves_task_same, simp add: activate_device_def add_subscriber_def remove_subscriber_def send_updates_def
      get_timestamp_def env_call_def next_call_def eff_bind_def eff_defs split: prod.splits)+

section \<open>Properties\<close>

text \<open>What the result of a task needs to be stored, and the identifier of the group it may establish.\<close>

fun result_storable :: "running_task \<Rightarrow> bytes \<Rightarrow> bool" where
  "result_storable (Run_Group t) m =
     (m \<noteq> [] \<and> 0 < unat (gt_threshold t) \<and> unat (gt_threshold t) < 2 ^ 31 \<and> text_ok (ti_name (gt_task_info t)) \<and>
      (\<forall>note \<in> set_option (gt_note t). text_ok note))"
| "result_storable _ m = True"

fun claimed_groups :: "running_task \<Rightarrow> bytes \<Rightarrow> bytes set" where
  "claimed_groups (Run_Group t) m = {m}"
| "claimed_groups _ m = {}"

lemma established_storable:
  "establishes rt g \<Longrightarrow> result_storable rt m \<Longrightarrow> grp_id g = m \<Longrightarrow> group_storable g \<and> grp_id g \<in> claimed_groups rt m"
  by (cases rt) (auto simp: group_storable_def)

lemma rounds_then_listen:
  assumes "filter (\<lambda>u. u \<noteq> Listen) us = map (\<lambda>k. NextRound (word_of_nat k)) ks"
  shows "\<forall>u \<in> set us. u = Listen \<or> (\<exists>n. u = NextRound n)"
proof
  fix u assume "u \<in> set us"
  then have "u = Listen \<or> u \<in> set (filter (\<lambda>u. u \<noteq> Listen) us)" by simp
  then show "u = Listen \<or> (\<exists>n. u = NextRound n)" unfolding assms by auto
qed

text \<open>C5. The server brings a running task to its end. A task that is running in the cache at the start of a round, other than a
  PDF signing or a GG18 key generation, and has no result in the database yet, receives complete rounds of well-formed
  deliveries as updates of its current attempt, in any order of the devices within a round and with any
  other work of the server in between that leaves the task and its record alone. Then every one of these updates is accepted, the
  task ends up finished in the cache with the value all final broadcasts verify to, and the database
  holds this value as the result of the task; when the task generates a key, the group is in the
  database too, with the name, threshold, protocol and note of the task.\<close>

theorem updates_bring_the_task_to_its_end:
  fixes D :: "(tables, 'tx) deps"
  assumes "dp_repo D = postgres P" "cs_task_cache s i = Some (Running_Task rt)"
    and "task_open i (claimed_groups rt m) (cs_repo s)" "result_storable rt m"
    and "accepts_deliveries rt" "without_helper rt" "comm_inv (running_comm rt)" "comm_input (running_comm rt) = []"
    and "0 < protocol_last_round (dp_env D) (running_protocol rt)"
    and "unat (protocol_round (running_protocol rt)) + length rounds = unat (protocol_last_round (dp_env D) (running_protocol rt))"
    and "list_all (round_ok (running_comm rt)) rounds" "round_ok (running_comm rt) final" "agrees (dp_env D) (running_comm rt) final m"
    and "deliveries es @ [x] = concat rounds @ final"
    and "list_all (event_leaves i (task_open i (claimed_groups rt m))) es"
  shows "\<exists>f s'. serve_events D i (ti_attempts (running_task_info rt)) (es @ [Delivered x]) s = (Inr (), s') \<and>
    cs_task_cache s' i = Some (Finished_Task f) \<and> ft_task_info f = running_task_info rt \<and> as_bytes (ft_result f) = m \<and>
    result_recorded i m (cs_repo s') \<and> (\<forall>g. ft_result f = GroupEstablished g \<longrightarrow> group_recorded g (cs_repo s'))"
proof -
  obtain us f t' n ks where run: "run_updates (running_task_update (dp_env D)) (deliveries es @ [x]) (rt, ss_world s) =
      (Inr (us @ [Round_Finished n f]), t')" "filter (\<lambda>u. u \<noteq> Listen) us = map (\<lambda>k. NextRound (word_of_nat k)) ks"
    "as_bytes (ft_result f) = m" "ft_task_info f = running_task_info rt"
    using any_task.whole_run[OF assms(5-13), of "ss_world s"] unfolding assms(14) by blast
  have "group_storable g \<and> grp_id g \<in> claimed_groups rt m" if "establishes rt g" "grp_id g = as_bytes (ft_result f)" for g
    using established_storable[OF that(1) assms(4)] that(2) run(3) by simp
  from pg_record.events_finish[OF assms(1-3) refl assms(6,15) run(1) rounds_then_listen[OF run(2)] this] run(3,4)
  show ?thesis by auto
qed

text \<open>A signing task in its first round, and a server on a database that has the task.\<close>

definition sample_started :: running_task where
  "sample_started = Run_Sign \<lparr>st_task_info = sample_task_info, st_group = sample_group,
     st_communicator = running_comm sample_running, st_data = [1], st_preprocessed = None,
     st_protocol = GG18_Sign \<lparr>gg18_sign_round = 1\<rparr>\<rparr>"

definition sample_running_server :: "(tables, sample_tx) server_state" where
  "sample_running_server = (sample_pg_server sample_accepted_tables)
     \<lparr>cs_task_cache := [replicate 16 1 \<mapsto> Running_Task sample_started]\<rparr>"

definition sample_events :: "(tables, sample_tx) event list" where
  "sample_events = map Delivered (sample_round 1 2) @ [Meanwhile (activate_device sample_pg_deps [6])] @
     map Delivered (sample_round 3 4) @ [Delivered ([7], [sample_message 9]), Meanwhile (remove_subscriber [6])]"

lemma sample_task_open: "task_open (replicate 16 1) {} sample_accepted_tables"
  using sample_accepted_tables_ok
  by (simp add: task_open_def stored_result_def sample_accepted_tables_def sample_tables_def empty_tables_def sample_task_row_def)

theorem updates_bring_the_task_to_its_end_witness:
  "\<exists>f s'. serve_events sample_pg_deps (replicate 16 1) 0 (sample_events @ [Delivered ([5], [sample_message 9])])
       sample_running_server = (Inr (), s') \<and>
     cs_task_cache s' (replicate 16 1) = Some (Finished_Task f) \<and> as_bytes (ft_result f) = [9] \<and>
     result_recorded (replicate 16 1) [9] (cs_repo s')"
proof -
  have c: "running_comm sample_started = running_comm sample_running" by (simp add: sample_started_def)
  have "claimed_groups sample_started [9] = {}" "result_storable sample_started [9]" "accepts_deliveries sample_started"
    "without_helper sample_started" "ti_attempts (running_task_info sample_started) = 0"
    "protocol_last_round sample_env (running_protocol sample_started) = 3" "unat (protocol_round (running_protocol sample_started)) = 1"
    by (simp_all add: sample_started_def sample_task_info_def gg18_sign_last_round_def sample_env_def)
  moreover have "comm_input (running_comm sample_running) = []" by (simp add: sample_running_def)
  moreover have "deliveries sample_events @ [([5], [sample_message 9])] = concat [sample_round 1 2, sample_round 3 4] @ sample_round 9 9"
    by (simp add: sample_events_def sample_round_def)
  moreover have "list_all (event_leaves (replicate 16 1) (task_open (replicate 16 1) {})) sample_events"
    by (simp add: sample_events_def sample_round_def leaves_task_devices)
  ultimately show ?thesis
    using sample_task_open updates_bring_the_task_to_its_end[of sample_pg_deps sample_database sample_running_server "replicate 16 1" sample_started "[9]"
        "[sample_round 1 2, sample_round 3 4]" "sample_round 9 9" sample_events "([5], [sample_message 9])"]
      sample_round_ok sample_round_agrees sample_running_inv c
    by (auto simp: sample_pg_deps_def sample_running_server_def sample_pg_server_def)
qed

end
