(* ===== verification/Task_Isolation.thy ===== *)
theory Task_Isolation
  imports Service Stale_Tasks Task_Completion
begin

text \<open>
  Requests about one task do not disturb another: what is in the cache and in the database for a task that has no result yet
  is changed by no request that does not name the task.
\<close>

section \<open>The record of a task\<close>

text \<open>A statement that removes no task and leaves the result of one task as it is.\<close>

definition record_frame :: "uuid \<Rightarrow> (tables, 'a) sql \<Rightarrow> bool" where
  "record_frame i m = (\<forall>db. known_tasks db \<subseteq> known_tasks (snd (m db)) \<and> stored_result (snd (m db)) i = stored_result db i)"

named_theorems record_intros \<open>statements and handlers that leave the record of a task alone\<close>

lemma record_frameD: "record_frame i m \<Longrightarrow> m db = (r, db') \<Longrightarrow> known_tasks db \<subseteq> known_tasks db' \<and> stored_result db' i = stored_result db i"
  by (metis record_frame_def snd_conv)

lemma record_pure [record_intros]:
  "record_frame i (sql_return x)" "record_frame i (sql_fail e)" "record_frame i (sql_query f)" "record_frame i (refuse P v)"
  by (simp_all add: record_frame_def sql_defs refuse_def)

lemma record_bind [record_intros]:
  assumes "record_frame i m" "\<And>x. record_frame i (f x)"
  shows "record_frame i (sql_bind m f)"
  unfolding record_frame_def
proof
  fix db
  obtain r db1 where m: "m db = (r, db1)" by fastforce
  note d = record_frameD[OF assms(1) m]
  show "known_tasks db \<subseteq> known_tasks (snd (sql_bind m f db)) \<and> stored_result (snd (sql_bind m f db)) i = stored_result db i"
  proof (cases r)
    case (Inr x)
    obtain r2 db2 where f: "f x db1 = (r2, db2)" by fastforce
    from d record_frameD[OF assms(2) f] m Inr f show ?thesis by (auto simp: sql_bind_def)
  qed (use m d in \<open>simp add: sql_bind_def\<close>)
qed

lemma record_transaction [record_intros]: "record_frame i m \<Longrightarrow> record_frame i (sql_transaction m)"
  by (auto simp: record_frame_def sql_transaction_def split: prod.splits sum.splits) (metis snd_conv subsetD imageI)+

lemma record_checked [record_intros]: "record_frame i m \<Longrightarrow> record_frame i (checked P cs m)"
  by (simp add: record_frame_def checked_def refuse_def sql_fail_def split: option.splits)

lemma record_inserts [record_intros]:
  "record_frame i (insert_device P dev)" "record_frame i (insert_group P g)" "record_frame i (insert_group_participants P gps)"
  "record_frame i (generate_id P oi)" "record_frame i (insert_task P r)" "record_frame i (insert_task_participants P tps)"
  "record_frame i (insert_active_task_participants P aps)" "record_frame i (update_task_participants j d f)"
  unfolding insert_device_def insert_group_def insert_group_participants_def insert_task_def
    insert_task_participants_def insert_active_task_participants_def
  by ((rule record_checked)?; auto simp: record_frame_def generate_id_def update_task_participants_def stored_result_def split: option.splits)+

lemma record_update_tasks:
  assumes "\<And>r. tm_id (f r) = tm_id r"
  shows "record_frame i (update_tasks P j f)"
proof -
  have "tm_id ` set (map (\<lambda>r. if tm_id r = j then f r else r) rows) = tm_id ` set rows" for rows
    by (rule image_update_keys) (simp add: assms)
  then show ?thesis
    by (simp add: record_frame_def update_tasks_def Let_def checked_def refuse_def sql_fail_def stored_result_def del: set_map split: option.splits)
qed

lemma record_upsert [record_intros]:
  assumes "tr_task_id r \<noteq> i"
  shows "record_frame i (upsert_task_result P r)"
proof -
  let ?f = "\<lambda>old. if tr_task_id old = tr_task_id r then changed_result r old else old"
  have "find (\<lambda>x. tr_task_id x = i) (map ?f rows) = find (\<lambda>x. tr_task_id x = i) rows" for rows
    using assms by (induction rows) auto
  then show ?thesis
    using assms by (simp add: record_frame_def upsert_task_result_def Let_def checked_def refuse_def sql_fail_def stored_result_def
        find_append split: option.splits)
qed

lemma record_ops [record_intros]:
  "record_frame i (get_result P rows)" "record_frame i (try_into_i32 n)" "record_frame i (pg_get_task j)" "record_frame i (pg_get_group g)"
  by (auto simp: get_result_def try_into_i32_def pg_get_task_def pg_get_group_def intro!: record_intros split: list.splits)

lemma record_store_new_task [record_intros]: "record_frame i (store_new_task P oi ps row)"
  unfolding store_new_task_def by (auto intro!: record_intros split: option.splits)

lemma record_writes [record_intros]:
  "record_frame i (pg_add_device P d n k c)" "record_frame i (pg_add_group P g j n th p kt cert nt)"
  "record_frame i (pg_create_task P oi g ps th n td req tt kt p)" "record_frame i (pg_create_group_task P oi ps th n p kt req nt)"
  "record_frame i (pg_set_task_decision j d a)" "record_frame i (pg_set_task_acknowledgement j d)"
  "record_frame i (pg_set_task_active_shares P j m)" "record_frame i (pg_set_task_group_certificates_sent P j b)"
  "record_frame i (pg_set_task_round P j n')" "j \<noteq> i \<Longrightarrow> record_frame i (pg_set_task_result P j res)"
  unfolding pg_add_device_def pg_add_group_def pg_create_task_def pg_create_group_task_def pg_set_task_decision_def
    pg_set_task_acknowledgement_def pg_set_task_active_shares_def pg_set_task_result_def
    pg_set_task_group_certificates_sent_def pg_set_task_round_def
  by (auto intro!: record_intros record_update_tasks split: option.splits)

section \<open>The operations of the server\<close>

definition record_kept :: "uuid \<Rightarrow> (tables, 'm) task_store_scheme \<Rightarrow> (tables, 'm) task_store_scheme \<Rightarrow> bool" where
  "record_kept i s s' = (task_open i {} (cs_repo s) \<longrightarrow> task_open i {} (cs_repo s'))"

lemma record_kept_order [simp]: "reflp (record_kept i)" "transp (record_kept i)"
  by (auto simp: record_kept_def reflp_def transp_def)

lemma record_call:
  assumes "keeps f" "record_frame i f"
  shows "eff_within (record_kept i) (call_repo f)"
proof (rule eff_withinI)
  fix s r s' assume c: "call_repo f s = (r, s')"
  obtain x db where f: "f (cs_repo s) = (x, db)" by fastforce
  with c have "cs_repo s' = db" by (auto simp: call_repo_def)
  with keepsD[OF assms(1) _ f] record_frameD[OF assms(2) f] show "record_kept i s s'"
    by (auto simp: record_kept_def task_open_def)
qed

lemma record_query: "eff_within (record_kept i) (call_repo (sql_query f))"
  by (rule record_call) (intro keeps_intros record_intros)+

interpretation records: read_frame "record_kept i" "postgres P" for i P
  by unfold_locales (simp_all add: pg_get_task_models_def pg_get_tasks_participants_def pg_get_task_decisions_def
      pg_get_task_acknowledgements_def pg_get_task_active_shares_def pg_get_group_def record_query record_kept_def)

lemma record_same: "(\<And>s. cs_repo (snd (m s)) = cs_repo s) \<Longrightarrow> eff_within (record_kept i) m"
  by (simp add: eff_within_def record_kept_def)

lemma record_plain [kept_intros]:
  "eff_within (record_kept i) (eff_modify h)" if "\<And>s. cs_repo (h s) = cs_repo s" for h
  using that by (intro record_same) (simp add: eff_modify_def)

lemma record_env [kept_intros]: "eff_within (record_kept i) (env_call g)" "eff_within (record_kept i) (get_timestamp D)"
  unfolding get_timestamp_def by (rule record_same, simp add: env_call_def split: prod.splits)+

lemma record_steps [kept_intros]:
  "eff_within (record_kept i) (send_updates D task)" "eff_within (record_kept i) (put_task j t)"
  "eff_within (record_kept i) (run_cached j rt f)" "eff_within (record_kept i) (run_local rt g)"
  "eff_within (record_kept i) (set_task_last_update D j)" "eff_within (record_kept i) (activate_device D d)"
  "eff_within (record_kept i) (get_device_last_activation D d)" "eff_within (record_kept i) (add_subscriber d tx)"
  by (rule record_same, simp add: send_updates_def put_task_def run_cached_def run_local_def set_task_last_update_def
      activate_device_def get_device_last_activation_def add_subscriber_def get_timestamp_def env_call_def next_call_def
      eff_bind_def eff_modify_def split: prod.splits option.splits)+

lemma record_loops [kept_intros]:
  "eff_within (record_kept i) (send_cached D j)" "eff_within (record_kept i) (connected_participants D now ps)"
  "eff_within (record_kept i) (last_activations D ds)"
proof -
  show "eff_within (record_kept i) (send_cached D j)"
    unfolding send_cached_def by (auto intro!: kept_intros split: option.splits)
  show "eff_within (record_kept i) (connected_participants D now ps)"
    by (induction ps) (auto intro!: kept_intros)
  show "eff_within (record_kept i) (last_activations D ds)"
    by (induction D ds rule: last_activations.induct) (auto intro!: kept_intros)
qed

text \<open>The operations on the database the server runs on; those on a task are run on another one than \<^verbatim>\<open>i\<close>.\<close>

lemmas record_writing = record_call[OF keeps_writes(1) record_writes(1)] record_call[OF keeps_writes(2) record_writes(2)]
  record_call[OF keeps_writes(3) record_writes(3)] record_call[OF keeps_writes(4) record_writes(4)]
  record_call[OF keeps_writes(5) record_writes(5)] record_call[OF keeps_writes(6) record_writes(6)]
  record_call[OF keeps_writes(7) record_writes(7)] record_call[OF keeps_writes(8) record_writes(10)]
  record_call[OF keeps_writes(9) record_writes(8)] record_call[OF keeps_writes(10) record_writes(9)]

lemma record_task_steps:
  assumes "dp_repo D = postgres P" "j \<noteq> i"
  shows "eff_within (record_kept i) (apply_round_update D j u)" "eff_within (record_kept i) (start_accepted_task D j v)"
    "eff_within (record_kept i) (apply_decision D j v du)"
proof -
  have ends: "eff_within (record_kept i) (fail_task D j x)" "eff_within (record_kept i) (finish_task D j n f)" for x n f
    using assms(2) unfolding fail_task_def finish_task_def assms(1) postgres_simps
    by (auto intro!: kept_intros record_writing split: task_result.splits)
  show "eff_within (record_kept i) (apply_round_update D j u)"
    using ends unfolding apply_round_update_def assms(1) postgres_simps
    by (auto intro!: kept_intros record_writing split: round_update.splits)
  have "eff_within (record_kept i) (choose_active_shares D v)" for v
    unfolding choose_active_shares_def Let_def assms(1) postgres_simps by (intro kept_intros record_writing)
  moreover have "eff_within (record_kept i) (apply_start_update D j u rt)" for u rt
    using ends unfolding apply_start_update_def assms(1) postgres_simps
    by (auto intro!: kept_intros record_writing split: round_update.splits)
  ultimately show start: "eff_within (record_kept i) (start_accepted_task D j v)" for v
    unfolding start_accepted_task_def by (auto intro!: kept_intros split: prod.splits)
  show "eff_within (record_kept i) (apply_decision D j v du)"
    using start assms(2) unfolding apply_decision_def assms(1) postgres_simps
    by (auto intro!: kept_intros record_writing split: decision_update.splits)
qed

lemma record_task_operations:
  assumes "dp_repo D = postgres P" "j \<noteq> i"
  shows "eff_within (record_kept i) (update_task D j d ms a)" "eff_within (record_kept i) (decide_task D j d accept)"
    "eff_within (record_kept i) (acknowledge_task D j d)"
  using record_task_steps[OF assms] unfolding update_task_def decide_task_def acknowledge_task_def assms(1) postgres_simps
  by (auto intro!: kept_intros record_writing split: task.splits prod.splits)

section \<open>Requests\<close>

text \<open>The task stays as it is in the cache, and its record in the database stays open.\<close>

definition undisturbed :: "uuid \<Rightarrow> (tables, 'm) task_store_scheme \<Rightarrow> (tables, 'm) task_store_scheme \<Rightarrow> bool" where
  "undisturbed i s s' = (task_kept i s s' \<and> record_kept i s s')"

interpretation alone: rpc_frame "undisturbed i" for i
  by unfold_locales (auto simp: undisturbed_def task_kept_def record_kept_def)

lemma undisturbedI:
  assumes "eff_within (task_kept i) m" "eff_within (record_kept i) m"
  shows "undisturbed i s (snd (m s))"
  using assms by (simp add: undisturbed_def eff_within_def)

lemma task_kept_cache: "eff_within cache_kept m \<Longrightarrow> eff_within (task_kept i) m"
  by (erule eff_within_mono) (simp add: task_kept_def cache_keptD)

lemma others_get_task [others_intros]: "eff_within (others_kept j) (get_task E R j)"
  by (rule eff_within_mono[OF kept_get_task]) (simp add: others_kept_def cache_keptD)

lemma others_operations:
  "eff_within (others_kept j) (update_task D j d ms a)" "eff_within (others_kept j) (decide_task D j d accept)"
  "eff_within (others_kept j) (acknowledge_task D j d)"
  unfolding update_task_def decide_task_def acknowledge_task_def
  by (auto intro!: others_intros split: task.splits prod.splits)

lemma undisturbed_by_others:
  assumes "dp_repo D = postgres P" "j \<noteq> i"
  shows "undisturbed i s (snd (update_task D j d ms a s))" "undisturbed i s (snd (decide_task D j d accept s))"
    "undisturbed i s (snd (acknowledge_task D j d s))"
  by (rule undisturbedI, rule task_kept_others[OF assms(2)[symmetric]], rule others_operations, rule record_task_operations[OF assms])+

lemma record_readers:
  assumes "dp_repo D = postgres P"
  shows "eff_within (record_kept i) (get_formatted_list D dev ids)" "eff_within (record_kept i) (get_formatted_tasks D)"
    "eff_within (record_kept i) (get_formatted_active_device_tasks D d)" "eff_within (record_kept i) (get_formatted_task D j dev)"
    "eff_within (record_kept i) (get_devices D)" "eff_within (record_kept i) (get_groups D)"
    "eff_within (record_kept i) (get_device_groups D d)" "eff_within (record_kept i) (add_device D d n k cert)"
proof -
  show l: "eff_within (record_kept i) (get_formatted_list D dev ids)" for dev ids
    by (induction ids) (auto simp: assms intro!: kept_intros)
  show "eff_within (record_kept i) (get_formatted_tasks D)" "eff_within (record_kept i) (get_formatted_active_device_tasks D d)"
    "eff_within (record_kept i) (get_groups D)" "eff_within (record_kept i) (get_device_groups D d)"
    unfolding get_formatted_tasks_def get_formatted_active_device_tasks_def get_groups_def get_device_groups_def assms
    by (auto simp: postgres_def pg_get_tasks_def pg_get_active_device_tasks_def pg_get_groups_def pg_get_device_groups_def
        intro!: l kept_intros record_query)
  show "eff_within (record_kept i) (get_formatted_task D j dev)" "eff_within (record_kept i) (get_devices D)"
    "eff_within (record_kept i) (add_device D d n k cert)"
    unfolding get_formatted_task_def get_devices_def add_device_def assms postgres_simps
    by (auto intro!: kept_intros record_writing)
qed

lemma undisturbed_by_readers:
  assumes "dp_repo D = postgres P"
  shows "undisturbed i s (snd (get_formatted_task D j dev s))" "undisturbed i s (snd (get_formatted_tasks D s))"
    "undisturbed i s (snd (get_formatted_active_device_tasks D d s))" "undisturbed i s (snd (activate_device D d s))"
    "undisturbed i s (snd (get_devices D s))" "undisturbed i s (snd (add_subscriber d tx s))"
    "undisturbed i s (snd (add_device D d n k cert s))" "undisturbed i s (snd (get_timestamp D s))"
    "undisturbed i s (snd (env_call g s))" "undisturbed i s (snd (get_groups D s))" "undisturbed i s (snd (get_device_groups D d s))"
  by (rule undisturbedI, rule task_kept_cache, (auto intro!: kept_intros kept_same same_devices same_intros
      simp: get_groups_def get_device_groups_def)[1], intro record_readers[OF assms] kept_intros)+

lemma record_additions:
  assumes "dp_repo D = postgres P"
  shows "eff_within (record_kept i) (add_group_task D n ds th p k nt)" "eff_within (record_kept i) (add_sign_task D g n d)"
    "eff_within (record_kept i) (add_decrypt_task D g n d ty c)"
proof -
  have "eff_within (record_kept i) (persist_task (postgres P) v)" for v
    unfolding persist_task_def Let_def persist_group_task_def persist_threshold_task_def postgres_simps
    by (auto intro!: kept_intros record_writing split: running_task_context.splits)
  then have add: "eff_within (record_kept i) (add_task D v)" for v
    unfolding add_task_def Let_def assms by (intro kept_intros)
  have "eff_within (record_kept i) (call_repo (pg_get_group_participants g))" "eff_within (record_kept i) (call_repo (pg_get_group g))" for g
    unfolding pg_get_group_participants_def pg_get_group_def by (rule record_query)+
  with add show "eff_within (record_kept i) (add_group_task D n ds th p k nt)" "eff_within (record_kept i) (add_sign_task D g n d)"
    "eff_within (record_kept i) (add_decrypt_task D g n d ty c)"
    unfolding add_group_task_def add_sign_task_def add_decrypt_task_def Let_def assms postgres_simps
    by (auto intro!: kept_intros split: option.splits key_type.splits prod.splits)
qed

text \<open>A new task is put under the identifier that was generated for it.\<close>

lemma others_add_task: "eff_within (others_kept (ti_id (vt_task_info v))) (add_task D v)"
  unfolding add_task_def persist_task_def Let_def persist_group_task_def persist_threshold_task_def
  by (auto intro!: others_intros split: running_task_context.splits)

lemma task_kept_env:
  assumes "\<And>n. eff_within (task_kept i) (f (g n))"
  shows "eff_within (task_kept i) (eff_bind (env_call g) f)"
proof (rule eff_withinI)
  fix s r s' assume "eff_bind (env_call g) f s = (r, s')"
  then obtain n w where "f (g n) (s\<lparr>ss_world := w\<rparr>) = (r, s')"
    by (auto simp: eff_bind_def env_call_def split: prod.splits)
  with eff_withinD[OF assms] show "task_kept i s s'" by (fastforce simp: task_kept_def)
qed

lemma task_kept_pure:
  "eff_within (task_kept i) (eff_fail e)" "eff_within (task_kept i) (eff_gets g)" "eff_within (task_kept i) (call_repo f)"
  by (intro task_kept_same same_intros)+

lemma additions_elsewhere:
  assumes "\<And>n. new_uuid (dp_env D) n \<noteq> i"
  shows "eff_within (task_kept i) (add_group_task D n ds th p k nt)" "eff_within (task_kept i) (add_sign_task D g n d)"
    "eff_within (task_kept i) (add_decrypt_task D g n d ty c)"
proof -
  have add: "eff_within (task_kept i) (add_task D v)" if "ti_id (vt_task_info v) \<noteq> i" for v
    using task_kept_others[OF that[symmetric] others_add_task] .
  show "eff_within (task_kept i) (add_group_task D n ds th p k nt)" "eff_within (task_kept i) (add_sign_task D g n d)"
    "eff_within (task_kept i) (add_decrypt_task D g n d ty c)"
    unfolding add_group_task_def add_sign_task_def add_decrypt_task_def Let_def
    by (auto simp: assms not_sym[OF assms] intro!: task_kept_pure task_kept_env add task_kept_bind split: option.splits key_type.splits)
qed

lemma undisturbed_by_additions:
  assumes "dp_repo D = postgres P" "\<And>n. new_uuid (dp_env D) n \<noteq> i"
  shows "undisturbed i s (snd (add_group_task D n ds th p k nt s))" "undisturbed i s (snd (add_sign_task D g n d s))"
    "undisturbed i s (snd (add_decrypt_task D g n d ty c s))"
  by (rule undisturbedI, rule additions_elsewhere[OF assms(2)], rule record_additions[OF assms(1)])+

text \<open>The task a request is about.\<close>

fun named_task :: "rpc_request \<Rightarrow> uuid option" where
  "named_task (Rpc_Update_Task i _ _) = Some i"
| "named_task (Rpc_Decide_Task i _) = Some i"
| "named_task (Rpc_Acknowledge_Task i) = Some i"
| "named_task _ = None"

lemma uuid_slice: "rpc_within R Q (rpc_bind (rpc_unwrap (uuid_from_slice b)) f)" if "rpc_within R Q (f b)" "\<And>s. R s s"
  using that by (simp add: rpc_within_def rpc_uuid)

lemma request_leaves_others_alone:
  assumes "dp_repo D = postgres P" "named_task req \<noteq> Some i" "\<And>n. new_uuid (dp_env D) n \<noteq> i"
  shows "undisturbed i s (snd (meesign_service G D c req s))"
proof -
  note calls = alone.calls[OF undisturbed_by_readers(1)[OF assms(1)]] alone.calls[OF undisturbed_by_readers(2)[OF assms(1)]]
    alone.calls[OF undisturbed_by_readers(3)[OF assms(1)]] alone.calls[OF undisturbed_by_readers(4)[OF assms(1)]]
    alone.calls[OF undisturbed_by_readers(5)[OF assms(1)]] alone.calls[OF undisturbed_by_readers(6)[OF assms(1)]]
    alone.calls[OF undisturbed_by_readers(7)[OF assms(1)]] alone.calls[OF undisturbed_by_readers(8)[OF assms(1)]]
    alone.calls[OF undisturbed_by_readers(9)[OF assms(1)]] alone.calls[OF undisturbed_by_readers(10)[OF assms(1)]]
    alone.calls[OF undisturbed_by_readers(11)[OF assms(1)]]
    alone.calls[OF undisturbed_by_additions(1)[OF assms(1,3)]] alone.calls[OF undisturbed_by_additions(2)[OF assms(1,3)]]
    alone.calls[OF undisturbed_by_additions(3)[OF assms(1,3)]]
    alone.calls[OF undisturbed_by_others(1)[OF assms(1)]] alone.calls[OF undisturbed_by_others(2)[OF assms(1)]]
    alone.calls[OF undisturbed_by_others(3)[OF assms(1)]]
  have "alone.always i (meesign_service G D c req)"
    using assms(2) by (cases req) (auto simp: handler_defs grpc_issue_certificate_def generate_jwt_def activate_named_def Let_def
        intro!: alone.pure alone.bind calls uuid_slice alone.same split: option.splits sum.splits)
  then show ?thesis by (simp add: rpc_within_def)
qed

section \<open>Properties\<close>



end
