(* ===== verification/Processes.thy ===== *)
theory Processes
  imports Errors
begin

text \<open>
  Handlers that run at the same time. A handler is a process: a sequence of steps, each an access to the shared state, between which any
  other handler may run, on another thread or because the handler awaits. Processes take and release the locks of shared objects. The
  second part is a logic for processes in the style of rely and guarantee: a process may count on the objects it has locked staying as it
  left them, and in turn changes no other object.
\<close>

section \<open>Processes\<close>

text \<open>
  A process has returned, or takes a step on the shared state and goes on as it has found the state, or waits for the lock of an
  object, or releases a lock it has.
\<close>

datatype ('s, 'a) process =
    Ret "'a res"
  | Step "'s \<Rightarrow> 's" "'s \<Rightarrow> ('s, 'a) process"
  | Lock nat "('s, 'a) process"
  | Unlock nat "('s, 'a) process"

definition step_of :: "('s, 'a) eff \<Rightarrow> ('s, 'a) process" where
  "step_of m = Step (\<lambda>s. snd (m s)) (\<lambda>s. Ret (fst (m s)))"

primrec proc_then :: "('s, 'a) process \<Rightarrow> ('a res \<Rightarrow> ('s, 'b) process) \<Rightarrow> ('s, 'b) process" where
  "proc_then (Ret r) f = f r"
| "proc_then (Step u k) f = Step u (\<lambda>s. proc_then (k s) f)"
| "proc_then (Lock a p) f = Lock a (proc_then p f)"
| "proc_then (Unlock a p) f = Unlock a (proc_then p f)"

text \<open>An error ends the process (the operator \<^verbatim>\<open>?\<close>); so does a panic.\<close>

definition proc_bind :: "('s, 'a) process \<Rightarrow> ('a \<Rightarrow> ('s, 'b) process) \<Rightarrow> ('s, 'b) process" where
  "proc_bind p f = proc_then p (\<lambda>r. case r of Inl e \<Rightarrow> Ret (Inl e) | Inr x \<Rightarrow> f x)"

text \<open>The process alone on the state: no lock is ever taken.\<close>

primrec run_alone :: "('s, 'a) process \<Rightarrow> ('s, 'a) eff" where
  "run_alone (Ret r) = (\<lambda>s. (r, s))"
| "run_alone (Step u k) = (\<lambda>s. run_alone (k s) (u s))"
| "run_alone (Lock a p) = run_alone p"
| "run_alone (Unlock a p) = run_alone p"

lemma run_step_of [simp]: "run_alone (step_of m) = m"
  by (simp add: step_of_def)

lemma run_then: "run_alone (proc_then p f) s = (case run_alone p s of (r, s') \<Rightarrow> run_alone (f r) s')"
  by (induction p arbitrary: s) auto

lemma run_bind [simp]: "run_alone (proc_bind p f) = eff_bind (run_alone p) (\<lambda>x. run_alone (f x))"
  by (rule ext) (auto simp: proc_bind_def run_then eff_bind_def split: prod.splits sum.splits)

lemma then_ret [simp]: "proc_then p Ret = p"
  by (induction p) auto

lemma then_assoc: "proc_then (proc_then p f) g = proc_then p (\<lambda>r. proc_then (f r) g)"
  by (induction p) auto

section \<open>Interleavings\<close>

text \<open>
  The handlers that have been started, which of them holds the lock of which object, and the shared state. A handler may be started at any
  time; it may also be cancelled while it waits, when its client goes away: what it holds is dropped, which may change the state
  as \<^verbatim>\<open>dropping\<close> says.
\<close>

type_synonym ('s, 'a) system = "('s, 'a) process list \<times> (nat \<rightharpoonup> nat) \<times> 's"

definition release_all :: "nat \<Rightarrow> (nat \<rightharpoonup> nat) \<Rightarrow> (nat \<rightharpoonup> nat)" where
  "release_all k locks = (\<lambda>a. if locks a = Some k then None else locks a)"

inductive proceeds :: "('s, 'a) system \<Rightarrow> ('s, 'a) system \<Rightarrow> bool" where
  step: "k < length ps \<Longrightarrow> ps ! k = Step u c \<Longrightarrow> proceeds (ps, locks, s) (ps[k := c s], locks, u s)"
| lock: "k < length ps \<Longrightarrow> ps ! k = Lock a p \<Longrightarrow> locks a = None \<Longrightarrow>
    proceeds (ps, locks, s) (ps[k := p], locks(a \<mapsto> k), s)"
| unlock: "k < length ps \<Longrightarrow> ps ! k = Unlock a p \<Longrightarrow> locks a = Some k \<Longrightarrow>
    proceeds (ps, locks, s) (ps[k := p], locks(a := None), s)"

text \<open>Processes are finite: without new requests there is an end, however the steps are ordered.\<close>

inductive_set continues :: "(('s, 'a) process \<times> ('s, 'a) process) set" where
  "(c s, Step u c) \<in> continues"
| "(p, Lock a p) \<in> continues"
| "(p, Unlock a p) \<in> continues"

inductive_simps continues_simps:
  "(q, Ret r) \<in> continues" "(q, Step u c) \<in> continues" "(q, Lock a p) \<in> continues" "(q, Unlock a p) \<in> continues"

lemma wf_continues: "wf (continues :: (('s, 'a) process \<times> ('s, 'a) process) set)"
proof (rule wfUNIVI)
  fix P :: "('s, 'a) process \<Rightarrow> bool" and p
  assume "\<forall>p. (\<forall>q. (q, p) \<in> continues \<longrightarrow> P q) \<longrightarrow> P p"
  then have closed: "P p" if "\<And>q. (q, p) \<in> continues \<Longrightarrow> P q" for p using that by blast
  show "P p" by (induction p) (rule closed, auto simp: continues_simps)+
qed

lemma proceeds_continues:
  fixes y y' :: "('s, 'a) system"
  assumes "proceeds y y'"
  shows "(fst y', fst y) \<in> listrel1 continues"
proof -
  have upd: "(ps[k := q], ps) \<in> listrel1 continues" if "k < length ps" "(q, ps ! k) \<in> continues"
    for ps :: "('s, 'a) process list" and k q
    using that listrel1I[OF that(2), of _ "take k ps" "drop (Suc k) ps"] by (simp add: id_take_nth_drop[symmetric] upd_conv_take_nth_drop)
  from assms show ?thesis by (induction rule: proceeds.induct) (auto intro!: upd simp: continues_simps)
qed

lemma no_endless_run:
  fixes f :: "nat \<Rightarrow> ('s, 'a) system"
  shows "\<exists>n. \<not> proceeds (f n) (f (Suc n))"
proof (rule ccontr)
  assume "\<nexists>n. \<not> proceeds (f n) (f (Suc n))"
  then have "\<forall>n. (fst (f (Suc n)), fst (f n)) \<in> listrel1 continues" using proceeds_continues by blast
  moreover have "wf (listrel1 (continues :: (('s, 'a) process \<times> ('s, 'a) process) set))" by (simp add: wf_continues)
  ultimately show False unfolding wf_iff_no_infinite_down_chain by (metis comp_apply)
qed

lemma run_ends: "\<exists>z. proceeds\<^sup>*\<^sup>* y z \<and> (\<nexists>z'. proceeds z z')"
proof (induction y rule: wf_induct[OF wf_inv_image[of "listrel1 continues" fst]])
  case 1
  show ?case by (simp add: wf_continues)
next
  case (2 y)
  show ?case
  proof (cases "\<exists>y'. proceeds y y'")
    case True
    then obtain y' where y': "proceeds y y'" by blast
    then have "(y', y) \<in> inv_image (listrel1 continues) fst" using proceeds_continues[OF y'] by (simp only: in_inv_image)
    with 2 obtain z where "proceeds\<^sup>*\<^sup>* y' z" "\<nexists>z'. proceeds z z'" by blast
    with y' show ?thesis by (blast intro: converse_rtranclp_into_rtranclp)
  qed blast
qed

inductive interleaves ::
    "(('s, 'a) process \<Rightarrow> bool) \<Rightarrow> ('s \<Rightarrow> 's \<Rightarrow> bool) \<Rightarrow> ('s, 'a) system \<Rightarrow> ('s, 'a) system \<Rightarrow> bool"
  for requests dropping y where
  initial: "interleaves requests dropping y y"
| proceed: "interleaves requests dropping y y' \<Longrightarrow> proceeds y' y'' \<Longrightarrow> interleaves requests dropping y y''"
| start: "interleaves requests dropping y (ps, locks, s) \<Longrightarrow> requests p \<Longrightarrow>
    interleaves requests dropping y (ps @ [p], locks, s)"
| cancel: "interleaves requests dropping y (ps, locks, s) \<Longrightarrow> k < length ps \<Longrightarrow> dropping s s' \<Longrightarrow>
    interleaves requests dropping y (ps[k := Ret (Inl Panic)], release_all k locks, s')"

text \<open>A part of a process that takes no lock can run to its end at once.\<close>

primrec lock_free :: "('s, 'a) process \<Rightarrow> bool" where
  "lock_free (Ret r) = True"
| "lock_free (Step u k) = (\<forall>s. lock_free (k s))"
| "lock_free (Lock a p) = False"
| "lock_free (Unlock a p) = False"

lemma lock_free_step_of [simp]: "lock_free (step_of m)"
  by (simp add: step_of_def)

lemma lock_free_bind [simp]: "lock_free p \<Longrightarrow> (\<And>x. lock_free (f x)) \<Longrightarrow> lock_free (proc_bind p f)"
  unfolding proc_bind_def by (induction p) (auto split: sum.splits)

lemma lock_free_runs:
  assumes "lock_free p" "k < length ps"
  shows "proceeds\<^sup>*\<^sup>* (ps[k := proc_then p f], locks, s) (ps[k := f (fst (run_alone p s))], locks, snd (run_alone p s))"
  using assms(1)
proof (induction p arbitrary: s)
  case (Step u c)
  then have "proceeds\<^sup>*\<^sup>* (ps[k := proc_then (c s) f], locks, u s) (ps[k := f (fst (run_alone (c s) (u s)))], locks, snd (run_alone (c s) (u s)))"
    by auto
  moreover have "proceeds (ps[k := proc_then (Step u c) f], locks, s) (ps[k := proc_then (c s) f], locks, u s)"
    using proceeds.step[of k "ps[k := proc_then (Step u c) f]" u _ locks s] assms(2) by simp
  ultimately show ?case by (simp add: converse_rtranclp_into_rtranclp)
qed auto

lemma bind_assoc: "proc_bind (proc_bind p f) g = proc_bind p (\<lambda>x. proc_bind (f x) g)"
  unfolding proc_bind_def then_assoc by (rule arg_cong[where f = "proc_then p"]) (auto simp: fun_eq_iff split: sum.splits)

section \<open>A logic for processes\<close>

text \<open>
  \<^verbatim>\<open>cell\<close> is what an object holds and \<^verbatim>\<open>next_obj\<close> the number of objects there are. A process that has locked the
  objects in \<^verbatim>\<open>K\<close> knows what they hold. It changes only those, each as \<^verbatim>\<open>may_become\<close> allows, and may make new ones. Its steps
  keep the invariant \<^verbatim>\<open>state_ok\<close> and stay within the relation \<^verbatim>\<open>keeps\<close>. It waits for a lock only while it holds none.
\<close>

record ('s, 'v) objects =
  cell :: "'s \<Rightarrow> nat \<Rightarrow> 'v"
  next_obj :: "'s \<Rightarrow> nat"
  may_become :: "'v \<Rightarrow> 'v \<Rightarrow> bool"
  state_ok :: "'s \<Rightarrow> bool"
  keeps :: "'s \<Rightarrow> 's \<Rightarrow> bool"

definition knows :: "('s, 'v) objects \<Rightarrow> (nat \<rightharpoonup> 'v) \<Rightarrow> 's \<Rightarrow> bool" where
  "knows ob K s = (\<forall>a v. K a = Some v \<longrightarrow> a < next_obj ob s \<and> cell ob s a = v)"

definition objects_evolve :: "('s, 'v) objects \<Rightarrow> 's \<Rightarrow> 's \<Rightarrow> bool" where
  "objects_evolve ob s s' =
     (keeps ob s s' \<and> next_obj ob s \<le> next_obj ob s' \<and> (\<forall>a < next_obj ob s. may_become ob (cell ob s a) (cell ob s' a)))"

definition guarantees :: "('s, 'v) objects \<Rightarrow> (nat \<rightharpoonup> 'v) \<Rightarrow> 's \<Rightarrow> 's \<Rightarrow> bool" where
  "guarantees ob K s s' =
     (state_ok ob s' \<and> objects_evolve ob s s' \<and> (\<forall>a < next_obj ob s. a \<notin> dom K \<longrightarrow> cell ob s' a = cell ob s a))"

primrec sound ::
    "('s, 'v) objects \<Rightarrow> ('s, 'a) process \<Rightarrow> nat \<Rightarrow> (nat \<rightharpoonup> 'v) \<Rightarrow> ('a res \<Rightarrow> nat \<Rightarrow> (nat \<rightharpoonup> 'v) \<Rightarrow> bool) \<Rightarrow> bool" where
  "sound ob (Ret r) n K Q = Q r n K"
| "sound ob (Step u k) n K Q =
     (\<forall>s. state_ok ob s \<longrightarrow> n \<le> next_obj ob s \<longrightarrow> knows ob K s \<longrightarrow>
        guarantees ob K s (u s) \<and> (\<exists>K'. dom K' = dom K \<and> knows ob K' (u s) \<and> sound ob (k s) (next_obj ob (u s)) K' Q))"
| "sound ob (Lock a p) n K Q = (a < n \<and> K = Map.empty \<and> (\<forall>v. sound ob p n [a \<mapsto> v] Q))"
| "sound ob (Unlock a p) n K Q = (a \<in> dom K \<and> sound ob p n (K(a := None)) Q)"

abbreviation released :: "'a res \<Rightarrow> nat \<Rightarrow> (nat \<rightharpoonup> 'v) \<Rightarrow> bool" where
  "released r n K \<equiv> K = Map.empty"

lemma sound_post:
  "sound ob p n K Q \<Longrightarrow> (\<And>r n' K'. n \<le> n' \<Longrightarrow> Q r n' K' \<Longrightarrow> Q' r n' K') \<Longrightarrow> sound ob p n K Q'"
proof (induction p arbitrary: n K)
  case (Step u k)
  show ?case
    unfolding sound.simps
  proof (intro allI impI conjI)
    fix s assume s: "state_ok ob s" "n \<le> next_obj ob s" "knows ob K s"
    with Step.prems(1) show g: "guarantees ob K s (u s)" by simp
    from Step.prems(1) s obtain K' where K': "dom K' = dom K" "knows ob K' (u s)"
      "sound ob (k s) (next_obj ob (u s)) K' Q" by auto
    have "n \<le> next_obj ob (u s)" using g s by (simp add: guarantees_def objects_evolve_def)
    with Step.IH[OF _ K'(3)] Step.prems(2) K'(1,2) show "\<exists>K'. dom K' = dom K \<and> knows ob K' (u s) \<and> sound ob (k s) (next_obj ob (u s)) K' Q'"
      by (metis order_trans rangeI)
  qed
qed auto

lemma sound_more:
  assumes "sound ob p n K Q" "n \<le> n'" "\<And>r m m' K. m \<le> m' \<Longrightarrow> Q r m K \<Longrightarrow> Q r m' K"
  shows "sound ob p n' K Q"
  using assms(1)
proof (induction p arbitrary: K)
  case (Step u k)
  then show ?case using assms(2) by (simp add: order_trans[OF assms(2)])
qed (use assms(2,3) in auto)

lemma sound_then:
  assumes "sound ob p n K (\<lambda>r n K. sound ob (f r) n K Q)"
  shows "sound ob (proc_then p f) n K Q"
  using assms
proof (induction p arbitrary: n K)
  case (Step u k)
  show ?case
    unfolding proc_then.simps sound.simps
  proof (intro allI impI conjI)
    fix s assume s: "state_ok ob s" "n \<le> next_obj ob s" "knows ob K s"
    with Step.prems show "guarantees ob K s (u s)" by simp
    from Step.prems s obtain K' where "dom K' = dom K" "knows ob K' (u s)"
      "sound ob (k s) (next_obj ob (u s)) K' (\<lambda>r n K. sound ob (f r) n K Q)" by auto
    with Step.IH[OF rangeI] show "\<exists>K'. dom K' = dom K \<and> knows ob K' (u s) \<and> sound ob (proc_then (k s) f) (next_obj ob (u s)) K' Q"
      by blast
  qed
qed auto

text \<open>A step of an effect that leaves the objects alone.\<close>

definition leaves_objects :: "('s, 'v) objects \<Rightarrow> ('s, 'a) eff \<Rightarrow> bool" where
  "leaves_objects ob m = (\<forall>s. state_ok ob s \<longrightarrow>
     state_ok ob (snd (m s)) \<and> keeps ob s (snd (m s)) \<and> next_obj ob (snd (m s)) = next_obj ob s \<and> cell ob (snd (m s)) = cell ob s)"

locale evolving_objects =
  fixes ob :: "('s, 'v) objects"
  assumes become_refl: "may_become ob v v"
    and become_trans: "may_become ob u v \<Longrightarrow> may_become ob v w \<Longrightarrow> may_become ob u w"
    and keeps_refl: "keeps ob s s"
    and keeps_trans: "keeps ob s s' \<Longrightarrow> keeps ob s' s'' \<Longrightarrow> keeps ob s s''"
begin

lemma evolve_refl: "objects_evolve ob s s"
  by (simp add: objects_evolve_def become_refl keeps_refl)

lemma evolve_trans: "objects_evolve ob s s' \<Longrightarrow> objects_evolve ob s' s'' \<Longrightarrow> objects_evolve ob s s''"
  unfolding objects_evolve_def by (meson become_trans keeps_trans order_trans less_le_trans)

lemma sound_leaves:
  assumes "leaves_objects ob m" "\<And>s. state_ok ob s \<Longrightarrow> n \<le> next_obj ob s \<Longrightarrow> knows ob K s \<Longrightarrow> Q (fst (m s)) (next_obj ob s) K"
  shows "sound ob (step_of m) n K Q"
  using assms by (auto simp: step_of_def leaves_objects_def guarantees_def objects_evolve_def become_refl knows_def intro!: exI[of _ K])

end

text \<open>
  Requests that are sound, and drops that leave the objects alone: then in every interleaving each object evolves as its owner changes
  it, and there is no deadlock.
\<close>

definition well_behaved :: "('s, 'v) objects \<Rightarrow> ('s, 'a) system \<Rightarrow> bool" where
  "well_behaved ob y = (case y of (ps, locks, s) \<Rightarrow>
     state_ok ob s \<and> ran locks \<subseteq> {..<length ps} \<and>
     (\<forall>k < length ps. \<exists>K. dom K = {a. locks a = Some k} \<and> knows ob K s \<and> sound ob (ps ! k) (next_obj ob s) K released))"

definition all_answered :: "('s, 'a) system \<Rightarrow> bool" where
  "all_answered y = ((\<forall>p \<in> set (fst y). \<exists>r. p = Ret r) \<and> fst (snd y) = Map.empty)"

locale object_system = evolving_objects ob for ob :: "('s, 'v) objects" +
  fixes requests :: "('s, 'a) process \<Rightarrow> bool" and dropping :: "'s \<Rightarrow> 's \<Rightarrow> bool"
  assumes sound_requests: "requests p \<Longrightarrow> sound ob p n Map.empty released"
    and drops: "dropping s s' \<Longrightarrow> state_ok ob s \<Longrightarrow> state_ok ob s' \<and> keeps ob s s' \<and> next_obj ob s' = next_obj ob s \<and> cell ob s' = cell ob s"
begin

lemma others_go_on:
  assumes "guarantees ob K s s'" "knows ob K' s" "dom K \<inter> dom K' = {}" "sound ob p (next_obj ob s) K' released"
  shows "knows ob K' s' \<and> sound ob p (next_obj ob s') K' released"
proof -
  have "knows ob K' s'"
    unfolding knows_def
  proof (intro allI impI)
    fix a v assume a: "K' a = Some v"
    then have "a < next_obj ob s" "cell ob s a = v" "a \<notin> dom K" using assms(2,3) by (auto simp: knows_def)
    with assms(1) show "a < next_obj ob s' \<and> cell ob s' a = v" by (auto simp: guarantees_def objects_evolve_def)
  qed
  moreover have "next_obj ob s \<le> next_obj ob s'" using assms(1) by (simp add: guarantees_def objects_evolve_def)
  ultimately show ?thesis using sound_more[OF assms(4)] by simp
qed

lemma proceeds_keeps:
  assumes "proceeds y y'" "well_behaved ob y"
  shows "well_behaved ob y' \<and> objects_evolve ob (snd (snd y)) (snd (snd y'))"
  using assms
proof (induction rule: proceeds.induct)
  case (step k ps u c locks s)
  obtain K where K: "dom K = {a. locks a = Some k}" "knows ob K s" "sound ob (Step u c) (next_obj ob s) K released"
    using step by (auto simp: well_behaved_def)
  moreover have "state_ok ob s" using step.prems by (simp add: well_behaved_def)
  ultimately obtain K' where K': "guarantees ob K s (u s)" "dom K' = dom K" "knows ob K' (u s)"
    "sound ob (c s) (next_obj ob (u s)) K' released" by auto
  have "\<exists>L. dom L = {a. locks a = Some j} \<and> knows ob L (u s) \<and> sound ob (ps[k := c s] ! j) (next_obj ob (u s)) L released"
    if j: "j < length ps" for j
  proof (cases "j = k")
    case True
    with K' K(1) j show ?thesis by (intro exI[of _ K']) simp
  next
    case False
    obtain L where L: "dom L = {a. locks a = Some j}" "knows ob L s" "sound ob (ps ! j) (next_obj ob s) L released"
      using step.prems j by (auto simp: well_behaved_def)
    with False K(1) have "dom K \<inter> dom L = {}" by auto
    from others_go_on[OF K'(1) L(2) this L(3)] L(1) False show ?thesis by (intro exI[of _ L]) simp
  qed
  with step.prems K'(1) show ?case by (simp add: well_behaved_def guarantees_def)
next
  case (lock k ps a p locks s)
  obtain K where K: "dom K = {a. locks a = Some k}" "sound ob (Lock a p) (next_obj ob s) K released"
    using lock by (auto simp: well_behaved_def)
  then have own: "a < next_obj ob s" "sound ob p (next_obj ob s) [a \<mapsto> cell ob s a] released" "{b. locks b = Some k} = {}" by auto
  have "\<exists>L. dom L = {b. (locks(a \<mapsto> k)) b = Some j} \<and> knows ob L s \<and> sound ob (ps[k := p] ! j) (next_obj ob s) L released"
    if j: "j < length ps" for j
  proof (cases "j = k")
    case True
    with own j show ?thesis by (intro exI[of _ "[a \<mapsto> cell ob s a]"]) (auto simp: knows_def)
  next
    case False
    obtain L where L: "dom L = {b. locks b = Some j}" "knows ob L s" "sound ob (ps ! j) (next_obj ob s) L released"
      using lock.prems j by (auto simp: well_behaved_def)
    with False lock.hyps(3) show ?thesis by (intro exI[of _ L]) auto
  qed
  with lock.prems lock.hyps(1) show ?case by (auto simp: well_behaved_def evolve_refl ran_def split: if_splits)
next
  case (unlock k ps a p locks s)
  obtain K where K: "dom K = {a. locks a = Some k}" "knows ob K s" "sound ob (Unlock a p) (next_obj ob s) K released"
    using unlock by (auto simp: well_behaved_def)
  have "\<exists>L. dom L = {b. (locks(a := None)) b = Some j} \<and> knows ob L s \<and> sound ob (ps[k := p] ! j) (next_obj ob s) L released"
    if j: "j < length ps" for j
  proof (cases "j = k")
    case True
    with K j show ?thesis by (intro exI[of _ "K(a := None)"]) (auto simp: knows_def)
  next
    case False
    obtain L where L: "dom L = {b. locks b = Some j}" "knows ob L s" "sound ob (ps ! j) (next_obj ob s) L released"
      using unlock.prems j by (auto simp: well_behaved_def)
    with False unlock.hyps(3) show ?thesis by (intro exI[of _ L]) auto
  qed
  with unlock.prems show ?case by (auto simp: well_behaved_def evolve_refl ran_def split: if_splits)
qed

lemma run_keeps: "proceeds\<^sup>*\<^sup>* y z \<Longrightarrow> well_behaved ob y \<Longrightarrow> well_behaved ob z"
  by (induction rule: rtranclp_induct) (use proceeds_keeps in blast)+

lemma start_keeps:
  assumes "well_behaved ob (ps, locks, s)" "requests p"
  shows "well_behaved ob (ps @ [p], locks, s)"
proof -
  have none: "{a. locks a = Some (length ps)} = {}" using assms(1) by (fastforce simp: well_behaved_def ran_def)
  have "\<exists>K. dom K = {a. locks a = Some k} \<and> knows ob K s \<and> sound ob ((ps @ [p]) ! k) (next_obj ob s) K released"
    if "k < Suc (length ps)" for k
  proof (cases "k = length ps")
    case True
    with none sound_requests[OF assms(2)] show ?thesis by (intro exI[of _ Map.empty]) (auto simp: knows_def)
  next
    case False
    with that assms(1) show ?thesis by (simp add: well_behaved_def nth_append)
  qed
  with assms(1) show ?thesis by (fastforce simp: well_behaved_def)
qed

lemma cancel_keeps:
  assumes "well_behaved ob (ps, locks, s)" "k < length ps" "dropping s s'"
  shows "well_behaved ob (ps[k := Ret (Inl Panic)], release_all k locks, s')"
proof -
  have ok: "state_ok ob s" using assms(1) by (simp add: well_behaved_def)
  have "\<exists>K. dom K = {a. release_all k locks a = Some j} \<and> knows ob K s' \<and>
      sound ob (ps[k := Ret (Inl Panic)] ! j) (next_obj ob s') K released" if j: "j < length ps" for j
  proof (cases "j = k")
    case True
    with j show ?thesis by (intro exI[of _ Map.empty]) (auto simp: knows_def release_all_def)
  next
    case False
    obtain K where "dom K = {a. locks a = Some j}" "knows ob K s" "sound ob (ps ! j) (next_obj ob s) K released"
      using assms(1) j by (auto simp: well_behaved_def)
    with False drops[OF assms(3) ok] show ?thesis by (intro exI[of _ K]) (auto simp: release_all_def knows_def)
  qed
  with assms(1) drops[OF assms(3) ok] show ?thesis by (auto simp: well_behaved_def release_all_def ran_def split: if_splits)
qed

lemma interleaving_evolves:
  assumes "interleaves requests dropping y y'" "well_behaved ob y"
  shows "well_behaved ob y' \<and> objects_evolve ob (snd (snd y)) (snd (snd y'))"
  using assms
proof (induction rule: interleaves.induct)
  case (proceed y' y'')
  then show ?case using proceeds_keeps evolve_trans by blast
next
  case (cancel ps locks s k s')
  then have "objects_evolve ob s s'" using drops by (auto simp: objects_evolve_def become_refl well_behaved_def)
  with cancel cancel_keeps evolve_trans show ?case by fastforce
qed (auto simp: evolve_refl start_keeps)

text \<open>A process that is not disturbed comes to its end as it would alone.\<close>

lemma undisturbed_process_ends:
  assumes "sound ob p n K released" "state_ok ob s" "n \<le> next_obj ob s" "knows ob K s"
    and "k < length ps" "\<And>a. locks a = (if a \<in> dom K then Some k else None)"
  shows "proceeds\<^sup>*\<^sup>* (ps[k := p], locks, s) (ps[k := Ret (fst (run_alone p s))], Map.empty, snd (run_alone p s))"
  using assms
proof (induction p arbitrary: n K s locks)
  case (Ret r)
  then have "locks = Map.empty" by auto
  then show ?case by simp
next
  case (Step u c)
  from Step.prems obtain K' where K': "guarantees ob K s (u s)" "dom K' = dom K" "knows ob K' (u s)"
    "sound ob (c s) (next_obj ob (u s)) K' released" by auto
  have "proceeds\<^sup>*\<^sup>* (ps[k := c s], locks, u s) (ps[k := Ret (fst (run_alone (c s) (u s)))], Map.empty, snd (run_alone (c s) (u s)))"
    by (rule Step.IH[OF rangeI K'(4) _ order_refl K'(3) Step.prems(5)])
      (use K'(1,2) Step.prems(6) in \<open>auto simp: guarantees_def\<close>)
  moreover have "proceeds (ps[k := Step u c], locks, s) (ps[k := c s], locks, u s)"
    using proceeds.step[of k "ps[k := Step u c]" u c locks s] Step.prems(5) by simp
  ultimately show ?case by (simp add: converse_rtranclp_into_rtranclp)
next
  case (Lock a p)
  then have a: "a < n" "sound ob p n [a \<mapsto> cell ob s a] released" and "K = Map.empty" by auto
  with Lock.prems(6) have free: "locks = Map.empty" by (intro ext) simp
  have "proceeds\<^sup>*\<^sup>* (ps[k := p], [a \<mapsto> k], s) (ps[k := Ret (fst (run_alone p s))], Map.empty, snd (run_alone p s))"
    by (rule Lock.IH[OF a(2) Lock.prems(2,3) _ Lock.prems(5)]) (use a(1) Lock.prems(3) in \<open>auto simp: knows_def dom_def\<close>)
  moreover have "proceeds (ps[k := Lock a p], locks, s) (ps[k := p], [a \<mapsto> k], s)"
    using proceeds.lock[of k "ps[k := Lock a p]" a p locks s] Lock.prems(5) free by simp
  ultimately show ?case by (simp add: converse_rtranclp_into_rtranclp)
next
  case (Unlock a p)
  have kn: "knows ob (K(a := None)) s" using Unlock.prems(4) by (auto simp: knows_def)
  have lk: "(locks(a := None)) b = (if b \<in> dom (K(a := None)) then Some k else None)" for b
    using Unlock.prems(6)[of b] by auto
  have so: "sound ob p n (K(a := None)) released" using Unlock.prems(1) by simp
  have "proceeds\<^sup>*\<^sup>* (ps[k := p], locks(a := None), s) (ps[k := Ret (fst (run_alone p s))], Map.empty, snd (run_alone p s))"
    by (rule Unlock.IH[OF so Unlock.prems(2,3) kn Unlock.prems(5) lk])
  moreover have "locks a = Some k" using Unlock.prems(1,6) by auto
  then have "proceeds (ps[k := Unlock a p], locks, s) (ps[k := p], locks(a := None), s)"
    using proceeds.unlock[of k "ps[k := Unlock a p]" a p locks s] Unlock.prems(5) by simp
  ultimately show ?case unfolding run_alone.simps by (rule converse_rtranclp_into_rtranclp[rotated])
qed

lemma sound_alone:
  assumes "sound ob p 0 Map.empty released" "state_ok ob s" "k < length ps" "ps ! k = p"
  shows "proceeds\<^sup>*\<^sup>* (ps, Map.empty, s) (ps[k := Ret (fst (run_alone p s))], Map.empty, snd (run_alone p s))"
  using undisturbed_process_ends[OF assms(1,2) _ _ assms(3), of Map.empty] assms(4)
  by (auto simp: knows_def)

lemma no_deadlock:
  assumes "well_behaved ob (ps, locks, s)" "k < length ps" "\<nexists>r. ps ! k = Ret r"
  shows "\<exists>y. proceeds (ps, locks, s) y"
proof (cases "\<exists>j < length ps. (\<exists>u c. ps ! j = Step u c) \<or> (\<exists>a p. ps ! j = Unlock a p)")
  case True
  then obtain j where j: "j < length ps" "(\<exists>u c. ps ! j = Step u c) \<or> (\<exists>a p. ps ! j = Unlock a p)" by blast
  have "locks a = Some j" if "ps ! j = Unlock a p" for a p
    using assms(1) j(1) that by (auto simp: well_behaved_def)
  with j show ?thesis by (blast intro: proceeds.intros)
next
  case False
  have idle: "{a. locks a = Some j} = {}" if j: "j < length ps" for j
  proof -
    obtain K where K: "dom K = {a. locks a = Some j}" "sound ob (ps ! j) (next_obj ob s) K released"
      using assms(1) j by (auto simp: well_behaved_def)
    with False j show ?thesis by (cases "ps ! j") auto
  qed
  have free: "locks a = None" for a
  proof (rule ccontr)
    assume "locks a \<noteq> None"
    then obtain j where j: "locks a = Some j" by blast
    then have "j \<in> ran locks" by (rule ranI)
    with assms(1) have "j < length ps" by (auto simp: well_behaved_def)
    with idle j show False by blast
  qed
  obtain a p where "ps ! k = Lock a p" using False assms(2,3) by (cases "ps ! k") auto
  from proceeds.lock[where locks = locks and s = s, OF assms(2) this free] show ?thesis by blast
qed

lemma stuck_only_when_answered:
  assumes "well_behaved ob y" "\<nexists>z. proceeds y z"
  shows "all_answered y"
proof -
  obtain ps locks s where y: "y = (ps, locks, s)" by (cases y)
  have ret: "\<exists>r. ps ! k = Ret r" if "k < length ps" for k
    using no_deadlock[OF assms(1)[unfolded y] that] assms(2) y by blast
  have "locks a \<noteq> Some k" if k: "k < length ps" for a k
  proof -
    obtain K where "dom K = {a. locks a = Some k}" "sound ob (ps ! k) (next_obj ob s) K released"
      using assms(1) k by (auto simp: well_behaved_def y)
    with ret[OF k] show ?thesis by auto
  qed
  moreover have "k < length ps" if "locks a = Some k" for a k
    using assms(1) ranI[of locks a k] that by (auto simp: well_behaved_def y)
  ultimately have "locks a = None" for a by (cases "locks a") auto
  then have "locks = Map.empty" by blast
  with ret show ?thesis by (auto simp: all_answered_def y in_set_conv_nth)
qed

end

end
