(* ===== verification/Concurrent_Server.thy ===== *)
theory Concurrent_Server
  imports Processes Server_Tasks
begin

text \<open>
  The handlers of \<^verbatim>\<open>src/state.rs\<close> as processes that run at the same time, with the task store of
  \<^verbatim>\<open>src/cached_task_store.rs\<close> as it is shared: the cache maps an identifier to an \<^verbatim>\<open>Arc\<close> of a lock around the task, a
  handler clones the \<^verbatim>\<open>Arc\<close>, waits for the lock, and keeps it to the end of the handler across every await. A guard for reading
  excludes every other handler here, also those that only read. The notifications of \<^verbatim>\<open>send_updates\<close> are one step.
\<close>

section \<open>The shared state\<close>

text \<open>
  \<^verbatim>\<open>sh_arcs\<close> is the cache, \<^verbatim>\<open>sh_tasks\<close> the task behind each \<^verbatim>\<open>Arc\<close>, whether the cache still has it or not,
  \<^verbatim>\<open>sh_next\<close> the next \<^verbatim>\<open>Arc\<close>, and \<^verbatim>\<open>sh_clones\<close> counts the clones handlers hold. The rest of the server is the state of the other theories; its cache is not used.
\<close>

record ('r, 'tx) shared =
  sh_arcs :: "uuid \<rightharpoonup> nat"
  sh_tasks :: "nat \<Rightarrow> task"
  sh_next :: nat
  sh_clones :: "nat \<Rightarrow> nat"
  sh_server :: "('r, 'tx) server_state"

type_synonym ('r, 'tx, 'a) async = "(('r, 'tx) shared, 'a) process"

definition on_server :: "('r, 'tx, 'a) handler \<Rightarrow> (('r, 'tx) shared, 'a) eff" where
  "on_server m c = (case m (sh_server c) of (r, s) \<Rightarrow> (r, c\<lparr>sh_server := s\<rparr>))"

abbreviation access :: "('r, 'tx, 'a) handler \<Rightarrow> ('r, 'tx, 'a) async" where
  "access m \<equiv> step_of (on_server m)"

abbreviation return :: "'a \<Rightarrow> ('r, 'tx, 'a) async" where
  "return x \<equiv> Ret (Inr x)"

section \<open>The task store\<close>

definition new_arc :: "uuid \<Rightarrow> task \<Rightarrow> ('r, 'tx) shared \<Rightarrow> ('r, 'tx) shared" where
  "new_arc task_id task c = c\<lparr>sh_arcs := (sh_arcs c)(task_id \<mapsto> sh_next c),
     sh_tasks := (sh_tasks c)(sh_next c := task), sh_next := Suc (sh_next c)\<rparr>"

text \<open>The loop that inserts hydrated tasks: \<^verbatim>\<open>Entry::Vacant\<close> tests and inserts in one step.\<close>

definition insert_vacant :: "task \<Rightarrow> (('r, 'tx) shared, unit) eff" where
  "insert_vacant task = eff_modify (\<lambda>c.
     let task_id = ti_id (get_task_info task)
     in if sh_arcs c task_id = None then new_arc task_id task c else c)"

fun insert_all_vacant :: "task list \<Rightarrow> ('r, 'tx, unit) async" where
  "insert_all_vacant [] = return ()"
| "insert_all_vacant (task # tasks) = proc_bind (step_of (insert_vacant task)) (\<lambda>_. insert_all_vacant tasks)"

text \<open>
  The queries of one hydration are one step here. What they read in between is of no consequence: when another handler has changed the
  records of a task, the task is in the cache, and then the hydrated task is dropped.
\<close>

definition ensure_cached_async :: "('r, 'tx) deps \<Rightarrow> uuid list \<Rightarrow> ('r, 'tx, unit) async" where
  "ensure_cached_async D task_ids =
     proc_bind (step_of (eff_gets (\<lambda>c. filter (\<lambda>task_id. sh_arcs c task_id = None) task_ids))) (\<lambda>uncached.
       proc_bind (access (hydrate_tasks (dp_repo D) uncached)) insert_all_vacant)"

definition clone_arc :: "('r, 'tx) deps \<Rightarrow> uuid \<Rightarrow> (('r, 'tx) shared, nat) eff" where
  "clone_arc D task_id c =
     (case sh_arcs c task_id of
        None \<Rightarrow> (Inl (protocol_error (''Task with ID '' @ uuid_display (dp_env D) task_id @ '' not found'')), c)
      | Some a \<Rightarrow> (Inr a, c\<lparr>sh_clones := (sh_clones c)(a := Suc (sh_clones c a))\<rparr>))"

definition drop_arc :: "nat \<Rightarrow> ('r, 'tx) shared \<Rightarrow> ('r, 'tx) shared" where
  "drop_arc a c = c\<lparr>sh_clones := (sh_clones c)(a := sh_clones c a - 1)\<rparr>"

definition read_arc :: "nat \<Rightarrow> ('r, 'tx, task) async" where
  "read_arc a = step_of (eff_gets (\<lambda>c. sh_tasks c a))"

definition write_arc :: "nat \<Rightarrow> task \<Rightarrow> ('r, 'tx, unit) async" where
  "write_arc a task = step_of (eff_modify (\<lambda>c. c\<lparr>sh_tasks := (sh_tasks c)(a := task)\<rparr>))"

text \<open>The owned guard: it is dropped when the handler ends, by a return, an error or a panic, and the clone with it.\<close>

definition guarded :: "nat \<Rightarrow> ('r, 'tx, 'a) async \<Rightarrow> ('r, 'tx, 'a) async" where
  "guarded a p = Lock a (proc_then p (\<lambda>r. Unlock a (Step (drop_arc a) (\<lambda>_. Ret r))))"

definition with_task :: "('r, 'tx) deps \<Rightarrow> uuid \<Rightarrow> (nat \<Rightarrow> task \<Rightarrow> ('r, 'tx, 'a) async) \<Rightarrow> ('r, 'tx, 'a) async" where
  "with_task D task_id body =
     proc_bind (ensure_cached_async D [task_id]) (\<lambda>_.
       proc_bind (step_of (clone_arc D task_id)) (\<lambda>a.
         guarded a (proc_bind (read_arc a) (body a))))"

text \<open>The record of a new task, by the context it will run in.\<close>

definition create_record :: "'r repository \<Rightarrow> voting_task \<Rightarrow> ('r, 'tx, unit) handler" where
  "create_record R task =
     (let ids_shares = map (\<lambda>p. (part_id p, part_shares p)) (ti_participants (vt_task_info task))
      in case vt_running_task_context task of
           Ctx_Group threshold note \<Rightarrow> persist_group_task R task ids_shares threshold note
         | Ctx_SignChallenge grp data \<Rightarrow> persist_threshold_task R task TT_SignChallenge ids_shares grp data
         | Ctx_SignPdf grp data \<Rightarrow> persist_threshold_task R task TT_SignPdf ids_shares grp data
         | Ctx_Decrypt grp data \<Rightarrow> persist_threshold_task R task TT_Decrypt ids_shares grp data)"

text \<open>
  The insertion replaces an \<^verbatim>\<open>Arc\<close> that is there; \<^verbatim>\<open>Arc::into_inner(evicted_task).unwrap()\<close> panics, after the insertion,
  when a handler holds a clone of it.
\<close>

definition insert_arc :: "uuid \<Rightarrow> task \<Rightarrow> (('r, 'tx) shared, task option) eff" where
  "insert_arc task_id task c =
     ((case sh_arcs c task_id of
         None \<Rightarrow> Inr None
       | Some a \<Rightarrow> if sh_clones c a = 0 then Inr (Some (sh_tasks c a)) else Inl Panic), new_arc task_id task c)"

definition persist_task_async :: "('r, 'tx) deps \<Rightarrow> voting_task \<Rightarrow> ('r, 'tx, task option) async" where
  "persist_task_async D task =
     proc_bind (access (create_record (dp_repo D) task)) (\<lambda>_.
       step_of (insert_arc (ti_id (vt_task_info task)) (Voting_Task task)))"

section \<open>The handlers\<close>

definition add_task_async :: "('r, 'tx) deps \<Rightarrow> voting_task \<Rightarrow> ('r, 'tx, proto_task) async" where
  "add_task_async D task =
     proc_bind (persist_task_async D task) (\<lambda>_.
       with_task D (ti_id (vt_task_info task)) (\<lambda>a task.
         proc_bind (access (send_updates D task)) (\<lambda>_. return (format_task task None None))))"

fun formatted_list_async ::
    "('r, 'tx) deps \<Rightarrow> bytes option \<Rightarrow> uuid list \<Rightarrow> ('r, 'tx, proto_task list) async" where
  "formatted_list_async D device_id [] = return []"
| "formatted_list_async D device_id (task_id # task_ids) =
     proc_bind (with_task D task_id (\<lambda>a task. return (format_task task device_id None))) (\<lambda>view.
       proc_bind (formatted_list_async D device_id task_ids) (\<lambda>views. return (view # views)))"

definition active_device_tasks_async :: "('r, 'tx) deps \<Rightarrow> bytes \<Rightarrow> ('r, 'tx, proto_task list) async" where
  "active_device_tasks_async D device_id =
     proc_bind (access (call_repo (repo_get_active_device_tasks (dp_repo D) device_id)))
       (formatted_list_async D (Some device_id))"

definition formatted_tasks_async :: "('r, 'tx) deps \<Rightarrow> ('r, 'tx, proto_task list) async" where
  "formatted_tasks_async D =
     proc_bind (access (call_repo (repo_get_tasks (dp_repo D)))) (formatted_list_async D None)"

definition formatted_task_async :: "('r, 'tx) deps \<Rightarrow> uuid \<Rightarrow> bytes option \<Rightarrow> ('r, 'tx, proto_task) async" where
  "formatted_task_async D task_id device_id =
     with_task D task_id (\<lambda>a task. return (format_task task device_id (Some (ti_request (get_task_info task)))))"

text \<open>A method of the running task under the guard: its changes stay whatever it returns.\<close>

definition run_arc ::
    "nat \<Rightarrow> running_task \<Rightarrow> (running_task \<times> world, 'a) eff \<Rightarrow> ('r, 'tx, 'a) async" where
  "run_arc a rt f = step_of (\<lambda>c.
     case f (rt, ss_world (sh_server c)) of (r, rt', w) \<Rightarrow>
       (r, c\<lparr>sh_tasks := (sh_tasks c)(a := Running_Task rt'), sh_server := (sh_server c)\<lparr>ss_world := w\<rparr>\<rparr>))"

definition send_arc :: "('r, 'tx) deps \<Rightarrow> nat \<Rightarrow> ('r, 'tx, unit) async" where
  "send_arc D a = proc_bind (read_arc a) (\<lambda>task. access (send_updates D task))"

definition fail_task_async :: "('r, 'tx) deps \<Rightarrow> uuid \<Rightarrow> nat \<Rightarrow> failed_task \<Rightarrow> ('r, 'tx, unit) async" where
  "fail_task_async D task_id a task =
     proc_bind (access (call_repo (repo_set_task_result (dp_repo D) task_id (Inl (xt_reason task))))) (\<lambda>_.
     proc_bind (write_arc a (Failed_Task task)) (\<lambda>_.
       access (send_updates D (Failed_Task task))))"

definition finish_task_async ::
    "('r, 'tx) deps \<Rightarrow> uuid \<Rightarrow> nat \<Rightarrow> u16 \<Rightarrow> finished_task \<Rightarrow> ('r, 'tx, unit) async" where
  "finish_task_async D task_id a round task =
     proc_bind (access (call_repo (repo_set_task_round (dp_repo D) task_id round))) (\<lambda>_.
     proc_bind (case ft_result task of
         GroupEstablished grp \<Rightarrow>
           proc_bind (access (call_repo (repo_add_group (dp_repo D) (grp_id grp) task_id (grp_name grp)
               (grp_threshold grp) (grp_protocol grp) (grp_key_type grp) (grp_certificate grp)
               (grp_note grp))))
             (\<lambda>_. return ())
       | _ \<Rightarrow> return ()) (\<lambda>_.
     proc_bind (access (call_repo (repo_set_task_result (dp_repo D) task_id (Inr (as_bytes (ft_result task)))))) (\<lambda>_.
     proc_bind (write_arc a (Finished_Task task)) (\<lambda>_.
       access (send_updates D (Finished_Task task))))))"

definition apply_round_update_async ::
    "('r, 'tx) deps \<Rightarrow> uuid \<Rightarrow> nat \<Rightarrow> round_update \<Rightarrow> ('r, 'tx, unit) async" where
  "apply_round_update_async D task_id a update =
     (case update of
        Listen \<Rightarrow> return ()
      | GroupCertificatesSent \<Rightarrow> Ret (Inl Panic)
      | NextRound round \<Rightarrow>
          proc_bind (access (call_repo (repo_set_task_round (dp_repo D) task_id round))) (\<lambda>_. send_arc D a)
      | Round_Failed task \<Rightarrow> fail_task_async D task_id a task
      | Round_Finished round task \<Rightarrow> finish_task_async D task_id a round task)"

definition update_task_async ::
    "('r, 'tx) deps \<Rightarrow> uuid \<Rightarrow> bytes \<Rightarrow> client_message list \<Rightarrow> u32 \<Rightarrow> ('r, 'tx, unit) async" where
  "update_task_async D task_id device data attempt =
     with_task D task_id (\<lambda>a entry.
       case entry of
         Running_Task rt \<Rightarrow>
           proc_bind (access (set_task_last_update D task_id)) (\<lambda>_.
             if attempt \<noteq> ti_attempts (running_task_info rt)
             then Ret (Inl (protocol_error ''Stale update''))
             else proc_bind (run_arc a rt (running_task_update (dp_env D) device data))
               (apply_round_update_async D task_id a))
       | _ \<Rightarrow> Ret (Inl (protocol_error ''Cannot update non-running task'')))"

fun connected_async ::
    "('r, 'tx) deps \<Rightarrow> u64 \<Rightarrow> participant list \<Rightarrow> ('r, 'tx, participant list) async" where
  "connected_async D latest_acceptable_time [] = return []"
| "connected_async D latest_acceptable_time (p # ps) =
     proc_bind (access (get_device_last_activation D (part_id p))) (\<lambda>last_active_time.
       proc_bind (connected_async D latest_acceptable_time ps) (\<lambda>rest.
         return (if last_active_time > latest_acceptable_time then p # rest else rest)))"

definition choose_active_async ::
    "('r, 'tx) deps \<Rightarrow> voting_task \<Rightarrow> ('r, 'tx, (u32, device) hashmap) async" where
  "choose_active_async D task =
     (let accepting = filter (\<lambda>p. device_accepted task (part_id p)) (ti_participants (vt_task_info task))
      in proc_bind (access (get_timestamp D)) (\<lambda>now.
         proc_bind (connected_async D (now - 5) accepting) (\<lambda>connected.
         let candidates = (if sum_list (map part_shares connected) \<ge> vt_accept_threshold task
               then connected else accepting)
         in proc_bind (access (env_call (\<lambda>n. choose_multiple (dp_env D) n (share_devices candidates)
                (unat (vt_accept_threshold task))))) (\<lambda>chosen_devices.
            proc_bind (access (call_repo (repo_set_task_active_shares (dp_repo D) (ti_id (vt_task_info task))
                (count_shares chosen_devices)))) (\<lambda>_.
              Ret (index_shares (ti_participants (vt_task_info task)) chosen_devices))))))"

definition apply_start_async ::
    "('r, 'tx) deps \<Rightarrow> uuid \<Rightarrow> nat \<Rightarrow> round_update \<Rightarrow> running_task \<Rightarrow> ('r, 'tx, unit) async" where
  "apply_start_async D task_id a update rt =
     (case update of
        Listen \<Rightarrow> Ret (Inl Panic)
      | Round_Finished _ _ \<Rightarrow> Ret (Inl Panic)
      | GroupCertificatesSent \<Rightarrow>
          proc_bind (access (call_repo (repo_set_task_group_certificates_sent (dp_repo D) task_id (Some True)))) (\<lambda>_.
          proc_bind (write_arc a (Running_Task rt)) (\<lambda>_. access (send_updates D (Running_Task rt))))
      | NextRound round \<Rightarrow>
          proc_bind (access (call_repo (repo_set_task_round (dp_repo D) task_id round))) (\<lambda>_.
          proc_bind (write_arc a (Running_Task rt)) (\<lambda>_. access (send_updates D (Running_Task rt))))
      | Round_Failed failed \<Rightarrow> fail_task_async D task_id a failed)"

definition start_accepted_async ::
    "('r, 'tx) deps \<Rightarrow> uuid \<Rightarrow> nat \<Rightarrow> voting_task \<Rightarrow> ('r, 'tx, unit) async" where
  "start_accepted_async D task_id a task =
     proc_bind (choose_active_async D task) (\<lambda>active_shares.
     proc_bind (Ret (create_running_task (vt_running_task_context task) task active_shares)) (\<lambda>rt.
     proc_bind (access (run_local rt (running_task_initialize (dp_env D)))) (\<lambda>(update, rt).
       apply_start_async D task_id a update rt)))"

definition apply_decision_async ::
    "('r, 'tx) deps \<Rightarrow> uuid \<Rightarrow> nat \<Rightarrow> voting_task \<Rightarrow> decision_update \<Rightarrow> ('r, 'tx, unit) async" where
  "apply_decision_async D task_id a task decision_update =
     (case decision_update of
        Undecided \<Rightarrow> access (send_updates D (Voting_Task task))
      | Accepted \<Rightarrow> start_accepted_async D task_id a task
      | Decision_Declined declined \<Rightarrow>
          proc_bind (access (call_repo (repo_set_task_result (dp_repo D) task_id (Inl ''Task declined'')))) (\<lambda>_.
          proc_bind (write_arc a (Declined_Task declined)) (\<lambda>_.
            access (send_updates D (Declined_Task declined)))))"

definition decide_task_async ::
    "('r, 'tx) deps \<Rightarrow> uuid \<Rightarrow> bytes \<Rightarrow> bool \<Rightarrow> ('r, 'tx, unit) async" where
  "decide_task_async D task_id device_id accept =
     with_task D task_id (\<lambda>a entry.
       case entry of
         Voting_Task task \<Rightarrow>
           proc_bind (access (set_task_last_update D task_id)) (\<lambda>_.
             case decide task device_id accept of (r, task) \<Rightarrow>
               proc_bind (write_arc a (Voting_Task task)) (\<lambda>_.
               proc_bind (Ret r) (\<lambda>decision_update.
               proc_bind (access (call_repo (repo_set_task_decision (dp_repo D) task_id device_id accept))) (\<lambda>_.
                 apply_decision_async D task_id a task decision_update))))
       | _ \<Rightarrow> Ret (Inl (protocol_error ''Cannot decide non-voting task'')))"

definition acknowledge_task_async :: "('r, 'tx) deps \<Rightarrow> uuid \<Rightarrow> bytes \<Rightarrow> ('r, 'tx, unit) async" where
  "acknowledge_task_async D task_id device =
     with_task D task_id (\<lambda>a entry.
       case entry of
         Finished_Task task \<Rightarrow>
           proc_bind (write_arc a (Finished_Task (acknowledge task device))) (\<lambda>_.
             access (call_repo (repo_set_task_acknowledgement (dp_repo D) task_id device)))
       | _ \<Rightarrow> Ret (Inl (protocol_error ''Cannot acknowledge unfinished task'')))"

definition apply_restart_async ::
    "('r, 'tx) deps \<Rightarrow> uuid \<Rightarrow> nat \<Rightarrow> round_update \<Rightarrow> ('r, 'tx, unit) async" where
  "apply_restart_async D task_id a update =
     (case update of
        Listen \<Rightarrow> Ret (Inl Panic)
      | Round_Finished _ _ \<Rightarrow> Ret (Inl Panic)
      | GroupCertificatesSent \<Rightarrow>
          proc_bind (access (call_repo (repo_set_task_group_certificates_sent (dp_repo D) task_id (Some True))))
            (\<lambda>_. send_arc D a)
      | NextRound round \<Rightarrow>
          proc_bind (access (call_repo (repo_set_task_round (dp_repo D) task_id round))) (\<lambda>_. send_arc D a)
      | Round_Failed failed \<Rightarrow> fail_task_async D task_id a failed)"

definition restart_task_async :: "('r, 'tx) deps \<Rightarrow> uuid \<Rightarrow> ('r, 'tx, unit) async" where
  "restart_task_async D entry_id =
     with_task D entry_id (\<lambda>a entry.
       case entry of
         Running_Task rt \<Rightarrow>
           let task_id = ti_id (running_task_info rt)
           in proc_bind (access (set_task_last_update D task_id)) (\<lambda>_.
              proc_bind (access (call_repo (repo_increment_task_attempt_count (dp_repo D) task_id))) (\<lambda>_.
              proc_bind (run_arc a rt (running_task_restart (dp_env D)))
                (apply_restart_async D task_id a)))
       | _ \<Rightarrow> Ret (Inl (inconsistent ''non-running task in candidates for restart'')))"

fun restart_all_async :: "('r, 'tx) deps \<Rightarrow> uuid list \<Rightarrow> ('r, 'tx, unit) async" where
  "restart_all_async D [] = return ()"
| "restart_all_async D (task_id # task_ids) =
     proc_bind (restart_task_async D task_id) (\<lambda>_. restart_all_async D task_ids)"

fun stale_tasks_async :: "('r, 'tx) deps \<Rightarrow> u64 \<Rightarrow> uuid list \<Rightarrow> ('r, 'tx, uuid list) async" where
  "stale_tasks_async D now [] = return []"
| "stale_tasks_async D now (task_id # task_ids) =
     proc_bind (access (get_task_last_update D task_id)) (\<lambda>last_update.
       proc_bind (stale_tasks_async D now task_ids) (\<lambda>rest.
         return (if is_stale now last_update then task_id # rest else rest)))"

definition restart_stale_async :: "('r, 'tx) deps \<Rightarrow> ('r, 'tx, unit) async" where
  "restart_stale_async D =
     proc_bind (access (get_timestamp D)) (\<lambda>now.
     proc_bind (access (call_repo (repo_get_restart_candidates (dp_repo D)))) (\<lambda>candidates.
     proc_bind (stale_tasks_async D now candidates) (restart_all_async D)))"

end
