(* ===== verification/Concurrent_Refinement.thy ===== *)
theory Concurrent_Refinement
  imports Concurrent_Server
begin

text \<open>
  A handler that runs alone does what the handler of the other theories does, which runs to its end without
  another in between: the shared cache of \<^verbatim>\<open>Arc\<close>s refines the map of tasks.
\<close>

section \<open>The cache as a map of tasks\<close>

definition server_view :: "('r, 'tx) shared \<Rightarrow> ('r, 'tx) server_state" where
  "server_view c = (sh_server c)\<lparr>cs_task_cache := (\<lambda>i. map_option (sh_tasks c) (sh_arcs c i))\<rparr>"

definition arcs_ok :: "('r, 'tx) shared \<Rightarrow> bool" where
  "arcs_ok c = ((\<forall>i a. sh_arcs c i = Some a \<longrightarrow> a < sh_next c) \<and>
     (\<forall>i j a. sh_arcs c i = Some a \<longrightarrow> sh_arcs c j = Some a \<longrightarrow> i = j))"

text \<open>No handler holds a clone, or this one holds the one of \<^verbatim>\<open>i\<close>.\<close>

definition held :: "(uuid \<times> nat) option \<Rightarrow> ('r, 'tx) shared \<Rightarrow> bool" where
  "held h c = (arcs_ok c \<and> (case h of
       None \<Rightarrow> sh_clones c = (\<lambda>_. 0)
     | Some (i, a) \<Rightarrow> sh_clones c = (\<lambda>_. 0)(a := 1) \<and> sh_arcs c i = Some a))"

definition implements :: "(('r, 'tx) shared \<Rightarrow> bool) \<Rightarrow> ('r, 'tx, 'a) async \<Rightarrow> ('r, 'tx, 'a) handler \<Rightarrow> bool" where
  "implements I p m = (\<forall>c r c'. I c \<longrightarrow> run_alone p c = (r, c') \<longrightarrow> I c' \<and> m (server_view c) = (r, server_view c'))"

named_theorems impl_intros \<open>processes that implement handlers\<close>

lemma impl_ret [impl_intros]:
  "implements I (return x) (eff_return x)" "implements I (Ret (Inl e)) (eff_fail e)" "implements I (Ret r) (eff_lift r)"
  by (simp_all add: implements_def eff_defs)

lemma impl_bind [impl_intros]:
  assumes "implements I p m" "\<And>x. implements I (f x) (g x)"
  shows "implements I (proc_bind p f) (eff_bind m g)"
  unfolding implements_def run_bind
proof (intro allI impI)
  fix c r c' assume c: "I c" "eff_bind (run_alone p) (\<lambda>x. run_alone (f x)) c = (r, c')"
  obtain q d where d: "run_alone p c = (q, d)" by fastforce
  with assms(1) c(1) have p: "I d" "m (server_view c) = (q, server_view d)" by (auto simp: implements_def)
  with assms(2) c(2) d show "I c' \<and> eff_bind m g (server_view c) = (r, server_view c')"
    by (cases q) (auto simp: eff_bind_def implements_def)
qed

section \<open>Effects that do not look at the cache\<close>

definition cache_blind :: "('r, 'tx, 'a) handler \<Rightarrow> bool" where
  "cache_blind m = (\<forall>s f. m (s\<lparr>cs_task_cache := f\<rparr>) = apsnd (\<lambda>s'. s'\<lparr>cs_task_cache := f\<rparr>) (m s))"

named_theorems blind_intros \<open>effects that do not look at the cache\<close>

lemma blind_bind [blind_intros]:
  assumes "cache_blind m" "\<And>x. cache_blind (g x)"
  shows "cache_blind (eff_bind m g)"
  using assms by (auto simp: cache_blind_def eff_bind_def apsnd_def split: prod.splits sum.splits)

lemma blind_pure [blind_intros]:
  "cache_blind (eff_return x)" "cache_blind (eff_fail e)" "cache_blind (eff_lift r)"
  by (simp_all add: cache_blind_def eff_defs)

lemma blind_call_repo [blind_intros]: "cache_blind (call_repo f)"
  by (auto simp: cache_blind_def call_repo_def split: prod.splits)

lemma blind_modify:
  "(\<And>s f. h (s\<lparr>cs_task_cache := f\<rparr>) = (h s)\<lparr>cs_task_cache := f\<rparr>) \<Longrightarrow> cache_blind (eff_modify h)"
  by (simp add: cache_blind_def eff_modify_def)

lemma blind_env_call [blind_intros]: "cache_blind (env_call f)"
  by (auto simp: cache_blind_def env_call_def split: prod.splits)

lemma blind_get_timestamp [blind_intros]: "cache_blind (get_timestamp D)"
  unfolding get_timestamp_def by (rule blind_env_call)

lemma blind_last_update [blind_intros]:
  "cache_blind (set_task_last_update D i)" "cache_blind (get_task_last_update D i)"
  unfolding set_task_last_update_def get_task_last_update_def
  by (intro blind_intros blind_modify; simp) (intro blind_intros, auto simp: cache_blind_def split: option.splits)

lemma blind_device_last_activation [blind_intros]: "cache_blind (get_device_last_activation D d)"
  unfolding get_device_last_activation_def
  by (intro blind_intros) (auto simp: cache_blind_def split: option.splits)

lemma blind_send_updates [blind_intros]: "cache_blind (send_updates D task)"
  unfolding send_updates_def by (intro blind_modify) (auto split: prod.splits)

lemma blind_run_local [blind_intros]: "cache_blind (run_local rt f)"
  by (auto simp: cache_blind_def run_local_def split: prod.splits)

lemma blind_hydrate_communicator [blind_intros]: "cache_blind (hydrate_communicator R model ps)"
  unfolding hydrate_communicator_def Let_def by (intro blind_intros)

lemma blind_task_from_model [blind_intros]: "cache_blind (task_from_model R ti model)"
  unfolding task_from_model_def store_group_task_from_model_def threshold_task_from_model_def Let_def
  by (auto intro!: blind_intros split: option.splits sum.splits prod.splits task_type.splits)

lemma blind_hydrate_models [blind_intros]: "cache_blind (hydrate_models R models m)"
  by (induction models arbitrary: m) (auto intro!: blind_intros split: option.splits)

lemma blind_hydrate_tasks [blind_intros]: "cache_blind (hydrate_tasks R ids)"
  unfolding hydrate_tasks_def by (auto intro!: blind_intros)

lemma blind_create_record [blind_intros]: "cache_blind (create_record R task)"
  unfolding create_record_def persist_group_task_def persist_threshold_task_def Let_def
  by (auto intro!: blind_intros split: running_task_context.splits)

lemma held_server [simp]: "held h (c\<lparr>sh_server := s\<rparr>) = held h c"
  by (simp add: held_def arcs_ok_def split: option.splits)

lemma impl_access [impl_intros]:
  assumes "cache_blind m"
  shows "implements (held h) (access m) m"
proof -
  have "m (server_view c) = apsnd (\<lambda>s'. s'\<lparr>cs_task_cache := (\<lambda>i. map_option (sh_tasks c) (sh_arcs c i))\<rparr>) (m (sh_server c))" for c
    using assms by (simp add: cache_blind_def server_view_def)
  then show ?thesis
    by (auto simp: implements_def on_server_def server_view_def split: prod.splits)
qed

section \<open>The task store\<close>

lemma held_idleD: "held None c \<Longrightarrow> arcs_ok c" "held None c \<Longrightarrow> sh_clones c a = 0"
  by (simp_all add: held_def)

lemma arcs_ok_new_arc: "arcs_ok c \<Longrightarrow> arcs_ok (new_arc i t c)"
  unfolding arcs_ok_def new_arc_def by (auto simp: less_Suc_eq)

lemma held_new_arc: "held None c \<Longrightarrow> held None (new_arc i t c)"
  using arcs_ok_new_arc[of c] by (simp add: held_def new_arc_def)

lemma view_new_arc:
  assumes "arcs_ok c"
  shows "server_view (new_arc i t c) = (server_view c)\<lparr>cs_task_cache := (cs_task_cache (server_view c))(i \<mapsto> t)\<rparr>"
proof -
  have "sh_arcs c j \<noteq> Some (sh_next c)" for j using assms by (auto simp: arcs_ok_def)
  then show ?thesis by (auto simp: server_view_def new_arc_def fun_eq_iff map_option_case split: option.splits)
qed

lemma cached_view [simp]: "cs_task_cache (server_view c) i = map_option (sh_tasks c) (sh_arcs c i)"
  by (simp add: server_view_def)

lemma impl_insert_vacant [impl_intros]: "implements (held None) (step_of (insert_vacant t)) (cache_vacant t)"
  by (auto simp: implements_def insert_vacant_def cache_vacant_def eff_modify_def Let_def held_new_arc view_new_arc held_idleD
      split: if_splits)

lemma impl_insert_all [impl_intros]: "implements (held None) (insert_all_vacant ts) (cache_all ts)"
  by (induction ts) (auto intro!: impl_intros)

lemma impl_gets: "(\<And>c. g c = h (server_view c)) \<Longrightarrow> implements I (step_of (eff_gets g)) (eff_gets h)"
  by (simp add: implements_def eff_gets_def)

lemma impl_ensure_cached [impl_intros]:
  "implements (held None) (ensure_cached_async D ids) (ensure_cached_tasks (dp_repo D) ids)"
  unfolding ensure_cached_async_def ensure_cached_tasks_def by (intro impl_intros blind_intros impl_gets) simp

lemma persist_task_alt:
  "persist_task R task = eff_bind (create_record R task) (\<lambda>_.
     eff_bind (eff_gets (\<lambda>s. cs_task_cache s (ti_id (vt_task_info task)))) (\<lambda>evicted_task.
       eff_bind (put_task (ti_id (vt_task_info task)) (Voting_Task task)) (\<lambda>_. eff_return evicted_task)))"
  by (simp add: persist_task_def create_record_def Let_def)

lemma impl_persist [impl_intros]: "implements (held None) (persist_task_async D task) (persist_task (dp_repo D) task)"
  unfolding persist_task_async_def persist_task_alt
proof (intro impl_intros blind_intros)
  show "implements (held None) (step_of (insert_arc (ti_id (vt_task_info task)) (Voting_Task task)))
     (eff_bind (eff_gets (\<lambda>s. cs_task_cache s (ti_id (vt_task_info task)))) (\<lambda>evicted_task.
       eff_bind (put_task (ti_id (vt_task_info task)) (Voting_Task task)) (\<lambda>_. eff_return evicted_task)))"
    by (auto simp: implements_def insert_arc_def eff_bind_def eff_defs put_task_def held_new_arc view_new_arc held_idleD
        split: option.splits if_splits)
qed

text \<open>Under the guard: the process holds the only clone, and gives it back.\<close>

lemma run_guarded:
  "run_alone (guarded a p) c = (case run_alone p c of (r, c') \<Rightarrow> (r, drop_arc a c'))"
  by (auto simp: guarded_def run_then split: prod.splits)

lemma impl_with_task [impl_intros]:
  assumes "\<And>a t. implements (held (Some (task_id, a))) (body a t) (g t)"
  shows "implements (held None) (with_task D task_id body) (eff_bind (get_task (dp_env D) (dp_repo D) task_id) g)"
proof -
  define p where "p = proc_bind (step_of (clone_arc D task_id)) (\<lambda>a. guarded a (proc_bind (read_arc a) (body a)))"
  define m where "m = eff_bind (eff_bind (eff_gets (\<lambda>s. cs_task_cache s task_id)) (\<lambda>found. case found of
      None \<Rightarrow> eff_fail (protocol_error (''Task with ID '' @ uuid_display (dp_env D) task_id @ '' not found''))
    | Some task \<Rightarrow> eff_return task)) g"
  have "implements (held None) p m"
    unfolding implements_def
  proof (intro allI impI)
    fix c r c' assume c: "held None c" "run_alone p c = (r, c')"
    show "held None c' \<and> m (server_view c) = (r, server_view c')"
    proof (cases "sh_arcs c task_id")
      case None
      with c show ?thesis by (auto simp: p_def m_def clone_arc_def eff_bind_def eff_defs)
    next
      case (Some a)
      define d where "d = c\<lparr>sh_clones := (sh_clones c)(a := Suc (sh_clones c a))\<rparr>"
      have d: "held (Some (task_id, a)) d" "server_view d = server_view c"
        using c(1) Some by (auto simp: d_def held_def arcs_ok_def server_view_def)
      obtain q e where e: "run_alone (body a (sh_tasks c a)) d = (q, e)" by fastforce
      have b: "held (Some (task_id, a)) e" "g (sh_tasks c a) (server_view c) = (q, server_view e)"
        using assms[of a "sh_tasks c a"] d e by (auto simp: implements_def)
      have "run_alone p c = (q, drop_arc a e)"
        using Some e by (simp add: p_def clone_arc_def eff_bind_def run_guarded read_arc_def eff_defs d_def[symmetric])
          (simp add: d_def)
      moreover have "held None (drop_arc a e)" "server_view (drop_arc a e) = server_view e"
        using b(1) by (auto simp: held_def drop_arc_def arcs_ok_def server_view_def fun_eq_iff)
      ultimately show ?thesis using b(2) c(2) Some by (simp add: m_def eff_bind_def eff_defs)
    qed
  qed
  then show ?thesis
    unfolding with_task_def get_task_def eff_bind_assoc p_def m_def by (intro impl_bind[OF impl_ensure_cached])
qed

lemma held_write [simp]: "held h (c\<lparr>sh_tasks := ts\<rparr>) = held h c"
  by (simp add: held_def arcs_ok_def split: option.splits)

lemma cache_write:
  assumes "held (Some (i, a)) c"
  shows "(\<lambda>j. map_option ((sh_tasks c)(a := t)) (sh_arcs c j)) = (\<lambda>j. map_option (sh_tasks c) (sh_arcs c j))(i \<mapsto> t)"
proof
  fix j
  have "sh_arcs c i = Some a" "sh_arcs c j = Some a \<Longrightarrow> j = i" using assms by (auto simp: held_def arcs_ok_def)
  then show "map_option ((sh_tasks c)(a := t)) (sh_arcs c j) = ((\<lambda>j. map_option (sh_tasks c) (sh_arcs c j))(i \<mapsto> t)) j"
    by (cases "sh_arcs c j") auto
qed

lemma impl_write_arc [impl_intros]: "implements (held (Some (i, a))) (write_arc a t) (put_task i t)"
  by (auto simp: implements_def write_arc_def put_task_def eff_modify_def server_view_def cache_write simp del: fun_upd_apply)

lemma impl_run_arc [impl_intros]: "implements (held (Some (i, a))) (run_arc a rt f) (run_cached i rt f)"
  by (auto simp: implements_def run_arc_def run_cached_def server_view_def cache_write simp del: fun_upd_apply split: prod.splits)

lemma impl_send_arc [impl_intros]: "implements (held (Some (i, a))) (send_arc D a) (send_cached D i)"
proof -
  have "run_alone (send_arc D a) c = run_alone (access (send_updates D (sh_tasks c a))) c" for c
    by (simp add: send_arc_def read_arc_def eff_bind_def eff_gets_def)
  moreover have "send_cached D i (server_view c) = send_updates D (sh_tasks c a) (server_view c)" if "held (Some (i, a)) c" for c
    using that by (simp add: send_cached_def eff_bind_def eff_gets_def held_def)
  moreover have "implements (held (Some (i, a))) (access (send_updates D t)) (send_updates D t)" for t
    by (intro impl_access blind_send_updates)
  ultimately show ?thesis unfolding implements_def by presburger
qed

section \<open>The handlers\<close>

lemma impl_add_task [impl_intros]: "implements (held None) (add_task_async D task) (add_task D task)"
  unfolding add_task_async_def add_task_def Let_def by (intro impl_intros blind_intros)

text \<open>In the loop over the tasks the guard of each is dropped before the next.\<close>

lemma get_formatted_list_alt:
  "get_formatted_list D device_id (task_id # task_ids) =
     eff_bind (eff_bind (get_task (dp_env D) (dp_repo D) task_id) (\<lambda>task. eff_return (format_task task device_id None))) (\<lambda>view.
       eff_bind (get_formatted_list D device_id task_ids) (\<lambda>views. eff_return (view # views)))"
  by (simp add: eff_bind_assoc)

lemma impl_formatted_list [impl_intros]:
  "implements (held None) (formatted_list_async D device_id ids) (get_formatted_list D device_id ids)"
  by (induction ids) (auto simp: get_formatted_list_alt simp del: get_formatted_list.simps(2) intro!: impl_intros)

lemma impl_readers:
  "implements (held None) (active_device_tasks_async D d) (get_formatted_active_device_tasks D d)"
  "implements (held None) (formatted_tasks_async D) (get_formatted_tasks D)"
  "implements (held None) (formatted_task_async D i dev) (get_formatted_task D i dev)"
  unfolding active_device_tasks_async_def get_formatted_active_device_tasks_def formatted_tasks_async_def
    get_formatted_tasks_def formatted_task_async_def get_formatted_task_def
  by (intro impl_intros blind_intros)+

lemma impl_fail_task [impl_intros]:
  "implements (held (Some (i, a))) (fail_task_async D j a t) (eff_bind (call_repo (repo_set_task_result (dp_repo D) j (Inl (xt_reason t))))
     (\<lambda>_. eff_bind (put_task i (Failed_Task t)) (\<lambda>_. send_updates D (Failed_Task t))))"
  unfolding fail_task_async_def by (intro impl_intros blind_intros)

lemma impl_finish_task [impl_intros]:
  "implements (held (Some (i, a))) (finish_task_async D i a round t) (finish_task D i round t)"
  unfolding finish_task_async_def finish_task_def
  by (cases "ft_result t"; simp only: task_result.case; intro impl_intros blind_intros)

lemma impl_round_update [impl_intros]:
  "implements (held (Some (i, a))) (apply_round_update_async D i a u) (apply_round_update D i u)"
  unfolding apply_round_update_async_def apply_round_update_def fail_task_def
  by (cases u) (simp_all only: round_update.case, (intro impl_intros blind_intros)+)

lemma impl_update_task: "implements (held None) (update_task_async D i d data n) (update_task D i d data n)"
  unfolding update_task_async_def update_task_def
  by (intro impl_with_task, split task.split) (auto intro!: impl_intros blind_intros)

lemma impl_connected [impl_intros]:
  "implements (held h) (connected_async D now ps) (connected_participants D now ps)"
  by (induction ps) (auto intro!: impl_intros blind_intros)

lemma impl_choose [impl_intros]: "implements (held h) (choose_active_async D t) (choose_active_shares D t)"
  unfolding choose_active_async_def choose_active_shares_def Let_def by (intro impl_intros blind_intros)

lemma impl_start_update [impl_intros]:
  "implements (held (Some (i, a))) (apply_start_async D i a u rt) (apply_start_update D i u rt)"
  unfolding apply_start_async_def apply_start_update_def fail_task_def
  by (cases u) (simp_all only: round_update.case, (intro impl_intros blind_intros)+)

lemma impl_decision [impl_intros]:
  "implements (held (Some (i, a))) (apply_decision_async D i a t u) (apply_decision D i t u)"
  unfolding apply_decision_async_def apply_decision_def start_accepted_async_def start_accepted_task_def
  by (cases u) (auto intro!: impl_intros blind_intros)

lemma impl_decide_task: "implements (held None) (decide_task_async D i d accept) (decide_task D i d accept)"
  unfolding decide_task_async_def decide_task_def
  by (intro impl_with_task, split task.split) (auto intro!: impl_intros blind_intros split: prod.split)

lemma impl_acknowledge_task: "implements (held None) (acknowledge_task_async D i d) (acknowledge_task D i d)"
  unfolding acknowledge_task_async_def acknowledge_task_def
  by (intro impl_with_task, split task.split) (auto intro!: impl_intros blind_intros)

lemma impl_restart_update [impl_intros]:
  "implements (held (Some (i, a))) (apply_restart_async D j a u) (apply_restart_update D i j u)"
  unfolding apply_restart_async_def apply_restart_update_def
  by (cases u) (simp_all only: round_update.case, (intro impl_intros blind_intros)+)

lemma impl_restart_task [impl_intros]: "implements (held None) (restart_task_async D i) (restart_task D i)"
  unfolding restart_task_async_def restart_task_def Let_def
  by (intro impl_with_task, split task.split) (auto intro!: impl_intros blind_intros)

lemma impl_restart_all [impl_intros]: "implements (held None) (restart_all_async D ids) (restart_all D ids)"
  by (induction ids) (auto intro!: impl_intros)

lemma impl_stale_tasks [impl_intros]: "implements (held h) (stale_tasks_async D now ids) (stale_tasks D now ids)"
  by (induction ids) (auto intro!: impl_intros blind_intros)

lemma impl_restart_stale: "implements (held None) (restart_stale_async D) (restart_stale_tasks D)"
  unfolding restart_stale_async_def restart_stale_tasks_def by (intro impl_intros blind_intros)

lemma implementsD:
  "implements (held None) p m \<Longrightarrow> held None c \<Longrightarrow> map_prod id server_view (run_alone p c) = m (server_view c)"
  by (cases "run_alone p c") (auto simp: implements_def)

section \<open>Properties\<close>

text \<open>A server with one task in the shared cache.\<close>

definition sample_shared :: "(unit, sample_tx) server_state \<Rightarrow> task \<Rightarrow> (unit, sample_tx) shared" where
  "sample_shared s t = \<lparr>sh_arcs = [replicate 16 1 \<mapsto> 0], sh_tasks = (\<lambda>_. t), sh_next = 1, sh_clones = (\<lambda>_. 0), sh_server = s\<rparr>"

lemma sample_shared_ok: "arcs_ok (sample_shared s t)" "held None (sample_shared s t)"
  by (auto simp: held_def arcs_ok_def sample_shared_def split: if_splits)



end
