(* ===== verification/Interleavings.thy ===== *)
theory Interleavings
  imports Concurrent_Refinement
begin

text \<open>
  Handlers that run at the same time: in every interleaving a cached task is changed only by the handler that holds its guard, it
  evolves step by step as in the sequential model, and every handler comes to its end.
\<close>

section \<open>Tasks as shared objects\<close>

text \<open>
  The objects are the tasks behind the \<^verbatim>\<open>Arc\<close>s; the cache keeps the \<^verbatim>\<open>Arc\<close> of every identifier but those
  in \<^verbatim>\<open>N\<close>, which new tasks may have.
\<close>

definition task_objects :: "uuid set \<Rightarrow> (('r, 'tx) shared, task) objects" where
  "task_objects N = \<lparr>cell = sh_tasks, next_obj = sh_next, may_become = evolves, state_ok = arcs_ok,
     keeps = (\<lambda>c c'. \<forall>i a. i \<notin> N \<longrightarrow> sh_arcs c i = Some a \<longrightarrow> sh_arcs c' i = Some a)\<rparr>"

lemma task_objects_simps [simp]:
  "cell (task_objects N) = sh_tasks" "next_obj (task_objects N) = sh_next" "may_become (task_objects N) = evolves"
  "state_ok (task_objects N) = arcs_ok"
  "keeps (task_objects N) c c' = (\<forall>i a. i \<notin> N \<longrightarrow> sh_arcs c i = Some a \<longrightarrow> sh_arcs c' i = Some a)"
  by (simp_all add: task_objects_def)

interpretation tasks: evolving_objects "task_objects N" for N
  by unfold_locales (auto intro: evolves_trans)

lemma arcs_ok_frame [simp]:
  "arcs_ok (c\<lparr>sh_server := s\<rparr>) = arcs_ok c" "arcs_ok (c\<lparr>sh_tasks := ts\<rparr>) = arcs_ok c" "arcs_ok (c\<lparr>sh_clones := n\<rparr>) = arcs_ok c"
  by (simp_all add: arcs_ok_def)

section \<open>Rules for the handlers\<close>

text \<open>A process that leaves the objects it has locked as they are, and one that holds no lock at its beginning and end.\<close>

definition sound_keep :: "uuid set \<Rightarrow> ('r, 'tx, 'a) async \<Rightarrow> bool" where
  "sound_keep N p = (\<forall>n K. sound (task_objects N) p n K (\<lambda>r n' K'. K' = K))"

definition sound_idle :: "uuid set \<Rightarrow> ('r, 'tx, 'a) async \<Rightarrow> bool" where
  "sound_idle N p = (\<forall>n. sound (task_objects N) p n Map.empty released)"

definition sound_under :: "uuid set \<Rightarrow> nat \<Rightarrow> task \<Rightarrow> ('r, 'tx, 'a) async \<Rightarrow> bool" where
  "sound_under N a v p = (\<forall>n. sound (task_objects N) p n [a \<mapsto> v] (\<lambda>r n' K'. dom K' = {a}))"

named_theorems sound_intros \<open>processes that are sound\<close>

lemma sound_bind:
  assumes "sound ob p n K (\<lambda>r n K. case r of Inl e \<Rightarrow> Q (Inl e) n K | Inr x \<Rightarrow> sound ob (f x) n K Q)"
  shows "sound ob (proc_bind p f) n K Q"
  unfolding proc_bind_def by (rule sound_then, rule sound_post[OF assms]) (auto split: sum.splits)

lemma keep_at:
  assumes "sound_keep N p" "\<And>r n'. n \<le> n' \<Longrightarrow> Q r n' K"
  shows "sound (task_objects N) p n K Q"
proof (rule sound_post)
  show "sound (task_objects N) p n K (\<lambda>r n' K'. K' = K)" using assms(1) by (simp add: sound_keep_def)
qed (use assms(2) in simp)

lemma keep_bind [sound_intros]:
  assumes "sound_keep N p" "\<And>x. sound_keep N (f x)"
  shows "sound_keep N (proc_bind p f)"
  unfolding sound_keep_def
  using assms(2) by (intro allI sound_bind keep_at[OF assms(1)]) (auto simp: sound_keep_def split: sum.splits)

lemma idle_bind [sound_intros]:
  assumes "sound_idle N p" "\<And>x. sound_idle N (f x)"
  shows "sound_idle N (proc_bind p f)"
  using assms by (auto simp: sound_idle_def split: sum.splits intro!: sound_bind intro: sound_post)

lemma under_bind:
  assumes "sound_keep N p" "\<And>x. sound_under N a v (f x)"
  shows "sound_under N a v (proc_bind p f)"
  unfolding sound_under_def
  using assms(2) by (intro allI sound_bind keep_at[OF assms(1)]) (auto simp: sound_under_def split: sum.splits)

lemma idle_keep: "sound_keep N p \<Longrightarrow> sound_idle N p"
  by (simp add: sound_keep_def sound_idle_def)

lemma under_keep: "sound_keep N p \<Longrightarrow> sound_under N a v p"
  by (auto simp: sound_under_def intro!: keep_at split: if_splits)

lemma ret_sound [sound_intros]: "sound_keep N (Ret r)"
  by (simp add: sound_keep_def)

lemma access_sound [sound_intros]: "sound_keep N (access m)"
  unfolding sound_keep_def
  by (intro allI tasks.sound_leaves) (auto simp: leaves_objects_def on_server_def split: prod.splits)

text \<open>A new \<^verbatim>\<open>Arc\<close> changes none of the objects there are.\<close>

lemma new_arc_guarantees:
  assumes "arcs_ok c" "i \<in> N \<or> sh_arcs c i = None"
  shows "guarantees (task_objects N) K c (new_arc i t c)"
  using assms arcs_ok_new_arc[OF assms(1)]
  by (auto simp: guarantees_def objects_evolve_def) (auto simp: new_arc_def)

lemma new_arc_knows: "knows (task_objects N) K c \<Longrightarrow> knows (task_objects N) K (new_arc i t c)"
  by (fastforce simp: knows_def new_arc_def)

lemma insert_vacant_sound [sound_intros]: "sound_keep N (step_of (insert_vacant t))"
proof -
  have "guarantees (task_objects N) K c c" if "arcs_ok c" for K c using that by (simp add: guarantees_def tasks.evolve_refl)
  then show ?thesis
    unfolding sound_keep_def step_of_def insert_vacant_def eff_modify_def Let_def
    by (auto intro: new_arc_guarantees new_arc_knows)
qed

lemma insert_all_sound [sound_intros]: "sound_keep N (insert_all_vacant ts)"
  by (induction ts) (auto intro!: sound_intros)

lemma gets_sound [sound_intros]: "sound_keep N (step_of (eff_gets g))"
  unfolding sound_keep_def
  by (intro allI tasks.sound_leaves) (auto simp: leaves_objects_def eff_gets_def)

lemma ensure_cached_sound [sound_intros]: "sound_keep N (ensure_cached_async D ids)"
  unfolding ensure_cached_async_def by (intro sound_intros)

lemma insert_arc_sound:
  assumes "i \<in> N"
  shows "sound_keep N (step_of (insert_arc i t))"
  using assms unfolding sound_keep_def step_of_def insert_arc_def
  by (auto intro: new_arc_guarantees new_arc_knows)

lemma drop_sound: "sound (task_objects N) (Step (drop_arc a) (\<lambda>_. Ret r)) n Map.empty released"
  by (auto simp: drop_arc_def guarantees_def objects_evolve_def knows_def)

lemma guarded_sound:
  assumes "\<And>v. sound_under N a v p" "a < n"
  shows "sound (task_objects N) (guarded a p) n Map.empty released"
proof -
  have "sound (task_objects N) (proc_then p (\<lambda>r. Unlock a (Step (drop_arc a) (\<lambda>_. Ret r)))) n [a \<mapsto> v] released" for v
  proof (rule sound_then, rule sound_post)
    show "sound (task_objects N) p n [a \<mapsto> v] (\<lambda>r n' K'. dom K' = {a})" using assms(1) by (simp add: sound_under_def)
    fix r n' and K' :: "nat \<rightharpoonup> task" assume K': "dom K' = {a}"
    then have "K'(a := None) = Map.empty" by (auto simp: fun_eq_iff dom_def)
    with drop_sound[of N a r n'] K' show "sound (task_objects N) (Unlock a (Step (drop_arc a) (\<lambda>_. Ret r))) n' K' released"
      by (simp del: sound.simps(2))
  qed
  with assms(2) show ?thesis by (simp add: guarded_def)
qed

lemma read_sound:
  assumes "sound_under N a v (f v)"
  shows "sound_under N a v (proc_bind (read_arc a) f)"
  unfolding sound_under_def
proof (intro allI sound_bind)
  fix n
  show "sound (task_objects N) (read_arc a) n [a \<mapsto> v] (\<lambda>r n K. case r of
      Inl e \<Rightarrow> dom K = {a} | Inr x \<Rightarrow> sound (task_objects N) (f x) n K (\<lambda>r n' K'. dom K' = {a}))"
    unfolding read_arc_def
    by (rule tasks.sound_leaves) (use assms in \<open>auto simp: leaves_objects_def eff_gets_def knows_def sound_under_def\<close>)
qed

lemma with_task_sound [sound_intros]:
  fixes body :: "nat \<Rightarrow> task \<Rightarrow> ('r, 'tx, 'a) async"
  assumes "\<And>a v. sound_under N a v (body a v)"
  shows "sound_idle N (with_task D i body)"
  unfolding with_task_def
proof (rule idle_bind[OF idle_keep[OF ensure_cached_sound]])
  have "sound (task_objects N) (proc_bind (step_of (clone_arc D i)) (\<lambda>a. guarded a (proc_bind (read_arc a) (body a)))) n Map.empty released" for n
  proof (rule sound_bind, rule tasks.sound_leaves)
    show "leaves_objects (task_objects N) (clone_arc D i)"
      by (auto simp: leaves_objects_def clone_arc_def split: option.splits)
    fix c :: "('r, 'tx) shared" assume c: "state_ok (task_objects N) c" 
    show "case fst (clone_arc D i c) of Inl e \<Rightarrow> (Map.empty :: nat \<rightharpoonup> task) = Map.empty
      | Inr a \<Rightarrow> sound (task_objects N) (guarded a (proc_bind (read_arc a) (body a))) (next_obj (task_objects N) c) Map.empty released"
    proof (cases "sh_arcs c i")
      case (Some a)
      moreover from this c have "a < sh_next c" by (auto simp: arcs_ok_def)
      ultimately show ?thesis using guarded_sound[OF read_sound[OF assms]] by (simp add: clone_arc_def)
    next
      case None
      then show ?thesis by (simp add: clone_arc_def)
    qed
  qed
  then show "sound_idle N (proc_bind (step_of (clone_arc D i)) (\<lambda>a. guarded a (proc_bind (read_arc a) (body a))))"
    by (simp add: sound_idle_def)
qed

text \<open>Under the guard the task may be replaced by one it may evolve into.\<close>

lemma write_guarantees:
  assumes "arcs_ok c" "knows (task_objects N) [a \<mapsto> v] c" "evolves v t" "sh_arcs c' = sh_arcs c" "sh_next c' = sh_next c"
    "sh_tasks c' = (sh_tasks c)(a := t)"
  shows "guarantees (task_objects N) [a \<mapsto> v] c c' \<and> knows (task_objects N) [a \<mapsto> t] c'"
  using assms by (auto simp: guarantees_def objects_evolve_def knows_def arcs_ok_def)

lemma under_step:
  fixes m :: "(('r, 'tx) shared, 'a) eff"
  assumes "\<And>c r c'. m c = (r, c') \<Longrightarrow> arcs_ok c \<Longrightarrow> sh_arcs c' = sh_arcs c \<and> sh_next c' = sh_next c \<and>
      (\<exists>t. evolves v t \<and> sh_tasks c' = (sh_tasks c)(a := t) \<and> (\<forall>x. r = Inr x \<longrightarrow> sound_under N a t (f x)))"
  shows "sound_under N a v (proc_bind (step_of m) f)"
  unfolding sound_under_def step_of_def
proof (intro allI sound_bind, unfold sound.simps, intro allI impI)
  fix n and c :: "('r, 'tx) shared"
  assume c: "state_ok (task_objects N) c" "knows (task_objects N) [a \<mapsto> v] c"
  obtain r c' where m: "m c = (r, c')" by fastforce
  obtain t where t: "evolves v t" "sh_arcs c' = sh_arcs c" "sh_next c' = sh_next c" "sh_tasks c' = (sh_tasks c)(a := t)"
    and f: "\<forall>x. r = Inr x \<longrightarrow> sound_under N a t (f x)" using assms[OF m] c(1) by auto
  have "case r of Inl e \<Rightarrow> dom [a \<mapsto> t] = {a}
      | Inr x \<Rightarrow> sound (task_objects N) (f x) (next_obj (task_objects N) c') [a \<mapsto> t] (\<lambda>r n' K'. dom K' = {a})"
    using f by (auto simp: sound_under_def split: sum.splits if_splits)
  with write_guarantees[OF _ c(2) t] c(1)
  show "guarantees (task_objects N) [a \<mapsto> v] c (snd (m c)) \<and> (\<exists>K'. dom K' = dom [a \<mapsto> v] \<and> knows (task_objects N) K' (snd (m c)) \<and>
      (case fst (m c) of Inl e \<Rightarrow> dom K' = {a}
       | Inr x \<Rightarrow> sound (task_objects N) (f x) (next_obj (task_objects N) (snd (m c))) K' (\<lambda>r n' K'. dom K' = {a})))"
    unfolding m fst_conv snd_conv by (intro conjI exI[of _ "[a \<mapsto> t]"]) (simp_all del: task_objects_simps(2))
qed

lemma write_sound:
  assumes "evolves v t" "\<And>x. sound_under N a t (f x)"
  shows "sound_under N a v (proc_bind (write_arc a t) f)"
  unfolding write_arc_def using assms by (intro under_step) (auto simp: eff_modify_def)

lemma run_sound:
  assumes "\<And>w r rt' w'. f (rt, w) = (r, rt', w') \<Longrightarrow> ti_id (running_task_info rt') = ti_id (running_task_info rt)"
    and "\<And>w x rt' w'. f (rt, w) = (Inr x, rt', w') \<Longrightarrow> sound_under N a (Running_Task rt') (g x)"
  shows "sound_under N a (Running_Task rt) (proc_bind (run_arc a rt f) g)"
  unfolding run_arc_def
proof (rule under_step)
  fix c c' :: "('b, 'c) shared" and r
  obtain q rt' w where f: "f (rt, ss_world (sh_server c)) = (q, rt', w)" by (metis prod_cases3)
  assume "(case f (rt, ss_world (sh_server c)) of (r, rt', w) \<Rightarrow>
      (r, c\<lparr>sh_tasks := (sh_tasks c)(a := Running_Task rt'), sh_server := (sh_server c)\<lparr>ss_world := w\<rparr>\<rparr>)) = (r, c')"
  with f assms(1)[OF f] assms(2) show "sh_arcs c' = sh_arcs c \<and> sh_next c' = sh_next c \<and>
      (\<exists>t. evolves (Running_Task rt) t \<and> sh_tasks c' = (sh_tasks c)(a := t) \<and> (\<forall>x. r = Inr x \<longrightarrow> sound_under N a t (g x)))"
    by (auto simp: evolves_def intro!: exI[of _ "Running_Task rt'"])
qed

section \<open>Every handler is sound\<close>

lemma persist_sound: "ti_id (vt_task_info t) \<in> N \<Longrightarrow> sound_keep N (persist_task_async D t)"
  unfolding persist_task_async_def by (intro sound_intros insert_arc_sound)

lemma add_task_sound: "ti_id (vt_task_info t) \<in> N \<Longrightarrow> sound_idle N (add_task_async D t)"
  unfolding add_task_async_def by (intro idle_bind idle_keep[OF persist_sound] with_task_sound under_keep sound_intros)

lemma formatted_list_sound [sound_intros]: "sound_idle N (formatted_list_async D d ids)"
  by (induction ids) (auto intro!: idle_keep[OF ret_sound] idle_bind with_task_sound under_keep sound_intros)

lemma readers_sound:
  "sound_idle N (active_device_tasks_async D d)" "sound_idle N (formatted_tasks_async D)" "sound_idle N (formatted_task_async D i dev)"
  unfolding active_device_tasks_async_def formatted_tasks_async_def formatted_task_async_def
  by (intro idle_bind idle_keep[OF access_sound] formatted_list_sound with_task_sound under_keep sound_intros)+

lemma send_arc_sound [sound_intros]: "sound_keep N (send_arc D a)"
  unfolding send_arc_def read_arc_def by (intro sound_intros)

lemmas under_access = under_bind[OF access_sound]

lemma write_send_sound: "evolves v t \<Longrightarrow> sound_under N a v (proc_bind (write_arc a t) (\<lambda>_. access m))"
  by (intro write_sound under_keep sound_intros)

lemma fail_task_sound: "evolves v (Failed_Task t) \<Longrightarrow> sound_under N a v (fail_task_async D i a t)"
  unfolding fail_task_async_def by (intro under_access write_send_sound)

lemma finish_task_sound: "evolves v (Finished_Task t) \<Longrightarrow> sound_under N a v (finish_task_async D i a round t)"
  unfolding finish_task_async_def
  by (cases "ft_result t"; simp only: task_result.case; intro under_bind sound_intros write_send_sound)

lemma round_update_sound:
  assumes "reports (running_task_info rt) (Inr u)"
  shows "sound_under N a (Running_Task rt) (apply_round_update_async D i a u)"
  using assms by (cases u) (auto simp: apply_round_update_async_def reports_def intro!: under_access under_keep[OF ret_sound]
      under_keep[OF send_arc_sound] fail_task_sound finish_task_sound evolves_stepI intro: phase_step.intros)

lemma update_task_sound: "sound_idle N (update_task_async D i d data n)"
  unfolding update_task_async_def
proof (rule with_task_sound)
  fix a entry
  show "sound_under N a entry (case entry of
         Running_Task rt \<Rightarrow>
           proc_bind (access (set_task_last_update D i)) (\<lambda>_.
             if n \<noteq> ti_attempts (running_task_info rt)
             then Ret (Inl (protocol_error ''Stale update''))
             else proc_bind (run_arc a rt (running_task_update (dp_env D) d data))
               (apply_round_update_async D i a))
       | _ \<Rightarrow> Ret (Inl (protocol_error ''Cannot update non-running task'')))"
  proof (cases entry)
    case (Running_Task rt)
    have kept: "running_task_info rt' = running_task_info rt \<and> reports (running_task_info rt') r"
      if "running_task_update (dp_env D) d data (rt, w) = (r, rt', w')" for w r rt' w'
      using any_task.update_keeps[OF that] by simp
    show ?thesis
      unfolding Running_Task task.simps
      by (rule under_access) (auto intro!: under_keep[OF ret_sound] run_sound round_update_sound dest: kept)
  qed (auto intro!: under_keep[OF ret_sound])
qed

lemma connected_sound [sound_intros]: "sound_keep N (connected_async D now ps)"
  by (induction ps) (auto intro!: sound_intros)

lemma choose_sound [sound_intros]: "sound_keep N (choose_active_async D t)"
  unfolding choose_active_async_def Let_def by (intro sound_intros)

lemma start_update_sound:
  assumes "ti_id (running_task_info rt) = ti_id (vt_task_info v)" "start_report (running_task_info rt) (Inr u)"
  shows "sound_under N a (Voting_Task v) (apply_start_async D i a u rt)"
  using assms by (cases u) (auto simp: apply_start_async_def start_report_def intro!: under_access under_keep[OF ret_sound]
      write_send_sound fail_task_sound evolves_stepI intro: phase_step.intros)

lemma access_under:
  assumes "\<And>s x s'. m s = (Inr x, s') \<Longrightarrow> sound_under N a v (f x)"
  shows "sound_under N a v (proc_bind (access m) f)"
  unfolding sound_under_def
proof (intro allI sound_bind tasks.sound_leaves, goal_cases)
  case (2 n c)
  obtain r s where m: "m (sh_server c) = (r, s)" by fastforce
  with assms[of "sh_server c"] show ?case by (cases r) (auto simp: on_server_def sound_under_def split: if_splits)
qed (auto simp: leaves_objects_def on_server_def split: prod.splits)

lemma ret_under: "(\<And>x. r = Inr x \<Longrightarrow> sound_under N a v (f x)) \<Longrightarrow> sound_under N a v (proc_bind (Ret r) f)"
  using under_keep[OF ret_sound] by (cases r) (auto simp: proc_bind_def)

lemma start_accepted_sound: "sound_under N a (Voting_Task v) (start_accepted_async D i a v)"
  unfolding start_accepted_async_def
proof (rule under_bind[OF choose_sound], rule ret_under, rule access_under)
  fix active rt s x s'
  assume c: "create_running_task (vt_running_task_context v) v active = Inr rt"
    and l: "run_local rt (running_task_initialize (dp_env D)) s = (Inr x, s')"
  obtain r rt' w where f: "running_task_initialize (dp_env D) (rt, ss_world s) = (r, rt', w)" by (metis prod_cases3)
  with l have "running_task_initialize (dp_env D) (rt, ss_world s) = (Inr (fst x), snd x, w)"
    by (auto simp: run_local_def res_bind_Inr_iff)
  from initialize_reports[OF this] create_running_taskD(3)[OF c]
  show "sound_under N a (Voting_Task v) (case x of (update, rt) \<Rightarrow> apply_start_async D i a update rt)"
    by (cases x) (auto intro!: start_update_sound)
qed

lemma decide_task_sound: "sound_idle N (decide_task_async D i d accept)"
  unfolding decide_task_async_def
proof (rule with_task_sound)
  fix a entry
  show "sound_under N a entry (case entry of
         Voting_Task task \<Rightarrow>
           proc_bind (access (set_task_last_update D i)) (\<lambda>_.
             case decide task d accept of (r, task) \<Rightarrow>
               proc_bind (write_arc a (Voting_Task task)) (\<lambda>_.
               proc_bind (Ret r) (\<lambda>decision_update.
               proc_bind (access (call_repo (repo_set_task_decision (dp_repo D) i d accept))) (\<lambda>_.
                 apply_decision_async D i a task decision_update))))
       | _ \<Rightarrow> Ret (Inl (protocol_error ''Cannot decide non-voting task'')))"
  proof (cases entry)
    case (Voting_Task task)
    obtain r v where d: "decide task d accept = (r, v)" by fastforce
    have v: "vt_task_info v = vt_task_info task" using decide_frame[OF d] by simp
    have ev: "evolves (Voting_Task task) (Voting_Task v)" using v by (simp add: evolves_def)
    have decl: "dt_task_info x = vt_task_info v" if "r = Inr (Decision_Declined x)" for x
      using that d v by (auto simp: decide_def Let_def split: option.splits prod.splits if_splits)
    have step: "sound_under N a (Voting_Task v) (apply_decision_async D i a v u)" if "r = Inr u" for u
      using decl that by (cases u) (auto simp: apply_decision_async_def intro!: under_keep[OF access_sound] under_access
          write_send_sound start_accepted_sound evolves_stepI intro: phase_step.intros)
    show ?thesis
      unfolding Voting_Task task.simps d prod.case by (intro under_access write_sound ev ret_under step)
  qed (auto intro!: under_keep[OF ret_sound])
qed

lemma acknowledge_task_sound: "sound_idle N (acknowledge_task_async D i d)"
  unfolding acknowledge_task_async_def
proof (rule with_task_sound)
  fix a entry
  show "sound_under N a entry (case entry of
         Finished_Task task \<Rightarrow>
           proc_bind (write_arc a (Finished_Task (acknowledge task d))) (\<lambda>_.
             access (call_repo (repo_set_task_acknowledgement (dp_repo D) i d)))
       | _ \<Rightarrow> Ret (Inl (protocol_error ''Cannot acknowledge unfinished task'')))"
    by (cases entry) (auto simp: evolves_def acknowledge_def intro!: write_send_sound under_keep[OF ret_sound])
qed

lemma restart_update_sound:
  assumes "start_report (running_task_info rt) (Inr u)"
  shows "sound_under N a (Running_Task rt) (apply_restart_async D i a u)"
  using assms by (cases u) (auto simp: apply_restart_async_def start_report_def intro!: under_access under_keep[OF ret_sound]
      under_keep[OF send_arc_sound] fail_task_sound evolves_stepI intro: phase_step.intros)

lemma restart_task_sound: "sound_idle N (restart_task_async D i)"
  unfolding restart_task_async_def Let_def
proof (rule with_task_sound)
  fix a entry
  show "sound_under N a entry (case entry of
         Running_Task rt \<Rightarrow>
              proc_bind (access (set_task_last_update D (ti_id (running_task_info rt)))) (\<lambda>_.
              proc_bind (access (call_repo (repo_increment_task_attempt_count (dp_repo D) (ti_id (running_task_info rt))))) (\<lambda>_.
              proc_bind (run_arc a rt (running_task_restart (dp_env D)))
                (apply_restart_async D (ti_id (running_task_info rt)) a)))
       | _ \<Rightarrow> Ret (Inl (inconsistent ''non-running task in candidates for restart'')))"
    by (cases entry) (auto intro!: under_access run_sound restart_update_sound under_keep[OF ret_sound] dest: restart_reports)
qed

lemma restart_all_sound: "sound_idle N (restart_all_async D ids)"
  by (induction ids) (auto intro!: idle_bind restart_task_sound idle_keep[OF ret_sound])

lemma stale_tasks_sound [sound_intros]: "sound_keep N (stale_tasks_async D now ids)"
  by (induction ids) (auto intro!: sound_intros)

lemma restart_stale_sound: "sound_idle N (restart_stale_async D)"
  unfolding restart_stale_async_def by (intro idle_bind restart_all_sound) (intro idle_keep sound_intros)+

section \<open>The server\<close>

text \<open>
  What runs: the handlers, their answers left out, the timer, and accesses to the rest of the server. New tasks get identifiers
  in \<^verbatim>\<open>N\<close>.
\<close>

definition run_request :: "('r, 'tx, 'a) async \<Rightarrow> ('r, 'tx, unit) async" where
  "run_request p = proc_bind p (\<lambda>_. return ())"

inductive server_request :: "('r, 'tx) deps \<Rightarrow> uuid set \<Rightarrow> ('r, 'tx, unit) async \<Rightarrow> bool" for D N where
  adding: "ti_id (vt_task_info v) \<in> N \<Longrightarrow> server_request D N (run_request (add_task_async D v))"
| updating: "server_request D N (run_request (update_task_async D i d data n))"
| deciding: "server_request D N (run_request (decide_task_async D i d accept))"
| acknowledging: "server_request D N (run_request (acknowledge_task_async D i d))"
| restarting: "server_request D N (run_request (restart_stale_async D))"
| reading: "server_request D N (run_request (formatted_task_async D i dev))"
| listing: "server_request D N (run_request (formatted_tasks_async D))"
| listing_active: "server_request D N (run_request (active_device_tasks_async D d))"
| accessing: "server_request D N (access m)"

text \<open>A handler that is dropped while it waits gives up the clone it has.\<close>

definition drops_clones :: "('r, 'tx) shared \<Rightarrow> ('r, 'tx) shared \<Rightarrow> bool" where
  "drops_clones c c' = (\<exists>n. c' = c\<lparr>sh_clones := n\<rparr> \<and> (\<forall>a. n a \<le> sh_clones c a))"

lemma run_request_sound: "sound_idle N p \<Longrightarrow> sound_idle N (run_request p)"
  unfolding run_request_def by (intro idle_bind idle_keep[OF ret_sound])

lemma request_sound: "server_request D N p \<Longrightarrow> sound_idle N p"
  by (induction rule: server_request.induct) (auto intro!: run_request_sound add_task_sound update_task_sound decide_task_sound
      acknowledge_task_sound restart_stale_sound readers_sound idle_keep[OF access_sound])

interpretation server: object_system "task_objects N" "server_request D N" drops_clones for D N
  by unfold_locales (use request_sound in \<open>auto simp: sound_idle_def drops_clones_def\<close>)

abbreviation idle_system :: "('r, 'tx) shared \<Rightarrow> (('r, 'tx) shared, unit) system" where
  "idle_system c \<equiv> ([], Map.empty, c)"

lemma idle_well_behaved: "arcs_ok c \<Longrightarrow> well_behaved (task_objects N) (idle_system c)"
  by (simp add: well_behaved_def)

section \<open>Runs of the system\<close>

lemma interleaves_run:
  "proceeds\<^sup>*\<^sup>* y' z \<Longrightarrow> interleaves requests dropping y y' \<Longrightarrow> interleaves requests dropping y z"
  by (induction rule: rtranclp_induct) (auto intro: interleaves.proceed)

text \<open>A sound process runs to its end beside processes that wait, and does what its sequential handler does.\<close>

abbreviation answer :: "'a res \<Rightarrow> ('r, 'tx, unit) async" where
  "answer r \<equiv> Ret (map_sum id (\<lambda>_. ()) r)"

lemma runs_beside:
  assumes "sound_idle UNIV p" "implements (held None) p m" "held None c" "m (server_view c) = (r, s)"
    and "k < length ps" "ps ! k = run_request p"
  shows "\<exists>c'. held None c' \<and> server_view c' = s \<and> proceeds\<^sup>*\<^sup>* (ps, Map.empty, c) (ps[k := answer r], Map.empty, c')"
proof -
  obtain r' c' where p: "run_alone p c = (r', c')" by fastforce
  with assms(2-4) have *: "r' = r" "held None c'" "server_view c' = s" by (auto simp: implements_def)
  have "run_alone (run_request p) c = (map_sum id (\<lambda>_. ()) r, c')"
    using p * by (simp add: run_request_def eff_bind_def split: sum.splits)
  moreover have "state_ok (task_objects UNIV) c" using assms(3) by (simp add: held_idleD)
  moreover have "sound (task_objects UNIV) (run_request p) 0 Map.empty released"
    using run_request_sound[OF assms(1)] by (simp add: sound_idle_def)
  ultimately show ?thesis
    using server.sound_alone[of UNIV "run_request p" c k ps] assms(5,6) * by (intro exI[of _ c']) simp
qed

section \<open>Properties\<close>



text \<open>C6. However the steps of the handlers are ordered, every request is answered: no run goes on for ever without new requests, and
  it stops only when every handler has returned and every lock is free. In particular no two handlers wait for each other.
\<close>

theorem every_interleaved_request_is_answered:
  assumes "arcs_ok c" "interleaves (server_request D N) drops_clones (idle_system c) y"
  shows "(\<forall>f. f 0 = y \<longrightarrow> (\<exists>k. \<not> proceeds (f k) (f (Suc k)))) \<and>
    (\<forall>z. proceeds\<^sup>*\<^sup>* y z \<longrightarrow> (\<nexists>z'. proceeds z z') \<longrightarrow> all_answered z)"
proof (intro conjI allI impI)
  have w: "well_behaved (task_objects N) y"
    using server.interleaving_evolves[OF assms(2) idle_well_behaved[OF assms(1)]] by simp
  fix z assume "proceeds\<^sup>*\<^sup>* y z" "\<nexists>z'. proceeds z z'"
  with server.run_keeps[OF _ w] show "all_answered z" by (blast intro: server.stuck_only_when_answered)
qed (rule no_endless_run)

theorem every_interleaved_request_is_answered_witness:
  "\<exists>z. proceeds\<^sup>*\<^sup>* ([run_request (decide_task_async sample_deps (replicate 16 1) [7] True), run_request (restart_stale_async sample_deps)],
       Map.empty, sample_shared (sample_server (Voting_Task sample_voting)) (Voting_Task sample_voting)) z \<and> all_answered z"
proof -
  let ?c = "sample_shared (sample_server (Voting_Task sample_voting)) (Voting_Task sample_voting)"
  let ?p = "run_request (decide_task_async sample_deps (replicate 16 1) [7] True)" and ?q = "run_request (restart_stale_async sample_deps)"
  note start = interleaves.start[where requests = "server_request sample_deps {}" and dropping = drops_clones]
  from start[OF interleaves.initial server_request.deciding, of "[]" Map.empty ?c "replicate 16 1" "[7]" True]
  have "interleaves (server_request sample_deps {}) drops_clones (idle_system ?c) ([?p], Map.empty, ?c)" by simp
  from start[OF this server_request.restarting]
  have "interleaves (server_request sample_deps {}) drops_clones (idle_system ?c) ([?p, ?q], Map.empty, ?c)" by simp
  from every_interleaved_request_is_answered[OF sample_shared_ok(1) this] run_ends[of "([?p, ?q], Map.empty, ?c)"]
  show ?thesis by blast
qed

end
