(* ===== verification/Races.thy ===== *)
theory Races
  imports Interleavings Stale_Tasks
begin

text \<open>
  What the guards do not protect: the time between two calls of the task store.
\<close>

section \<open>New tasks\<close>

text \<open>The first step of \<^verbatim>\<open>add_task\<close> creates the record, the second inserts into the cache.\<close>

lemma add_task_steps:
  assumes "held None c" "create_record (dp_repo D) v (server_view c) = (Inr (), s)"
  shows "\<exists>q c'. proceeds ([run_request (add_task_async D v)], Map.empty, c)
      ([Step (new_arc (ti_id (vt_task_info v)) (Voting_Task v)) q], Map.empty, c') \<and> held None c' \<and> server_view c' = s"
proof -
  obtain r c' where o: "on_server (create_record (dp_repo D) v) c = (r, c')" by fastforce
  have "run_alone (access (create_record (dp_repo D) v)) c = (r, c')" using o by simp
  with impl_access[OF blind_create_record, of None "dp_repo D" v] assms
  have *: "r = Inr ()" "held None c'" "server_view c' = s" by (auto simp: implements_def)
  obtain k where k: "run_request (add_task_async D v) = Step (\<lambda>c. snd (on_server (create_record (dp_repo D) v) c)) k"
    and "\<exists>q. k c = Step (\<lambda>c. snd (insert_arc (ti_id (vt_task_info v)) (Voting_Task v) c)) q"
    using o *(1) by (simp add: run_request_def add_task_async_def persist_task_async_def proc_bind_def step_of_def)
  then obtain q where "k c = Step (new_arc (ti_id (vt_task_info v)) (Voting_Task v)) q" by (auto simp: insert_arc_def)
  with proceeds.step[of 0 "[run_request (add_task_async D v)]", OF _ _, of _ k Map.empty c] k o *(2,3) show ?thesis
    by auto
qed

text \<open>C36. A vote can be lost. \<^verbatim>\<open>persist_task\<close> creates the record of a new task before it puts the task into the cache, and inserts it
  whatever the cache has by then. A device that learns of the task in between (it may list its open tasks) and votes is answered
  with success and its vote is in the database, but the cache is left with the task as it was created, without the vote.
\<close>

theorem vote_between_creation_and_caching_is_lost:
  assumes "arcs_ok c" "sh_clones c = (\<lambda>_. 0)" "create_record (dp_repo D) v (server_view c) = (Inr (), s1)"
    and "decide_task D (ti_id (vt_task_info v)) d accept s1 = (Inr (), s2)"
  shows "\<exists>q c'. interleaves (server_request D {ti_id (vt_task_info v)}) drops_clones (idle_system c) ([q, return ()], Map.empty, c') \<and>
    server_view c' = s2\<lparr>cs_task_cache := (cs_task_cache s2)(ti_id (vt_task_info v) \<mapsto> Voting_Task v)\<rparr>"
proof -
  let ?i = "ti_id (vt_task_info v)"
  let ?add = "run_request (add_task_async D v)" and ?vote = "run_request (decide_task_async D ?i d accept)"
  have c: "held None c" using assms(1,2) by (simp add: held_def)
  from add_task_steps[OF c assms(3)] obtain q c1 where
    created: "proceeds ([?add], Map.empty, c) ([Step (new_arc ?i (Voting_Task v)) q], Map.empty, c1)"
    and c1: "held None c1" "server_view c1 = s1" by blast
  from runs_beside[OF decide_task_sound impl_decide_task c1(1), of D ?i d accept _ _ 1 "[Step (new_arc ?i (Voting_Task v)) q, ?vote]"] c1(2) assms(4) obtain c2 where
    c2: "held None c2" "server_view c2 = s2"
    and voted: "proceeds\<^sup>*\<^sup>* ([Step (new_arc ?i (Voting_Task v)) q, ?vote], Map.empty, c1)
      ([Step (new_arc ?i (Voting_Task v)) q, return ()], Map.empty, c2)" by fastforce
  have inserted: "proceeds ([Step (new_arc ?i (Voting_Task v)) q, return ()], Map.empty, c2)
      ([q c2, return ()], Map.empty, new_arc ?i (Voting_Task v) c2)"
    using proceeds.step[of 0 "[Step (new_arc ?i (Voting_Task v)) q, return ()]" _ q Map.empty c2] by simp
  note start = interleaves.start[where requests = "server_request D {?i}" and dropping = drops_clones]
  have "server_request D {?i} ?add" by (intro server_request.adding) simp
  from start[OF interleaves.initial this, of "[]" Map.empty c]
  have "interleaves (server_request D {?i}) drops_clones (idle_system c) ([?add], Map.empty, c)" by simp
  from start[OF interleaves.proceed[OF this created] server_request.deciding, of ?i d accept]
  have "interleaves (server_request D {?i}) drops_clones (idle_system c) ([Step (new_arc ?i (Voting_Task v)) q, ?vote], Map.empty, c1)"
    by simp
  from interleaves.proceed[OF interleaves_run[OF voted this] inserted]
  show ?thesis using view_new_arc[of c2 ?i "Voting_Task v"] c2 by (blast dest: held_idleD(1))
qed

text \<open>A server on the same database that has not read the task yet.\<close>

definition sample_unread :: "(unit, sample_tx) shared" where
  "sample_unread = (sample_shared (sample_server (Voting_Task sample_voting)) (Voting_Task sample_voting))\<lparr>sh_arcs := Map.empty\<rparr>"

lemma sample_unread_vote:
  "\<exists>s2. decide_task sample_deps (replicate 16 1) [5] True (server_view sample_unread) = (Inr (), s2)"
proof -
  let ?s = "server_view sample_unread" and ?i = "replicate 16 1 :: uuid"
  let ?v = "sample_voting\<lparr>vt_decisions := []\<rparr>"
  have h: "hydrate_tasks (dp_repo sample_deps) [?i] ?s = (Inr [Voting_Task ?v], ?s)"
    by (simp add: hydrate_tasks_def task_from_model_def threshold_task_from_model_def threshold_context_def task_info_of_model_def
        eff_bind_def eff_defs call_repo_def sample_deps_def sample_repo_def sample_model_def accepts_rejects_def Let_def
        sample_voting_defs hm_insert_def)
  have none: "sh_arcs sample_unread ?i = None" by (simp add: sample_unread_def)
  have id: "ti_id (vt_task_info sample_voting) = ?i" by (simp add: sample_voting_def sample_task_info_def)
  obtain s where g: "get_task (dp_env sample_deps) (dp_repo sample_deps) ?i ?s = (Inr (Voting_Task ?v), s)"
    by (simp add: get_task_def ensure_cached_tasks_def eff_bind_def eff_defs h none id cache_vacant_def Let_def)
  have "fst (decide ?v [5] True) = Inr Undecided" by code_simp
  then obtain w where d: "decide ?v [5] True = (Inr Undecided, w)" by (metis prod.collapse)
  have "fst (decide_task sample_deps ?i [5] True ?s) = Inr ()"
    unfolding decide_task_def
    by (subst eff_bind_def) (simp add: g, simp add: d apply_decision_def eff_bind_def set_task_last_update_def
      get_timestamp_def env_call_def next_call_def eff_modify_def put_task_def eff_lift_def call_repo_def
      sample_deps_def sample_repo_def send_updates_def split: prod.splits)
  then show ?thesis by (metis prod.collapse)
qed

theorem vote_between_creation_and_caching_is_lost_witness:
  "\<exists>q c'. interleaves (server_request sample_deps {replicate 16 1}) drops_clones (idle_system sample_unread) ([q, return ()], Map.empty, c') \<and>
     cs_task_cache (server_view c') (replicate 16 1) = Some (Voting_Task sample_voting)"
proof -
  have i: "ti_id (vt_task_info sample_voting) = replicate 16 1" by (simp add: sample_voting_def sample_task_info_def)
  have "create_record (dp_repo sample_deps) sample_voting (server_view sample_unread) = (Inr (), server_view sample_unread)"
    by (simp add: create_record_def sample_voting_def persist_threshold_task_def eff_bind_def call_repo_def sample_deps_def sample_repo_def eff_return_def)
  moreover obtain s2 where "decide_task sample_deps (replicate 16 1) [5] True (server_view sample_unread) = (Inr (), s2)"
    using sample_unread_vote by blast
  moreover have "arcs_ok sample_unread" "sh_clones sample_unread = (\<lambda>_. 0)"
    by (auto simp: sample_unread_def sample_shared_def arcs_ok_def)
  ultimately obtain q c' where
    "interleaves (server_request sample_deps {replicate 16 1}) drops_clones (idle_system sample_unread) ([q, return ()], Map.empty, c')"
    "server_view c' = s2\<lparr>cs_task_cache := (cs_task_cache s2)(replicate 16 1 \<mapsto> Voting_Task sample_voting)\<rparr>"
    using vote_between_creation_and_caching_is_lost[of sample_unread sample_deps sample_voting _ "[5]" True s2] i by metis
  then show ?thesis by (intro exI[of _ q] exI[of _ c']) simp
qed

section \<open>The timer\<close>

text \<open>\<^verbatim>\<open>restart_stale_tasks\<close> first finds out which tasks are stale, then restarts them one after the other.\<close>

definition stale_now :: "('r, 'tx) deps \<Rightarrow> ('r, 'tx, uuid list) handler" where
  "stale_now D = eff_bind (get_timestamp D) (\<lambda>now.
     eff_bind (call_repo (repo_get_restart_candidates (dp_repo D))) (stale_tasks D now))"

definition stale_now_async :: "('r, 'tx) deps \<Rightarrow> ('r, 'tx, uuid list) async" where
  "stale_now_async D = proc_bind (access (get_timestamp D)) (\<lambda>now.
     proc_bind (access (call_repo (repo_get_restart_candidates (dp_repo D)))) (stale_tasks_async D now))"

lemma restart_stale_parts: "restart_stale_async D = proc_bind (stale_now_async D) (restart_all_async D)"
  unfolding restart_stale_async_def stale_now_async_def bind_assoc ..

lemma impl_stale_now: "implements (held None) (stale_now_async D) (stale_now D)"
  unfolding stale_now_async_def stale_now_def by (intro impl_intros blind_intros)

lemma stale_now_lock_free: "lock_free (stale_now_async D)"
proof -
  have "lock_free (stale_tasks_async D now ids)" for now ids by (induction ids) auto
  then show ?thesis by (simp add: stale_now_async_def)
qed

lemma stale_tasks_found:
  assumes "held None c" "stale_now D (server_view c) = (Inr ids, s)"
  shows "\<exists>c'. held None c' \<and> server_view c' = s \<and>
    proceeds\<^sup>*\<^sup>* ([run_request (restart_stale_async D)], Map.empty, c) ([run_request (restart_all_async D ids)], Map.empty, c')"
proof -
  obtain r c' where a: "run_alone (stale_now_async D) c = (r, c')" by fastforce
  with impl_stale_now[of D] assms have *: "r = Inr ids" "held None c'" "server_view c' = s" by (auto simp: implements_def)
  have "run_request (restart_stale_async D) = proc_bind (stale_now_async D) (\<lambda>ids. run_request (restart_all_async D ids))"
    by (simp add: run_request_def restart_stale_parts bind_assoc)
  then show ?thesis
    using lock_free_runs[OF stale_now_lock_free[of D], of 0 "[Ret (Inl Panic)]"
        "\<lambda>r. case r of Inl e \<Rightarrow> Ret (Inl e) | Inr ids \<Rightarrow> run_request (restart_all_async D ids)" Map.empty c] a *
    by (intro exI[of _ c']) (simp add: proc_bind_def)
qed

lemma restart_refused:
  assumes "get_task (dp_env D) (dp_repo D) i s = (Inr t, s')" "phase_of t \<noteq> Ph_Running"
  shows "restart_all D (i # ids) s = (Inl (inconsistent ''non-running task in candidates for restart''), s')"
  using assms by (cases t) (auto simp: restart_task_def eff_bind_def eff_fail_def)

text \<open>C37. The timer can be brought down by a task that ends in time. It asks for the stale tasks and restarts them afterwards; a task
  that is stale when it asks and ends before it is restarted, by an update in between that is accepted, makes the timer
  fail with \<^verbatim>\<open>DataInconsistencyError\<close>, although nothing is inconsistent; \<^verbatim>\<open>run_timer\<close> panics on this error.
\<close>

theorem task_that_ends_in_time_fails_the_timer:
  assumes "arcs_ok c" "sh_clones c = (\<lambda>_. 0)" "stale_now D (server_view c) = (Inr (i # ids), s1)"
    and "update_task D i d data n s1 = (Inr (), s2)"
    and "get_task (dp_env D) (dp_repo D) i s2 = (Inr t, s3)" "phase_of t \<noteq> Ph_Running"
  shows "\<exists>c'. interleaves (server_request D N) drops_clones (idle_system c)
      ([Ret (Inl (inconsistent ''non-running task in candidates for restart'')), return ()], Map.empty, c') \<and> server_view c' = s3"
proof -
  let ?timer = "run_request (restart_stale_async D)" and ?rest = "run_request (restart_all_async D (i # ids))"
  let ?update = "run_request (update_task_async D i d data n)"
  have "held None c" using assms(1,2) by (simp add: held_def)
  from stale_tasks_found[OF this assms(3)] obtain c1 where c1: "held None c1" "server_view c1 = s1"
    and found: "proceeds\<^sup>*\<^sup>* ([?timer], Map.empty, c) ([?rest], Map.empty, c1)" by blast
  from runs_beside[OF update_task_sound impl_update_task c1(1), of D i d data n _ _ 1 "[?rest, ?update]"] c1(2) assms(4)
  obtain c2 where c2: "held None c2" "server_view c2 = s2"
    and updated: "proceeds\<^sup>*\<^sup>* ([?rest, ?update], Map.empty, c1) ([?rest, return ()], Map.empty, c2)" by auto
  from runs_beside[OF restart_all_sound impl_restart_all c2(1), of D "i # ids" _ _ 0 "[?rest, return ()]"] c2(2)
    restart_refused[OF assms(5,6)]
  obtain c3 where c3: "server_view c3 = s3"
    and failed: "proceeds\<^sup>*\<^sup>* ([?rest, return ()], Map.empty, c2)
      ([Ret (Inl (inconsistent ''non-running task in candidates for restart'')), return ()], Map.empty, c3)"
    by (auto simp del: restart_all_async.simps restart_all.simps)
  note start = interleaves.start[where requests = "server_request D N" and dropping = drops_clones]
  from start[OF interleaves.initial server_request.restarting, of "[]" Map.empty c]
  have "interleaves (server_request D N) drops_clones (idle_system c) ([?timer], Map.empty, c)" by simp
  from start[OF interleaves_run[OF found this] server_request.updating, of i d data n]
  have "interleaves (server_request D N) drops_clones (idle_system c) ([?rest, ?update], Map.empty, c1)" by simp
  from interleaves_run[OF failed interleaves_run[OF updated this]] c3 show ?thesis by blast
qed

text \<open>A signing task in its last round that waits for one more message, and was last updated a while ago.\<close>

definition sample_last_round :: sign_task where
  "sample_last_round = \<lparr>st_task_info = sample_task_info, st_group = sample_group,
     st_communicator = (running_comm sample_running)\<lparr>comm_input := [(1, sample_message 9)]\<rparr>,
     st_data = [1], st_preprocessed = None, st_protocol = GG18_Sign \<lparr>gg18_sign_round = 3\<rparr>\<rparr>"

lemma sample_last_update:
  "\<exists>n f rt'. \<forall>w. sign_task_update sample_env [5] [sample_message 9] (sample_last_round, w) = (Inr (Round_Finished n f), rt', w)"
proof -
  have "fst (sign_task_update_internal sample_env [5] [sample_message 9] sample_last_round) = Inr True" by code_simp
  then obtain t where u: "sign_task_update_internal sample_env [5] [sample_message 9] sample_last_round = (Inr True, t)"
    by (metis prod.collapse)
  have "protocol_round (st_protocol (snd (Inr True :: bool res, t))) = 3 \<and>
      protocol_last_round sample_env (st_protocol (snd (Inr True :: bool res, t))) = 3"
    unfolding u[symmetric] by code_simp
  moreover have "fst (protocol_finalize sample_env (st_protocol (snd (Inr True :: bool res, t))) (st_communicator (snd (Inr True :: bool res, t)))) =
      Inr (Some [9])"
    unfolding u[symmetric] by code_simp
  then obtain p c where "protocol_finalize sample_env (st_protocol t) (st_communicator t) = (Inr (Some [9]), p, c)"
    by (metis prod.collapse snd_conv)
  ultimately show ?thesis
    by (simp add: sign_task_update_def u sign_task_next_round_def sign_task_finalize_task_def Let_def)
qed

definition sample_stale :: "(unit, sample_tx) server_state" where
  "sample_stale = (sample_server (Running_Task (Run_Sign sample_last_round)))\<lparr>ss_task_last_updates := [replicate 16 1 \<mapsto> 900]\<rparr>"

lemma sample_stale_found:
  "\<exists>s. stale_now sample_deps sample_stale = (Inr [replicate 16 1], s) \<and> holds (replicate 16 1) (Running_Task (Run_Sign sample_last_round)) s"
proof -
  have "is_stale 1000 900" by (simp add: is_stale_def)
  then have "fst (stale_now sample_deps sample_stale) = Inr [replicate 16 1]"
    by (simp add: stale_now_def eff_bind_def eff_return_def get_task_last_update_def get_timestamp_def env_call_def next_call_def
        call_repo_def sample_waiting_simps sample_stale_def)
  moreover have "eff_within cache_same (stale_now sample_deps)" unfolding stale_now_def by (intro same_intros)
  then have "cs_task_cache (snd (stale_now sample_deps sample_stale)) = cs_task_cache sample_stale"
    by (simp add: eff_within_def cache_same_def)
  ultimately show ?thesis by (cases "stale_now sample_deps sample_stale") (simp add: sample_stale_def sample_server_def)
qed

lemma sample_last_update_accepted:
  assumes "holds (replicate 16 1) (Running_Task (Run_Sign sample_last_round)) s"
  shows "\<exists>f s'. update_task sample_deps (replicate 16 1) [5] [sample_message 9] 0 s = (Inr (), s') \<and> holds (replicate 16 1) (Finished_Task f) s'"
proof -
  note g = sample_get_task[OF assms]
  have e: "dp_env sample_deps = sample_env" by (simp add: sample_deps_def)
  obtain n f rt' where u: "\<And>w. sign_task_update sample_env [5] [sample_message 9] (sample_last_round, w) = (Inr (Round_Finished n f), rt', w)"
    using sample_last_update by blast
  then have u': "running_task_update sample_env [5] [sample_message 9] (Run_Sign sample_last_round, w) = (Inr (Round_Finished n f), Run_Sign rt', w)" for w
    by simp
  have repo: "\<And>i n q. repo_set_task_round (dp_repo sample_deps) i n q = (Inr n, q)"
    "\<And>i x q. repo_set_task_result (dp_repo sample_deps) i x q = (Inr (), q)"
    "\<And>i t n th p k c nt q. repo_add_group (dp_repo sample_deps) i t n th p k c nt q = (Inr sample_group, q)"
    by (simp_all add: sample_deps_def sample_repo_def)
  have at: "ti_attempts (running_task_info (Run_Sign sample_last_round)) = 0" by (simp add: sample_last_round_def sample_task_info_def)
  show ?thesis
    unfolding update_task_def
    by (simp add: eff_bind_def g[unfolded e] set_task_last_update_def get_timestamp_def env_call_def next_call_def eff_modify_def at
        run_cached_def e u' apply_round_update_def finish_task_def call_repo_def repo put_task_def send_updates_def eff_return_def
        del: running_task_update.simps running_task_info.simps split: task_result.splits prod.splits)
qed

theorem task_that_ends_in_time_fails_the_timer_witness:
  "\<exists>c'. interleaves (server_request sample_deps {}) drops_clones
      (idle_system (sample_shared sample_stale (Running_Task (Run_Sign sample_last_round))))
      ([Ret (Inl (inconsistent ''non-running task in candidates for restart'')), return ()], Map.empty, c')"
proof -
  let ?c = "sample_shared sample_stale (Running_Task (Run_Sign sample_last_round))"
  have v: "server_view ?c = sample_stale"
    by (auto simp: server_view_def sample_shared_def sample_stale_def sample_server_def fun_eq_iff)
  obtain s1 where s1: "stale_now sample_deps sample_stale = (Inr [replicate 16 1], s1)"
    "holds (replicate 16 1) (Running_Task (Run_Sign sample_last_round)) s1" using sample_stale_found by blast
  from sample_last_update_accepted[OF s1(2)] obtain f s2 where
    s2: "update_task sample_deps (replicate 16 1) [5] [sample_message 9] 0 s1 = (Inr (), s2)"
    "holds (replicate 16 1) (Finished_Task f) s2" by blast
  have "sh_clones ?c = (\<lambda>_. 0)" by (simp add: sample_shared_def)
  moreover have "stale_now sample_deps (server_view ?c) = (Inr [replicate 16 1], s1)" unfolding v by (rule s1(1))
  ultimately show ?thesis
    using task_that_ends_in_time_fails_the_timer[where N = "{}", OF sample_shared_ok(1) _ _ s2(1) sample_get_task[OF s2(2)]] by fastforce
qed

end
