(* ===== verification/Spec2Isabelle.thy ===== *)
theory Spec2Isabelle
  imports Startup Task_Isolation Active_Shares Races
begin

text \<open>
  MeeSign server: a server that lets devices generate keys together, sign and decrypt with threshold
  protocols. Devices register, a task (key generation, signing of a challenge or a PDF, decryption)
  is put to the vote of its participants, an accepted task runs a protocol in rounds in which the server relays
  messages between the shares of the devices, and its result is stored and announced. Requests come in over gRPC, a
  timer restarts tasks that have become stale, and everything that has to outlive the process is kept in PostgreSQL.

  \<^bold>\<open>The parts of the program and the theories that model them\<close> (files under \<^verbatim>\<open>src/src\<close>).

    \<^item> \<^verbatim>\<open>Prelude\<close>: machine integers, hash maps as association lists in iteration order, strings as UTF-8 bytes.
    \<^item> \<^verbatim>\<open>Errors\<close> (\<^verbatim>\<open>error.rs\<close>, \<^verbatim>\<open>persistence/error.rs\<close>): the error enums, panics as a failure of
      their own, effects that keep the state when they fail, frames (\<^verbatim>\<open>eff_within\<close>) and a Hoare logic for them (\<^verbatim>\<open>eff_triple\<close>).
    \<^item> \<^verbatim>\<open>Models\<close> (\<^verbatim>\<open>persistence/enums.rs\<close>, \<^verbatim>\<open>models.rs\<close>, \<^verbatim>\<open>utils.rs\<close>) and \<^verbatim>\<open>Proto\<close> (the message constructors of
      \<^verbatim>\<open>main.rs\<close>): the data.
    \<^item> \<^verbatim>\<open>External\<close>: what is not part of the repository (the protocol buffers' encodings, the cryptographic
      library's round numbers and broadcast verification, the Java helpers, clock, random numbers) as a record of
      functions; a value that changes from call to call is a function of the number of the call.
    \<^item> \<^verbatim>\<open>Communicator\<close> (\<^verbatim>\<open>communicator.rs\<close>): the exchange of one round's messages.
    \<^item> \<^verbatim>\<open>Protocols\<close>, \<^verbatim>\<open>Protocol_GG18\<close>, \<^verbatim>\<open>Protocol_FROST\<close>, \<^verbatim>\<open>Protocol_ElGamal\<close>, \<^verbatim>\<open>Protocol_MuSig2\<close>,
      \<^verbatim>\<open>Protocol_Dispatch\<close> (\<^verbatim>\<open>protocols/\<close>): the trait \<^verbatim>\<open>Protocol\<close> as a locale, its eight implementations as
      interpretations, the dispatch over them.
    \<^item> \<^verbatim>\<open>Tasks\<close>, \<^verbatim>\<open>Voting\<close>, \<^verbatim>\<open>Running_Tasks\<close>, \<^verbatim>\<open>Group_Task\<close>, \<^verbatim>\<open>Sign_Task\<close>, \<^verbatim>\<open>Decrypt_Task\<close>,
      \<^verbatim>\<open>Sign_Pdf_Task\<close>, \<^verbatim>\<open>Task_Dispatch\<close> (\<^verbatim>\<open>tasks/\<close>): voting, the trait \<^verbatim>\<open>RunningTask\<close> as a locale with
      its four implementations, the life of a task.
    \<^item> \<^verbatim>\<open>Share_Indices\<close> (\<^verbatim>\<open>state.rs\<close>, \<^verbatim>\<open>cached_task_store.rs\<close>): the numbering of the active shares.
    \<^item> \<^verbatim>\<open>Repository\<close> (\<^verbatim>\<open>persistence/repository.rs\<close>) and \<^verbatim>\<open>Task_Store\<close> (\<^verbatim>\<open>cached_task_store.rs\<close>): the interface
      of the database, the cache of tasks and their restoration; \<^verbatim>\<open>read_frame\<close> and \<^verbatim>\<open>store_frame\<close> are the locales of what reading tasks keeps.
    \<^item> \<^verbatim>\<open>Server_State\<close>, \<^verbatim>\<open>Server_Tasks\<close>, \<^verbatim>\<open>Active_Shares\<close>, \<^verbatim>\<open>Server_Runs\<close>, \<^verbatim>\<open>Task_Frames\<close> (\<^verbatim>\<open>state.rs\<close>): the server's
      operations, the choice of the active shares, the phases a decision leads to, and what each operation leaves alone.
    \<^item> \<^verbatim>\<open>Task_Completion\<close>, \<^verbatim>\<open>Task_Isolation\<close> (\<^verbatim>\<open>state.rs\<close> on the database): a task brought to its end by updates, with what a database
      has to promise for it as the locale \<^verbatim>\<open>task_record\<close>, and requests that leave it alone.
    \<^item> \<^verbatim>\<open>Processes\<close>, \<^verbatim>\<open>Concurrent_Server\<close>, \<^verbatim>\<open>Concurrent_Refinement\<close>, \<^verbatim>\<open>Interleavings\<close>, \<^verbatim>\<open>Races\<close> (the awaits of \<^verbatim>\<open>state.rs\<close> and
      \<^verbatim>\<open>cached_task_store.rs\<close>): the operations on tasks once more, as processes whose steps interleave, on the cache as it is shared (a map of
      \<^verbatim>\<open>Arc\<close>s of locks); \<^verbatim>\<open>object_system\<close> is the locale of processes that change an object only under its lock, interpreted on these handlers.
    \<^item> \<^verbatim>\<open>Tables\<close>, \<^verbatim>\<open>Postgres\<close>, \<^verbatim>\<open>Postgres_Constraints\<close>, \<^verbatim>\<open>Stored_Tasks\<close>, \<^verbatim>\<open>Postgres_Laws\<close>, \<^verbatim>\<open>Postgres_Queries\<close>
      (\<^verbatim>\<open>persistence/schema.rs\<close>, \<^verbatim>\<open>persistence/postgres_repository/\<close>, \<^verbatim>\<open>migrations/\<close>): the tables and their constraints, every query as
      a function on them, the laws the task store relies on as a locale and their interpretation on these
      queries.
    \<^item> \<^verbatim>\<open>Grpc\<close>, \<^verbatim>\<open>Service\<close>, \<^verbatim>\<open>New_Tasks\<close> (\<^verbatim>\<open>interfaces/grpc.rs\<close>): authentication, certificates, the fourteen handlers, and
      what a client can bring about with them.
    \<^item> \<^verbatim>\<open>Timer\<close>, \<^verbatim>\<open>Stale_Tasks\<close> (\<^verbatim>\<open>interfaces/timer.rs\<close>): a tick and what it does with tasks and subscriptions.
    \<^item> \<^verbatim>\<open>Cli\<close>, \<^verbatim>\<open>Startup\<close> (\<^verbatim>\<open>main.rs\<close>, \<^verbatim>\<open>utils.rs\<close>): the command line client, the start of the server, log identifiers.

  \<^bold>\<open>How the code is modelled\<close>. A struct is a record, an enum a datatype. An operation on the server is a function from the state to
  a result and the next state: \<^verbatim>\<open>('s, 'a) eff\<close>, with errors as values and a panic as a result of its own that leaves what was changed
  before. The handlers of the gRPC interface wrap these effects and turn errors into statuses. The repository is a record of functions, so
  that theorems about the server hold for every database, and \<^verbatim>\<open>Postgres.postgres\<close> is the one the program uses. Integers have the
  width they have in the code, and their operations wrap around as in a release build. Handlers that run at the same time are
  processes: each access to the shared state is a step (a query, an operation of a \<^verbatim>\<open>DashMap\<close>, a change of a task), between two steps any other
  handler may run, be started or be cancelled, and the guard of a task is a lock that is held from step to step.

  \<^bold>\<open>What the lemmas show\<close>.

    \<^item> A vote (\<^verbatim>\<open>Voting\<close>) has the outcome that the shares demand, its effect on the task is exact (\<^verbatim>\<open>Server_Runs\<close>), and
      only a device's own request votes for it (\<^verbatim>\<open>Service\<close>).
    \<^item> An accepted task is run by exactly the threshold of shares of accepting devices (\<^verbatim>\<open>Active_Shares\<close>), relays every
      message to the shares it is for (\<^verbatim>\<open>Communicator\<close>) and ends with the result all shares agree on (\<^verbatim>\<open>Task_Dispatch\<close>);
      through the server this result ends up in the cache and in the database (\<^verbatim>\<open>Task_Completion\<close>), and no request about anything
      else interferes (\<^verbatim>\<open>Task_Isolation\<close>).
    \<^item> Along every sequence of requests and ticks a task only moves forward (\<^verbatim>\<open>Service\<close>); a tick restarts exactly the stale
      tasks (\<^verbatim>\<open>Stale_Tasks\<close>).
    \<^item> The handlers with their guards refine the sequential ones (\<^verbatim>\<open>Concurrent_Refinement\<close>); in every interleaving tasks still only move
      forward, and every handler comes to its end (\<^verbatim>\<open>Interleavings\<close>).
    \<^item> The queries keep the schema's constraints, agree with each other and with what was stored (\<^verbatim>\<open>Postgres_Queries\<close>), and
      from them a restarted server resumes votes, parties and registrations (\<^verbatim>\<open>Postgres_Laws\<close>, \<^verbatim>\<open>Startup\<close>).
    \<^item> Requests are served only for known devices, act for their sender, and create the task they ask for, for the participants it
      should have (\<^verbatim>\<open>Service\<close>, \<^verbatim>\<open>New_Tasks\<close>, \<^verbatim>\<open>Cli\<close>).
    \<^item> Errors: requests out of phase are refused, malformed ones panic, results of another kind are refused by the
      database, an accepting device with 128 or more shares counts as rejecting, a missing PDF helper
      poisons all PDF tasks; a vote that comes between the creation of a task and its caching is lost, and a task that ends
      just before it is restarted fails the timer (\<^verbatim>\<open>Races\<close>).

  \<^bold>\<open>Bounds\<close>. All loops of the code are structural recursions. \<^verbatim>\<open>run_timer\<close> never returns; its argument is the number of rounds
  looked at, and what is said of a round holds for each. The length of a run of requests is unbounded (the inductive relation
  \<^verbatim>\<open>serves\<close>).

  \<^bold>\<open>Assumptions\<close>. In the theories before \<^verbatim>\<open>Processes\<close> a handler is atomic, except that \<^verbatim>\<open>serves\<close> lets tasks
  read before be cached later and the database change at any time; a handler that is cancelled at an await ends like one whose
  call of the database fails there. In the interleaved model one hydration and one round of notifications are single steps, and a read
  guard excludes other readers too. The database is
  reachable and its operations are transactions. A query without an order returns rows in the order of insertion; where the code
  depends on no order the laws are stated for every order. Fresh UUIDs are not yet in use. Named hypotheses state what is
  relied on of libraries: a token decodes to what it was issued for, hexadecimal digits decode to what they encode.

  \<^bold>\<open>Not modelled\<close>. The parsing of command line arguments and of protobuf messages, TLS and sockets beyond their success, OpenSSL
  beyond the data of the certificate that is signed, the waiting for connections of the pool, the fairness of locks, the interval of the timer, and log output.
  \<^verbatim>\<open>task_store.rs\<close> only declares a trait and a mock; the tests are left out.
\<close>

end
